(* ===== verification/Prelude.thy ===== *)
theory Prelude
  imports Main
begin

text \<open>
  The prelude: Python strings, exceptions and stateful computations, with the generic
  lemmas and the collections of rules that the component theories share.

  \<^item> A Python \<open>str\<close> is a list of code points (\<open>pystr\<close>); \<open>lit ''abc''\<close> is
    an ASCII literal.
  \<^item> An exception object carries its class name and those of its base classes that some
    \<open>except\<close> clause of the worker names.
  \<^item> A Python call is a function from the state to an outcome and the next state. The outcome
    is a returned value, an exception or \<open>Hang\<close> (the call never comes back); effects made
    before an exception stay in the state, as they do in Python.
\<close>

named_theorems io_defs \<open>unfolding rules of the statement combinators\<close>
named_theorems io_keeps \<open>preservation rules of the statement combinators\<close>

section \<open>Python strings\<close>

type_synonym pystr = "nat list"

definition lit :: "string \<Rightarrow> pystr" where
  "lit s = map of_char s"

lemma lit_eq_iff [simp]: "lit a = lit b \<longleftrightarrow> a = b"
  by (simp add: lit_def inj_map_eq_map inj_def)

lemma lit_Nil [simp]: "lit [] = []"
  by (simp add: lit_def)

lemma lit_eq_Nil [simp]: "lit a = [] \<longleftrightarrow> a = []" "[] = lit a \<longleftrightarrow> a = []"
  by (simp_all add: lit_def)

lemma lit_append: "lit (a @ b) = lit a @ lit b"
  by (simp add: lit_def)

lemma length_lit [simp]: "length (lit a) = length a"
  by (simp add: lit_def)

definition starts_with :: "pystr \<Rightarrow> pystr \<Rightarrow> bool" where
  "starts_with p s \<longleftrightarrow> take (length p) s = p"

definition ends_with :: "pystr \<Rightarrow> pystr \<Rightarrow> bool" where
  "ends_with p s \<longleftrightarrow> starts_with (rev p) (rev s)"

lemma starts_with_iff: "starts_with p s \<longleftrightarrow> (\<exists>r. s = p @ r)"
  by (metis append_eq_conv_conj starts_with_def)

text \<open>\<open>sep.join(parts)\<close>\<close>

fun join_str :: "pystr \<Rightarrow> pystr list \<Rightarrow> pystr" where
  "join_str sep [] = []"
| "join_str sep [x] = x"
| "join_str sep (x # xs) = x @ sep @ join_str sep xs"

section \<open>Exceptions and outcomes\<close>

datatype exc_class = Exception | ValueError | TimeoutError | AMQPError
  | UnsupportedSchemaVersionError | UnicodeDecodeError | QueueEmpty

record exn =
  exc_name :: pystr
  exc_bases :: "exc_class list"
  exc_text :: pystr

definition isinstance :: "exn \<Rightarrow> exc_class \<Rightarrow> bool" where
  "isinstance e c \<longleftrightarrow> List.member (exc_bases e) c"

definition mk_exn :: "string \<Rightarrow> exc_class list \<Rightarrow> pystr \<Rightarrow> exn" where
  "mk_exn n bs t = \<lparr>exc_name = lit n, exc_bases = bs, exc_text = t\<rparr>"

lemma isinstance_mk_exn [simp]: "isinstance (mk_exn n bs t) c \<longleftrightarrow> c \<in> set bs"
  by (simp add: isinstance_def mk_exn_def)

datatype 'a outcome = Return 'a | Raise exn | Hang

type_synonym ('s, 'a) io = "'s \<Rightarrow> 'a outcome \<times> 's"

definition ret_io :: "'a \<Rightarrow> ('s, 'a) io" where
  "ret_io x s = (Return x, s)"

definition raise_io :: "exn \<Rightarrow> ('s, 'a) io" where
  "raise_io e s = (Raise e, s)"

definition hang_io :: "('s, 'a) io" where
  "hang_io s = (Hang, s)"

definition bind_io :: "('s, 'a) io \<Rightarrow> ('a \<Rightarrow> ('s, 'b) io) \<Rightarrow> ('s, 'b) io" where
  "bind_io m f s = (case m s of
      (Return x, s') \<Rightarrow> f x s'
    | (Raise e, s') \<Rightarrow> (Raise e, s')
    | (Hang, s') \<Rightarrow> (Hang, s'))"

text \<open>A block of statements, run in order and left at the first exception.\<close>

fun seq_io :: "('s, unit) io list \<Rightarrow> ('s, unit) io" where
  "seq_io [] = ret_io ()"
| "seq_io (m # ms) = bind_io m (\<lambda>_. seq_io ms)"

text \<open>\<open>try: m / except c as e: h e\<close>\<close>

definition try_except :: "('s, 'a) io \<Rightarrow> exc_class \<Rightarrow> (exn \<Rightarrow> ('s, 'a) io) \<Rightarrow> ('s, 'a) io" where
  "try_except m c h s = (case m s of
      (Return x, s') \<Rightarrow> (Return x, s')
    | (Raise e, s') \<Rightarrow> (if isinstance e c then h e s' else (Raise e, s'))
    | (Hang, s') \<Rightarrow> (Hang, s'))"

text \<open>\<open>try: m / finally: f\<close>: an exception of the \<open>finally\<close> block replaces the pending one.\<close>

definition try_finally :: "('s, 'a) io \<Rightarrow> ('s, unit) io \<Rightarrow> ('s, 'a) io" where
  "try_finally m f s = (case m s of
      (Hang, s') \<Rightarrow> (Hang, s')
    | (r, s') \<Rightarrow> (case f s' of
        (Return _, s'') \<Rightarrow> (r, s'')
      | (Raise e, s'') \<Rightarrow> (Raise e, s'')
      | (Hang, s'') \<Rightarrow> (Hang, s'')))"

definition lift_sum :: "exn + 'a \<Rightarrow> ('s, 'a) io" where
  "lift_sum r = (case r of Inl e \<Rightarrow> raise_io e | Inr x \<Rightarrow> ret_io x)"

definition modify_io :: "('s \<Rightarrow> 's) \<Rightarrow> ('s, unit) io" where
  "modify_io f s = (Return (), f s)"

definition get_io :: "('s \<Rightarrow> 'a) \<Rightarrow> ('s, 'a) io" where
  "get_io f s = (Return (f s), s)"

lemmas [io_defs] = ret_io_def raise_io_def hang_io_def bind_io_def try_except_def
  try_finally_def modify_io_def get_io_def

lemma bind_ret [simp]: "bind_io (ret_io x) f = f x"
  by (rule ext) (simp add: io_defs)

lemma bind_raise [simp]: "bind_io (raise_io e) f = raise_io e"
  by (rule ext) (simp add: io_defs)

lemma bind_assoc: "bind_io (bind_io m f) g = bind_io m (\<lambda>x. bind_io (f x) g)"
  by (rule ext) (simp add: io_defs split: prod.splits outcome.splits)

lemma seq_io_append: "seq_io (ms @ ns) = bind_io (seq_io ms) (\<lambda>_. seq_io ns)"
  by (induction ms) (simp_all add: bind_assoc)

text \<open>Sequencing of pure code that may raise.\<close>

definition bind_sum :: "'e + 'a \<Rightarrow> ('a \<Rightarrow> 'e + 'b) \<Rightarrow> 'e + 'b" where
  "bind_sum r f = (case r of Inl e \<Rightarrow> Inl e | Inr x \<Rightarrow> f x)"

lemma bind_sum_simps [simp]: "bind_sum (Inl e) f = Inl e" "bind_sum (Inr x) f = f x"
  by (simp_all add: bind_sum_def)

lemma bind_sum_Inr: "bind_sum r f = Inr y \<longleftrightarrow> (\<exists>x. r = Inr x \<and> f x = Inr y)"
  by (cases r) auto

lemma bind_sum_Inl: "bind_sum r f = Inl e \<longleftrightarrow> r = Inl e \<or> (\<exists>x. r = Inr x \<and> f x = Inl e)"
  by (cases r) auto

section \<open>What a computation keeps and what it reaches\<close>

text \<open>\<open>keeps P m\<close>: \<open>P\<close> survives \<open>m\<close> however \<open>m\<close> ends.\<close>

definition keeps :: "('s \<Rightarrow> 's \<Rightarrow> bool) \<Rightarrow> ('s, 'a) io \<Rightarrow> bool" where
  "keeps R m \<longleftrightarrow> (\<forall>s. R s (snd (m s)))"

text \<open>
  The relations used with \<open>keeps\<close> are preorders between the state before and after;
  \<open>keeps\<close> is then closed under every statement combinator.
\<close>

definition preorder_rel :: "('s \<Rightarrow> 's \<Rightarrow> bool) \<Rightarrow> bool" where
  "preorder_rel R \<longleftrightarrow> (\<forall>s. R s s) \<and> (\<forall>s t u. R s t \<longrightarrow> R t u \<longrightarrow> R s u)"

lemma keepsI: "(\<And>s. R s (snd (m s))) \<Longrightarrow> keeps R m"
  by (simp add: keeps_def)

lemma keepsD: "keeps R m \<Longrightarrow> m s = (r, s') \<Longrightarrow> R s s'"
  by (metis keeps_def snd_conv)

lemma keeps_ret [io_keeps]: "preorder_rel R \<Longrightarrow> keeps R (ret_io x)"
  by (simp add: keeps_def preorder_rel_def ret_io_def)

lemma keeps_raise [io_keeps]: "preorder_rel R \<Longrightarrow> keeps R (raise_io e)"
  by (simp add: keeps_def preorder_rel_def raise_io_def)

lemma keeps_lift_sum [io_keeps]: "preorder_rel R \<Longrightarrow> keeps R (lift_sum r)"
  by (cases r) (simp_all add: lift_sum_def keeps_ret keeps_raise)

lemma keeps_get [io_keeps]: "preorder_rel R \<Longrightarrow> keeps R (get_io f)"
  by (simp add: keeps_def preorder_rel_def get_io_def)

lemma keeps_bind [io_keeps]:
  assumes "preorder_rel R" and "keeps R m" and "\<And>x. keeps R (f x)"
  shows "keeps R (bind_io m f)"
proof (rule keepsI)
  fix s
  obtain r s' where m: "m s = (r, s')" by fastforce
  then have "R s s'" using assms(2) by (rule keepsD [rotated])
  moreover have "R s' (snd (f x s'))" for x using assms(3) [of x] by (simp add: keeps_def)
  ultimately show "R s (snd (bind_io m f s))"
    using m assms(1) by (cases r) (auto simp: bind_io_def preorder_rel_def)
qed

text \<open>One relation for the first part, another for the rest.\<close>

lemma keeps_mixed:
  assumes "keeps Q m" and "\<And>x. keeps R (f x)" and "\<And>s t. Q s t \<Longrightarrow> T s t" and "\<And>s t u. Q s t \<Longrightarrow> R t u \<Longrightarrow> T s u"
  shows "keeps T (bind_io m f)"
proof (rule keepsI)
  fix s
  obtain r s' where m: "m s = (r, s')" by fastforce
  then have "Q s s'" using assms(1) by (rule keepsD [rotated])
  moreover have "R s' (snd (f x s'))" for x using assms(2) [of x] by (simp add: keeps_def)
  ultimately show "T s (snd (bind_io m f s))"
    using m assms(3,4) by (cases r) (auto simp: bind_io_def)
qed

lemma keeps_seq [io_keeps]:
  assumes "preorder_rel R" and "\<And>m. m \<in> set ms \<Longrightarrow> keeps R m"
  shows "keeps R (seq_io ms)"
  using assms(2)
proof (induction ms)
  case Nil
  show ?case using assms(1) by (simp add: keeps_ret)
next
  case (Cons m ms)
  then show ?case by (simp add: keeps_bind assms(1))
qed

lemma keeps_try [io_keeps]:
  assumes "preorder_rel R" and "keeps R m" and "\<And>e. keeps R (h e)"
  shows "keeps R (try_except m c h)"
proof (rule keepsI)
  fix s
  obtain r s' where m: "m s = (r, s')" by fastforce
  then have "R s s'" using assms(2) by (rule keepsD [rotated])
  moreover have "R s' (snd (h e s'))" for e using assms(3) [of e] by (simp add: keeps_def)
  ultimately show "R s (snd (try_except m c h s))"
    using m assms(1) by (cases r) (auto simp: try_except_def preorder_rel_def)
qed

lemma keeps_finally [io_keeps]:
  assumes "preorder_rel R" and "keeps R m" and "keeps R f"
  shows "keeps R (try_finally m f)"
proof (rule keepsI)
  fix s
  obtain r s' where m: "m s = (r, s')" by fastforce
  then have "R s s'" using assms(2) by (rule keepsD [rotated])
  moreover obtain r2 s2 where f: "f s' = (r2, s2)" by fastforce
  then have "R s' s2" using assms(3) by (rule keepsD [rotated])
  ultimately show "R s (snd (try_finally m f s))"
    using m f assms(1) by (cases r; cases r2) (auto simp: try_finally_def preorder_rel_def)
qed

section \<open>Lists\<close>

lemma dropWhile_eq_Nil_all: "dropWhile P xs = [] \<longleftrightarrow> (\<forall>x \<in> set xs. P x)"
  by (induction xs) auto

lemma takeWhile_append_stop:
  "\<forall>x \<in> set xs. P x \<Longrightarrow> \<not> P y \<Longrightarrow> takeWhile P (xs @ y # ys) = xs"
  by (induction xs) auto

lemma dropWhile_append_stop:
  "\<forall>x \<in> set xs. P x \<Longrightarrow> \<not> P y \<Longrightarrow> dropWhile P (xs @ y # ys) = y # ys"
  by (induction xs) auto

end
