(* ===== verification/Text.thy ===== *)
theory Text
  imports Prelude "HOL-Library.Word"
begin

text \<open>
  The text operations of the Python runtime that the worker uses: UTF-8 in CPython's
  decoder (with the reason of the first error), the decimal digits of \<open>\d\<close> and
  \<open>int()\<close>, \<open>str(int)\<close>, and the string methods \<open>replace\<close>, \<open>strip\<close> and
  \<open>lower\<close>. The lemmas show that decoding inverts encoding and accepts nothing else, and
  that \<open>int\<close> reads back what \<open>str\<close> writes.
\<close>

type_synonym bytes = "8 word list"

definition value_error :: "string \<Rightarrow> exn" where
  "value_error msg = mk_exn ''ValueError'' [ValueError, Exception] (lit msg)"

lemma unat_byte: "unat (b :: 8 word) < 256"
proof -
  have "unat b < 2 ^ LENGTH(8)" by (rule unsigned_less)
  then show ?thesis by simp
qed

section \<open>UTF-8\<close>

definition is_surrogate :: "nat \<Rightarrow> bool" where
  "is_surrogate c \<longleftrightarrow> 0xD800 \<le> c \<and> c \<le> 0xDFFF"

definition is_scalar :: "nat \<Rightarrow> bool" where
  "is_scalar c \<longleftrightarrow> c \<le> 0x10FFFF \<and> \<not> is_surrogate c"

definition enc_cp :: "nat \<Rightarrow> nat list" where
  "enc_cp c =
     (if c < 0x80 then [c]
      else if c < 0x800 then [0xC0 + c div 64, 0x80 + c mod 64]
      else if c < 0x10000 then [0xE0 + c div 4096, 0x80 + c div 64 mod 64, 0x80 + c mod 64]
      else [0xF0 + c div 262144, 0x80 + c div 4096 mod 64, 0x80 + c div 64 mod 64, 0x80 + c mod 64])"

text \<open>\<open>s.encode()\<close> raises on a lone surrogate.\<close>

definition utf8_encode :: "pystr \<Rightarrow> exn + bytes" where
  "utf8_encode s =
     (if list_all is_scalar s then Inr (map of_nat (concat (map enc_cp s)))
      else Inl (mk_exn ''UnicodeEncodeError'' [ValueError, Exception] (lit ''surrogates not allowed'')))"

datatype utf8_error = InvalidStart | InvalidContinuation | UnexpectedEnd

fun utf8_reason :: "utf8_error \<Rightarrow> pystr" where
  "utf8_reason InvalidStart = lit ''invalid start byte''"
| "utf8_reason InvalidContinuation = lit ''invalid continuation byte''"
| "utf8_reason UnexpectedEnd = lit ''unexpected end of data''"

definition is_cont :: "nat \<Rightarrow> bool" where
  "is_cont b \<longleftrightarrow> 0x80 \<le> b \<and> b < 0xC0"

definition cons_cp :: "nat \<Rightarrow> utf8_error + nat list \<Rightarrow> utf8_error + nat list" where
  "cons_cp c r = (case r of Inl e \<Rightarrow> Inl e | Inr cs \<Rightarrow> Inr (c # cs))"

fun utf8_dec :: "nat list \<Rightarrow> utf8_error + nat list" where
  "utf8_dec [] = Inr []"
| "utf8_dec (b # bs) =
     (if b < 0x80 then cons_cp b (utf8_dec bs)
      else if b < 0xC2 then Inl InvalidStart
      else if b < 0xE0 then
        (case bs of [] \<Rightarrow> Inl UnexpectedEnd
         | c # cs \<Rightarrow>
           if \<not> is_cont c then Inl InvalidContinuation
           else cons_cp ((b - 0xC0) * 64 + (c - 0x80)) (utf8_dec cs))
      else if b < 0xF0 then
        (case bs of [] \<Rightarrow> Inl UnexpectedEnd
         | c # cs \<Rightarrow>
           if \<not> is_cont c \<or> (if c < 0xA0 then b = 0xE0 else b = 0xED) then Inl InvalidContinuation
           else (case cs of [] \<Rightarrow> Inl UnexpectedEnd
             | d # ds \<Rightarrow>
               if \<not> is_cont d then Inl InvalidContinuation
               else cons_cp ((b - 0xE0) * 4096 + (c - 0x80) * 64 + (d - 0x80)) (utf8_dec ds)))
      else if b < 0xF5 then
        (case bs of [] \<Rightarrow> Inl UnexpectedEnd
         | c # cs \<Rightarrow>
           if \<not> is_cont c \<or> (if c < 0x90 then b = 0xF0 else b = 0xF4) then Inl InvalidContinuation
           else (case cs of [] \<Rightarrow> Inl UnexpectedEnd
             | d # ds \<Rightarrow>
               if \<not> is_cont d then Inl InvalidContinuation
               else (case ds of [] \<Rightarrow> Inl UnexpectedEnd
                 | e # es \<Rightarrow>
                   if \<not> is_cont e then Inl InvalidContinuation
                   else cons_cp ((b - 0xF0) * 262144 + (c - 0x80) * 4096 + (d - 0x80) * 64 + (e - 0x80))
                          (utf8_dec es))))
      else Inl InvalidStart)"

text \<open>\<open>raw.decode("utf-8")\<close>\<close>

definition utf8_decode :: "bytes \<Rightarrow> utf8_error + pystr" where
  "utf8_decode bs = utf8_dec (map unat bs)"

lemma enc_cp_byte: "is_scalar c \<Longrightarrow> b \<in> set (enc_cp c) \<Longrightarrow> b < 256"
  by (auto simp: enc_cp_def is_scalar_def split: if_splits)

lemma base64_split:
  fixes c :: nat
  shows "c div 64 * 64 + c mod 64 = c"
    and "c div 4096 * 64 + c div 64 mod 64 = c div 64"
    and "c div 262144 * 64 + c div 4096 mod 64 = c div 4096"
  using div_mult_mod_eq [of c 64] div_mult_mod_eq [of "c div 64" 64]
    div_mult_mod_eq [of "c div 4096" 64]
  by (simp_all flip: div_mult2_eq)

lemma utf8_dec2:
  assumes "2 \<le> a" and "a < 32" and "b < 64"
  shows "utf8_dec ((0xC0 + a) # (0x80 + b) # bs) = cons_cp (a * 64 + b) (utf8_dec bs)"
  using assms by (simp add: is_cont_def)

lemma utf8_dec3:
  assumes "a < 16" and "b < 64" and "d < 64"
    and "\<not> (if b < 32 then a = 0 else a = 13)"
  shows "utf8_dec ((0xE0 + a) # (0x80 + b) # (0x80 + d) # bs) = cons_cp (a * 4096 + b * 64 + d) (utf8_dec bs)"
  using assms by (auto simp: is_cont_def)

lemma utf8_dec4:
  assumes "a < 5" and "b < 64" and "d < 64" and "e < 64"
    and "\<not> (if b < 16 then a = 0 else a = 4)"
  shows "utf8_dec ((0xF0 + a) # (0x80 + b) # (0x80 + d) # (0x80 + e) # bs) =
    cons_cp (a * 262144 + b * 4096 + d * 64 + e) (utf8_dec bs)"
  using assms by (auto simp: is_cont_def)

declare utf8_dec.simps(2) [simp del]

lemma utf8_dec_ascii: "b < 0x80 \<Longrightarrow> utf8_dec (b # bs) = cons_cp b (utf8_dec bs)"
  by (subst utf8_dec.simps) simp

lemma utf8_dec_enc_cp2:
  assumes "0x80 \<le> c" and "c < 0x800"
  shows "utf8_dec (enc_cp c @ bs) = cons_cp c (utf8_dec bs)"
proof -
  have "2 \<le> c div 64" and "c div 64 < 32" using assms by linarith+
  then have "utf8_dec ((0xC0 + c div 64) # (0x80 + c mod 64) # bs) = cons_cp c (utf8_dec bs)"
    using utf8_dec2 [of "c div 64" "c mod 64"] by (simp add: base64_split)
  then show ?thesis using assms by (simp add: enc_cp_def)
qed

lemma utf8_dec_enc_cp3:
  assumes "0x800 \<le> c" and "c < 0x10000" and "\<not> is_surrogate c"
  shows "utf8_dec (enc_cp c @ bs) = cons_cp c (utf8_dec bs)"
proof -
  define a b d where abd: "a = c div 4096" "b = c div 64 mod 64" "d = c mod 64"
  have bounds: "a < 16" "b < 64" "d < 64" using assms unfolding abd by simp_all
  have c: "a * 4096 + b * 64 + d = c" using base64_split [of c] unfolding abd by linarith
  have "\<not> (if b < 32 then a = 0 else a = 13)"
    using c bounds assms by (auto simp: is_surrogate_def)
  then show ?thesis
    using utf8_dec3 [OF bounds] c assms by (simp add: enc_cp_def abd)
qed

lemma utf8_dec_enc_cp4:
  assumes "0x10000 \<le> c" and "c \<le> 0x10FFFF"
  shows "utf8_dec (enc_cp c @ bs) = cons_cp c (utf8_dec bs)"
proof -
  define a b d e where abde:
    "a = c div 262144" "b = c div 4096 mod 64" "d = c div 64 mod 64" "e = c mod 64"
  have bounds: "a < 5" "b < 64" "d < 64" "e < 64" using assms unfolding abde by simp_all
  have c: "a * 262144 + b * 4096 + d * 64 + e = c" using base64_split [of c] unfolding abde by linarith
  have "\<not> (if b < 16 then a = 0 else a = 4)"
    using c bounds assms by auto
  then show ?thesis
    using utf8_dec4 [OF bounds] c assms by (simp add: enc_cp_def abde)
qed

lemma utf8_dec_enc_cp:
  assumes "is_scalar c"
  shows "utf8_dec (enc_cp c @ bs) = cons_cp c (utf8_dec bs)"
proof -
  consider "c < 0x80" | "0x80 \<le> c" "c < 0x800" | "0x800 \<le> c" "c < 0x10000" | "0x10000 \<le> c"
    by linarith
  then show ?thesis
  proof cases
    case 1
    then show ?thesis by (simp add: enc_cp_def utf8_dec_ascii)
  qed (use assms in \<open>auto simp: is_scalar_def utf8_dec_enc_cp2 utf8_dec_enc_cp3 utf8_dec_enc_cp4\<close>)
qed

lemma utf8_dec_enc: "list_all is_scalar s \<Longrightarrow> utf8_dec (concat (map enc_cp s)) = Inr s"
  by (induction s) (simp_all add: utf8_dec_enc_cp cons_cp_def)

lemma unat_of_nat_bytes:
  "(\<And>b. b \<in> set bs \<Longrightarrow> b < 256) \<Longrightarrow> map (unat \<circ> (of_nat :: nat \<Rightarrow> 8 word)) bs = bs"
  by (induction bs) (simp_all add: unat_of_nat)

lemma utf8_decode_encode: "utf8_encode s = Inr bs \<Longrightarrow> utf8_decode bs = Inr s"
proof -
  assume "utf8_encode s = Inr bs"
  then have s: "list_all is_scalar s" and bs: "bs = map of_nat (concat (map enc_cp s))"
    by (auto simp: utf8_encode_def split: if_splits)
  have "map (unat \<circ> (of_nat :: nat \<Rightarrow> 8 word)) (concat (map enc_cp s)) = concat (map enc_cp s)"
    using s by (intro unat_of_nat_bytes) (auto simp: list_all_iff dest: enc_cp_byte)
  then show "utf8_decode bs = Inr s"
    by (simp add: utf8_decode_def bs utf8_dec_enc [OF s])
qed

text \<open>Conversely the decoder accepts only the encoding of the text it returns.\<close>

lemma div_mod_64: "(r :: nat) < 64 \<Longrightarrow> (q * 64 + r) div 64 = q \<and> (q * 64 + r) mod 64 = r"
  by simp

lemma enc_cp2:
  assumes "2 \<le> a" and "a < 32" and "b < 64"
  shows "is_scalar (a * 64 + b) \<and> enc_cp (a * 64 + b) = [0xC0 + a, 0x80 + b]"
  using assms div_mod_64 [of b a] by (auto simp: is_scalar_def is_surrogate_def enc_cp_def)

lemma enc_cp3:
  assumes "a < 16" and "b < 64" and "d < 64" and ok: "\<not> (if b < 32 then a = 0 else a = 13)"
  shows "is_scalar (a * 4096 + b * 64 + d) \<and>
    enc_cp (a * 4096 + b * 64 + d) = [0xE0 + a, 0x80 + b, 0x80 + d]"
proof -
  define x where x: "x = a * 4096 + b * 64 + d"
  have x': "x = (a * 64 + b) * 64 + d" by (simp add: x)
  have q: "x div 64 = a * 64 + b" "x mod 64 = d" using div_mod_64 [OF assms(3), of "a * 64 + b"] by (simp_all only: x')
  have "x div 4096 = x div 64 div 64" by (simp flip: div_mult2_eq)
  with q have q': "x div 4096 = a" using div_mod_64 [OF assms(2), of a] by simp
  have bounds: "0x800 \<le> x" "x < 0x10000" using assms unfolding x by (auto split: if_splits)
  have "\<not> is_surrogate x"
  proof
    assume "is_surrogate x"
    then have "0xD800 \<le> x" and "x \<le> 0xDFFF" by (simp_all add: is_surrogate_def)
    then have a: "a = 13" using assms(1,2,3) unfolding x by linarith
    then have "32 \<le> b" using \<open>0xD800 \<le> x\<close> assms(2,3) unfolding x by linarith
    with a ok show False by simp
  qed
  then show ?thesis
    using bounds q q' div_mod_64 [OF assms(2), of a] unfolding x [symmetric]
    by (simp add: is_scalar_def enc_cp_def)
qed

lemma enc_cp4:
  assumes "a < 5" and "b < 64" and "d < 64" and "e < 64"
    and ok: "\<not> (if b < 16 then a = 0 else a = 4)"
  shows "is_scalar (a * 262144 + b * 4096 + d * 64 + e) \<and>
    enc_cp (a * 262144 + b * 4096 + d * 64 + e) = [0xF0 + a, 0x80 + b, 0x80 + d, 0x80 + e]"
proof -
  define x where x: "x = a * 262144 + b * 4096 + d * 64 + e"
  have x': "x = ((a * 64 + b) * 64 + d) * 64 + e" by (simp add: x)
  have q: "x div 64 = (a * 64 + b) * 64 + d" "x mod 64 = e"
    using div_mod_64 [OF assms(4), of "(a * 64 + b) * 64 + d"] by (simp_all only: x')
  have "x div 4096 = x div 64 div 64" by (simp flip: div_mult2_eq)
  with q have q2: "x div 4096 = a * 64 + b" using div_mod_64 [OF assms(3), of "a * 64 + b"] by simp
  have "x div 262144 = x div 4096 div 64" by (simp flip: div_mult2_eq)
  with q2 have q3: "x div 262144 = a" using div_mod_64 [OF assms(2), of a] by simp
  have bounds: "0x10000 \<le> x" "x \<le> 0x10FFFF" using assms unfolding x by (auto split: if_splits)
  then show ?thesis
    using q q2 q3 div_mod_64 [OF assms(2), of a] div_mod_64 [OF assms(3), of "a * 64 + b"]
    unfolding x [symmetric] by (simp add: is_scalar_def is_surrogate_def enc_cp_def)
qed

lemma is_cont_offset: "is_cont b \<Longrightarrow> \<exists>r. b = 0x80 + r \<and> r < 64"
  by (rule exI [of _ "b - 0x80"]) (auto simp: is_cont_def)

lemma cons_cp_Inr: "cons_cp c r = Inr s \<longleftrightarrow> (\<exists>cs. r = Inr cs \<and> s = c # cs)"
  by (cases r) (auto simp: cons_cp_def)

lemma first_byte: "b < 0x80 \<or> (\<exists>a. b = 0xC0 + a \<and> 2 \<le> a \<and> a < 32) \<or> (\<exists>a. b = 0xE0 + a \<and> a < 16)
    \<or> (\<exists>a. b = 0xF0 + a \<and> a < 5) \<or> (0x80 \<le> b \<and> b < 0xC2) \<or> 0xF5 \<le> (b :: nat)"
  by presburger

lemma utf8_dec_sound:
  "utf8_dec bs = Inr cs \<Longrightarrow> list_all is_scalar cs \<and> concat (map enc_cp cs) = bs"
proof (induction bs arbitrary: cs rule: utf8_dec.induct)
  case 1
  then show ?case by simp
next
  case (2 b bs)
  note eq = "2.prems" [unfolded utf8_dec.simps(2)]
  from first_byte consider "b < 0x80" | a where "b = 0xC0 + a" "2 \<le> a" "a < 32" | a where "b = 0xE0 + a" "a < 16"
    | a where "b = 0xF0 + a" "a < 5" | "0x80 \<le> b" "b < 0xC2" | "0xF5 \<le> b" by blast
  then show ?case
  proof cases
    case 1
    with eq "2.IH"(1) show ?thesis
      by (auto simp: cons_cp_Inr enc_cp_def is_scalar_def is_surrogate_def)
  next
    case (2 a)
    with eq obtain c cs' where bs: "bs = c # cs'" and c: "is_cont c"
      by (auto split: list.splits if_splits)
    from is_cont_offset [OF c] obtain r where r: "c = 0x80 + r" "r < 64" by blast
    with eq 2 bs c obtain t where "utf8_dec cs' = Inr t" and "cs = (a * 64 + r) # t"
      by (auto simp: cons_cp_Inr)
    moreover have "list_all is_scalar t \<and> concat (map enc_cp t) = cs'"
      using "2.IH"(2) [OF _ _ _ bs] 2 c \<open>utf8_dec cs' = Inr t\<close> by simp
    ultimately show ?thesis using enc_cp2 [OF 2(2,3) r(2)] by (simp add: 2(1) bs r(1))
  next
    case (3 a)
    with eq obtain c d ds where bs: "bs = c # d # ds" and cd: "is_cont c" "is_cont d"
      and ok: "\<not> (if c < 0xA0 then b = 0xE0 else b = 0xED)"
      by (auto split: list.splits if_splits)
    from is_cont_offset [OF cd(1)] is_cont_offset [OF cd(2)] obtain r q
      where r: "c = 0x80 + r" "r < 64" and q: "d = 0x80 + q" "q < 64" by blast
    from eq 3 bs cd ok r q obtain t where t: "utf8_dec ds = Inr t" and cs: "cs = (a * 4096 + r * 64 + q) # t"
      by (auto simp: cons_cp_Inr)
    have "list_all is_scalar t \<and> concat (map enc_cp t) = ds"
      using "2.IH"(3) [OF _ _ _ _ bs _ refl] 3 cd ok t by simp
    moreover have "\<not> (if r < 32 then a = 0 else a = 13)" using ok 3(1) r(1) by (simp split: if_splits)
    ultimately show ?thesis using enc_cp3 [OF 3(2) r(2) q(2)] by (simp add: 3(1) bs cs r(1) q(1))
  next
    case (4 a)
    with eq obtain c d e es where bs: "bs = c # d # e # es" and cde: "is_cont c" "is_cont d" "is_cont e"
      and ok: "\<not> (if c < 0x90 then b = 0xF0 else b = 0xF4)"
      by (auto split: list.splits if_splits)
    from is_cont_offset [OF cde(1)] is_cont_offset [OF cde(2)] is_cont_offset [OF cde(3)] obtain r q p
      where r: "c = 0x80 + r" "r < 64" and q: "d = 0x80 + q" "q < 64" and p: "e = 0x80 + p" "p < 64" by blast
    from eq 4 bs cde ok r q p obtain t where t: "utf8_dec es = Inr t"
      and cs: "cs = (a * 262144 + r * 4096 + q * 64 + p) # t"
      by (auto simp: cons_cp_Inr)
    have "list_all is_scalar t \<and> concat (map enc_cp t) = es"
      using "2.IH"(4) [OF _ _ _ _ _ bs _ refl _ refl] 4 cde ok t by simp
    moreover have "\<not> (if r < 16 then a = 0 else a = 4)" using ok 4(1) r(1) by (simp split: if_splits)
    ultimately show ?thesis using enc_cp4 [OF 4(2) r(2) q(2) p(2)] by (simp add: 4(1) bs cs r(1) q(1) p(1))
  qed (use eq in auto)
qed

lemma utf8_encode_decode: "utf8_decode bs = Inr s \<Longrightarrow> utf8_encode s = Inr bs"
proof -
  assume "utf8_decode bs = Inr s"
  then have "list_all is_scalar s" and "concat (map enc_cp s) = map unat bs"
    using utf8_dec_sound [of "map unat bs" s] by (simp_all add: utf8_decode_def)
  then show "utf8_encode s = Inr bs"
    by (simp add: utf8_encode_def comp_def)
qed

section \<open>Decimal digits, \<open>int\<close> and \<open>str\<close>\<close>

text \<open>
  The code points of value zero among the decimal digits (category Nd) of Unicode 15.0, the
  version of Python 3.12: the regular expression \<open>\d\<close> and \<open>int()\<close> accept them all.
\<close>

definition nd_zeros :: "nat list" where
  "nd_zeros = [48, 1632, 1776, 1984, 2406, 2534, 2662, 2790, 2918, 3046, 3174, 3302, 3430, 3558,
    3664, 3792, 3872, 4160, 4240, 6112, 6160, 6470, 6608, 6784, 6800, 6992, 7088, 7232, 7248,
    42528, 43216, 43264, 43472, 43504, 43600, 44016, 65296, 66720, 68912, 69734, 69872, 69942,
    70096, 70384, 70736, 70864, 71248, 71360, 71472, 71904, 72016, 72784, 73040, 73120, 73552,
    92768, 92864, 93008, 120782, 120792, 120802, 120812, 120822, 123200, 123632, 124144, 125264,
    130032]"

definition digit_val :: "nat \<Rightarrow> nat option" where
  "digit_val c = map_option (\<lambda>z. c - z) (List.find (\<lambda>z. z \<le> c \<and> c < z + 10) nd_zeros)"

definition is_digit :: "nat \<Rightarrow> bool" where
  "is_digit c \<longleftrightarrow> digit_val c \<noteq> None"

text \<open>\<open>str.isspace\<close> of one character.\<close>

definition is_space :: "nat \<Rightarrow> bool" where
  "is_space c \<longleftrightarrow> List.member [9, 10, 11, 12, 13, 28, 29, 30, 31, 32, 133, 160, 5760, 8192, 8193,
    8194, 8195, 8196, 8197, 8198, 8199, 8200, 8201, 8202, 8232, 8233, 8239, 8287, 12288] c"

definition strip_where :: "(nat \<Rightarrow> bool) \<Rightarrow> pystr \<Rightarrow> pystr" where
  "strip_where p s = rev (dropWhile p (rev (dropWhile p s)))"

text \<open>The value of one digit character in a base up to 16: Unicode decimals and ASCII letters.\<close>

definition base_digit :: "nat \<Rightarrow> nat option" where
  "base_digit c = (case digit_val c of
      Some d \<Rightarrow> Some d
    | None \<Rightarrow> if 97 \<le> c \<and> c \<le> 102 then Some (c - 87)
              else if 65 \<le> c \<and> c \<le> 70 then Some (c - 55) else None)"

text \<open>Digits with single underscores between them; \<open>prev\<close> tells that a digit came just before.\<close>

fun scan_digits :: "nat \<Rightarrow> bool \<Rightarrow> pystr \<Rightarrow> nat list option" where
  "scan_digits b prev [] = (if prev then Some [] else None)"
| "scan_digits b prev (c # cs) =
     (if c = 95 then (if prev then scan_digits b False cs else None)
      else (case base_digit c of
          None \<Rightarrow> None
        | Some d \<Rightarrow> if d < b then map_option ((#) d) (scan_digits b True cs) else None))"

definition digits_value :: "nat \<Rightarrow> nat list \<Rightarrow> nat" where
  "digits_value b ds = foldl (\<lambda>a d. a * b + d) 0 ds"

definition split_sign :: "pystr \<Rightarrow> bool \<times> pystr" where
  "split_sign s = (case s of
      [] \<Rightarrow> (False, [])
    | c # cs \<Rightarrow> if c = 45 then (True, cs) else if c = 43 then (False, cs) else (False, s))"

text \<open>
  \<open>int(s, base)\<close> for the bases 10 and 16 the worker uses: surrounding white space, a sign, for
  base 16 an optional \<open>0x\<close> with an optional underscore, then digits. CPython refuses a decimal
  number of more than 4300 digits.
\<close>

definition py_int :: "nat \<Rightarrow> pystr \<Rightarrow> exn + int" where
  "py_int b s =
     (let (neg, t) = split_sign (strip_where is_space s);
          hex = b = 16 \<and> (starts_with (lit ''0x'') t \<or> starts_with (lit ''0X'') t);
          u = (if hex then drop 2 t else t);
          v = (if hex \<and> starts_with (lit ''_'') u then drop 1 u else u)
      in case scan_digits b False v of
          None \<Rightarrow> Inl (value_error ''invalid literal for int()'')
        | Some ds \<Rightarrow>
            if b = 10 \<and> 4300 < length ds
            then Inl (value_error ''Exceeds the limit (4300 digits) for integer string conversion'')
            else Inr (if neg then - int (digits_value b ds) else int (digits_value b ds)))"

text \<open>\<open>str(n)\<close>\<close>

fun show_nat :: "nat \<Rightarrow> pystr" where
  "show_nat n = (if n < 10 then [48 + n] else show_nat (n div 10) @ [48 + n mod 10])"

declare show_nat.simps [simp del]

definition show_int :: "int \<Rightarrow> pystr" where
  "show_int i = (if i < 0 then 45 # show_nat (nat (- i)) else show_nat (nat i))"

section \<open>String methods\<close>

text \<open>\<open>s.replace(old, new)\<close> for a non-empty \<open>old\<close>.\<close>

function replace_str :: "pystr \<Rightarrow> pystr \<Rightarrow> pystr \<Rightarrow> pystr" where
  "replace_str old new s = (case s of
      [] \<Rightarrow> []
    | c # cs \<Rightarrow> if old \<noteq> [] \<and> starts_with old s then new @ replace_str old new (drop (length old) s)
                else c # replace_str old new cs)"
  by pat_completeness auto
termination
  by (relation "measure (\<lambda>(old, new, s). length s)") auto

declare replace_str.simps [simp del]

text \<open>\<open>s.lower()\<close> on the ASCII letters; other characters are left alone.\<close>

definition lower_ascii :: "pystr \<Rightarrow> pystr" where
  "lower_ascii s = map (\<lambda>c. if 65 \<le> c \<and> c \<le> 90 then c + 32 else c) s"

section \<open>Lemmas on numbers\<close>

lemma ascii_digit_val [simp]: "d < 10 \<Longrightarrow> digit_val (48 + d) = Some d"
  by (simp add: digit_val_def nd_zeros_def)

lemma base_digit_ascii [simp]: "d < 10 \<Longrightarrow> base_digit (48 + d) = Some d"
  by (simp add: base_digit_def)

lemma scan_digits_append:
  "ds \<noteq> [] \<Longrightarrow> \<forall>d \<in> set ds. d < 10 \<Longrightarrow>
    scan_digits 10 prev (map (\<lambda>d. 48 + d) ds @ t) = map_option ((@) ds) (scan_digits 10 True t)"
proof (induction ds arbitrary: prev)
  case Nil
  then show ?case by simp
next
  case (Cons d ds)
  then show ?case
    by (cases ds) (auto simp: option.map_comp comp_def option.map_ident)
qed

fun dec_digits :: "nat \<Rightarrow> nat list" where
  "dec_digits n = (if n < 10 then [n] else dec_digits (n div 10) @ [n mod 10])"

declare dec_digits.simps [simp del]

lemma show_nat_dec_digits: "show_nat n = map (\<lambda>d. 48 + d) (dec_digits n)"
  by (induction n rule: show_nat.induct) (subst show_nat.simps, subst dec_digits.simps, simp)

lemma dec_digits_bound: "d \<in> set (dec_digits n) \<Longrightarrow> d < 10"
  by (induction n rule: dec_digits.induct) (subst (asm) dec_digits.simps, auto split: if_splits)

lemma dec_digits_not_Nil [simp]: "dec_digits n \<noteq> []"
  by (subst dec_digits.simps) simp

lemma dec_digits_value: "digits_value 10 (dec_digits n) = n"
proof (induction n rule: dec_digits.induct)
  case (1 n)
  then show ?case by (subst dec_digits.simps) (auto simp: digits_value_def)
qed

lemma show_nat_ascii: "c \<in> set (show_nat n) \<Longrightarrow> 48 \<le> c \<and> c < 58"
  by (auto simp: show_nat_dec_digits dest: dec_digits_bound)

lemma scan_show_nat: "scan_digits 10 False (show_nat n) = Some (dec_digits n)"
  using scan_digits_append [of "dec_digits n" False "[]"]
  by (simp add: show_nat_dec_digits dec_digits_bound)

lemma dropWhile_id: "(\<And>x. x \<in> set xs \<Longrightarrow> \<not> p x) \<Longrightarrow> dropWhile p xs = xs"
  by (cases xs) auto

lemma strip_where_id: "(\<And>x. x \<in> set xs \<Longrightarrow> \<not> p x) \<Longrightarrow> strip_where p xs = xs"
  using dropWhile_id [of xs p] dropWhile_id [of "rev xs" p] by (simp add: strip_where_def)

text \<open>\<open>int(str(i)) = i\<close> for every number of at most 4300 digits.\<close>

lemma py_int_show_int:
  assumes "length (show_nat (nat \<bar>i\<bar>)) \<le> 4300"
  shows "py_int 10 (show_int i) = Inr i"
proof -
  have nsp: "\<not> is_space c" if "c \<in> set (show_int i)" for c
    using that show_nat_ascii [of c] by (auto simp: show_int_def is_space_def split: if_splits)
  have sgn: "split_sign (show_int i) = (i < 0, show_nat (nat \<bar>i\<bar>))"
  proof (cases "i < 0")
    case False
    then obtain c cs where "show_nat (nat i) = c # cs" "48 \<le> c"
      using show_nat_ascii [of _ "nat i"] by (cases "show_nat (nat i)") (auto simp: show_nat_dec_digits)
    with False show ?thesis by (simp add: show_int_def split_sign_def)
  qed (simp add: show_int_def split_sign_def)
  have "length (dec_digits (nat \<bar>i\<bar>)) \<le> 4300" using assms by (simp add: show_nat_dec_digits)
  then have "py_int 10 (show_int i) = Inr (if i < 0 then - int (nat \<bar>i\<bar>) else int (nat \<bar>i\<bar>))"
    unfolding py_int_def Let_def by (simp only: strip_where_id [OF nsp] sgn prod.case) (simp add: scan_show_nat dec_digits_value)
  then show ?thesis by simp
qed

lemma show_nat_inj: "show_nat m = show_nat n \<Longrightarrow> m = n"
  using scan_show_nat [of m] scan_show_nat [of n] dec_digits_value [of m] dec_digits_value [of n]
  by simp

section \<open>Splitting\<close>

text \<open>\<open>s.split(sep)\<close> for a separator of one character.\<close>

fun split_on :: "nat \<Rightarrow> pystr \<Rightarrow> pystr list" where
  "split_on sep [] = [[]]"
| "split_on sep (c # cs) =
     (if c = sep then [] # split_on sep cs
      else (case split_on sep cs of [] \<Rightarrow> [[c]] | f # fs \<Rightarrow> (c # f) # fs))"

lemma split_on_Cons: "\<exists>f fs. split_on sep s = f # fs"
  by (induction s) (auto split: list.splits)

end
