(* ===== verification/Hashing.thy ===== *)
theory Hashing
  imports Text
begin

text \<open>
  The digests of Python's \<open>hashlib\<close> and \<open>hmac\<close> that the worker uses: SHA-256
  (FIPS 180-4) on byte strings, HMAC-SHA256 (RFC 2104), and \<open>hexdigest()\<close>. What the
  rest of the development needs of them is the shape of a digest: 32 bytes, printed as 64
  lower-case hexadecimal characters.
\<close>

type_synonym u32 = "32 word"

unbundle bit_operations_syntax

section \<open>SHA-256\<close>

definition sha_k :: "u32 list" where
  "sha_k = [
    1116352408, 1899447441, 3049323471, 3921009573, 961987163, 1508970993, 2453635748, 2870763221,
    3624381080, 310598401, 607225278, 1426881987, 1925078388, 2162078206, 2614888103, 3248222580,
    3835390401, 4022224774, 264347078, 604807628, 770255983, 1249150122, 1555081692, 1996064986,
    2554220882, 2821834349, 2952996808, 3210313671, 3336571891, 3584528711, 113926993, 338241895,
    666307205, 773529912, 1294757372, 1396182291, 1695183700, 1986661051, 2177026350, 2456956037,
    2730485921, 2820302411, 3259730800, 3345764771, 3516065817, 3600352804, 4094571909, 275423344,
    430227734, 506948616, 659060556, 883997877, 958139571, 1322822218, 1537002063, 1747873779,
    1955562222, 2024104815, 2227730452, 2361852424, 2428436474, 2756734187, 3204031479, 3329325298]"

definition sha_h0 :: "u32 list" where
  "sha_h0 = [
    1779033703, 3144134277, 1013904242, 2773480762, 1359893119, 2600822924, 528734635, 1541459225]"

definition be_bytes :: "nat \<Rightarrow> nat \<Rightarrow> bytes" where
  "be_bytes k n = map (\<lambda>i. of_nat (n div 256 ^ (k - 1 - i) mod 256)) [0..<k]"

definition sha_pad :: "bytes \<Rightarrow> bytes" where
  "sha_pad m = m @ [0x80] @ replicate ((119 - length m mod 64) mod 64) 0 @ be_bytes 8 (8 * length m)"

fun chunks :: "nat \<Rightarrow> 'a list \<Rightarrow> 'a list list" where
  "chunks n xs = (if n = 0 \<or> xs = [] then [] else take n xs # chunks n (drop n xs))"

declare chunks.simps [simp del]

definition be_word :: "bytes \<Rightarrow> u32" where
  "be_word bs = of_nat (foldl (\<lambda>a b. a * 256 + unat b) 0 bs)"

fun sha_schedule :: "nat \<Rightarrow> u32 list \<Rightarrow> u32 list" where
  "sha_schedule 0 w = w"
| "sha_schedule (Suc n) w =
     (let t = length w; x = w ! (t - 2); y = w ! (t - 15);
          s1 = word_rotr 17 x XOR word_rotr 19 x XOR drop_bit 10 x;
          s0 = word_rotr 7 y XOR word_rotr 18 y XOR drop_bit 3 y
      in sha_schedule n (w @ [s1 + w ! (t - 7) + s0 + w ! (t - 16)]))"

datatype sha_state = Sha u32 u32 u32 u32 u32 u32 u32 u32

fun sha_round :: "sha_state \<Rightarrow> u32 \<times> u32 \<Rightarrow> sha_state" where
  "sha_round (Sha a b c d e f g h) (k, w) =
     (let s1 = word_rotr 6 e XOR word_rotr 11 e XOR word_rotr 25 e;
          ch = (e AND f) XOR (NOT e AND g);
          t1 = h + s1 + ch + k + w;
          s0 = word_rotr 2 a XOR word_rotr 13 a XOR word_rotr 22 a;
          maj = (a AND b) XOR (a AND c) XOR (b AND c)
      in Sha (t1 + (s0 + maj)) a b c (d + t1) e f g)"

fun sha_add :: "sha_state \<Rightarrow> sha_state \<Rightarrow> sha_state" where
  "sha_add (Sha a b c d e f g h) (Sha a' b' c' d' e' f' g' h') =
     Sha (a + a') (b + b') (c + c') (d + d') (e + e') (f + f') (g + g') (h + h')"

definition sha_block :: "sha_state \<Rightarrow> bytes \<Rightarrow> sha_state" where
  "sha_block s bs =
     (let w = sha_schedule 48 (map be_word (chunks 4 bs))
      in sha_add s (foldl sha_round s (zip sha_k w)))"

fun sha_init :: "u32 list \<Rightarrow> sha_state" where
  "sha_init [a, b, c, d, e, f, g, h] = Sha a b c d e f g h"
| "sha_init _ = Sha 0 0 0 0 0 0 0 0"

fun sha_out :: "sha_state \<Rightarrow> u32 list" where
  "sha_out (Sha a b c d e f g h) = [a, b, c, d, e, f, g, h]"

definition sha256 :: "bytes \<Rightarrow> bytes" where
  "sha256 m = concat (map (\<lambda>w. be_bytes 4 (unat w))
     (sha_out (foldl sha_block (sha_init sha_h0) (chunks 64 (sha_pad m)))))"

section \<open>HMAC and hexadecimal output\<close>

definition hmac_key :: "bytes \<Rightarrow> bytes" where
  "hmac_key k = (let k' = (if 64 < length k then sha256 k else k)
                 in k' @ replicate (64 - length k') 0)"

definition hmac_sha256 :: "bytes \<Rightarrow> bytes \<Rightarrow> bytes" where
  "hmac_sha256 k m =
     sha256 (map (\<lambda>b. b XOR 0x5c) (hmac_key k) @ sha256 (map (\<lambda>b. b XOR 0x36) (hmac_key k) @ m))"

definition hex_char :: "nat \<Rightarrow> nat" where
  "hex_char d = (if d < 10 then 48 + d else 87 + d)"

definition hex_of :: "bytes \<Rightarrow> pystr" where
  "hex_of bs = concat (map (\<lambda>b. [hex_char (unat b div 16), hex_char (unat b mod 16)]) bs)"

text \<open>The character class \<open>[a-f0-9]\<close>.\<close>

definition is_hex_lower :: "nat \<Rightarrow> bool" where
  "is_hex_lower c \<longleftrightarrow> (48 \<le> c \<and> c \<le> 57) \<or> (97 \<le> c \<and> c \<le> 102)"

lemma length_be_bytes [simp]: "length (be_bytes k n) = k"
  by (simp add: be_bytes_def)

lemma length_sha256 [simp]: "length (sha256 m) = 32"
proof -
  have "length (concat (map (\<lambda>w. be_bytes 4 (unat w)) (sha_out s))) = 32" for s
    by (cases s) simp
  then show ?thesis by (simp add: sha256_def)
qed

lemma length_hmac_sha256 [simp]: "length (hmac_sha256 k m) = 32"
  by (simp add: hmac_sha256_def)

lemma length_hmac_key: "length (hmac_key k) = 64"
  by (simp add: hmac_key_def Let_def)

lemma length_hex_of [simp]: "length (hex_of bs) = 2 * length bs"
  by (induction bs) (simp_all add: hex_of_def)

lemma hex_char_lower: "d < 16 \<Longrightarrow> is_hex_lower (hex_char d)"
  by (auto simp: hex_char_def is_hex_lower_def)

lemma hex_of_lower: "list_all is_hex_lower (hex_of bs)"
proof (induction bs)
  case (Cons b bs)
  have "unat b div 16 < 16" using unat_byte [of b] by simp
  then show ?case using Cons by (simp add: hex_of_def hex_char_lower)
qed (simp add: hex_of_def)

lemma hex_char_inj: "hex_char d = hex_char e \<Longrightarrow> d < 16 \<Longrightarrow> e < 16 \<Longrightarrow> d = e"
  by (auto simp: hex_char_def split: if_splits)

text \<open>Printing a digest loses nothing.\<close>

lemma hex_of_inj: "hex_of bs = hex_of cs \<Longrightarrow> bs = cs"
proof (induction bs arbitrary: cs)
  case Nil
  then show ?case by (cases cs) (auto simp: hex_of_def)
next
  case (Cons b bs)
  then obtain c cs' where cs: "cs = c # cs'" by (cases cs) (auto simp: hex_of_def)
  have lt: "unat b div 16 < 16" "unat c div 16 < 16" using unat_byte [of b] unat_byte [of c] by simp_all
  from Cons.prems have "unat b div 16 = unat c div 16" "unat b mod 16 = unat c mod 16" "hex_of bs = hex_of cs'"
    by (auto simp: hex_of_def cs intro: hex_char_inj lt)
  then have "unat b = unat c" and "bs = cs'"
    using Cons.IH by (metis div_mult_mod_eq, blast)
  then show ?case by (simp add: cs word_unat_eq_iff)
qed

end
