(* ===== verification/Schema.thy ===== *)
theory Schema
  imports Hashing "HOL-Library.Monad_Syntax"
begin

text \<open>
  The event model, \<open>worker/src/schema.py\<close>: the pydantic classes as records, their field
  constraints and validators as one Boolean function (\<open>valid_event\<close>), validation of a JSON
  document, serialisation, \<open>with_retry\<close> and the schema-version gate.

  What the worker uses of pydantic is a parameter, the record \<open>pydantic\<close>: the JSON reader and
  writer on bytes, the lax conversion to \<open>int\<close>, and the standard library's
  \<open>datetime.fromisoformat\<close> as a predicate. \<open>json_laws\<close> states the documented behaviour
  that the round trip needs.
\<close>

section \<open>JSON values and the pydantic interface\<close>

datatype json = JNull | JBool bool | JInt int | JNum pystr | JStr pystr
  | JArr "json list" | JObj "(pystr \<times> json) list"

record pydantic =
  json_loads :: "bytes \<Rightarrow> json option"
  json_dumps :: "json \<Rightarrow> bytes"
  lax_int :: "json \<Rightarrow> int option"
  fromisoformat_ok :: "pystr \<Rightarrow> bool"

text \<open>The documents an event is written as: no number but integers, no lone surrogate.\<close>

fun json_plain :: "json \<Rightarrow> bool" where
  "json_plain (JStr s) = list_all is_scalar s"
| "json_plain (JArr js) = list_all json_plain js"
| "json_plain (JObj kvs) = list_all (\<lambda>(k, j). list_all is_scalar k \<and> json_plain j) kvs"
| "json_plain (JNum t) = False"
| "json_plain _ = True"

definition json_laws :: "'z pydantic_scheme \<Rightarrow> bool" where
  "json_laws P \<longleftrightarrow> (\<forall>j. json_plain j \<longrightarrow> json_loads P (json_dumps P j) = Some j) \<and> (\<forall>n. lax_int P (JInt n) = Some n)"

section \<open>The records\<close>

record source =
  src_provider :: pystr
  src_path :: pystr

record file_meta =
  file_name :: pystr
  sizeBytes :: int
  checksumSha256 :: pystr
  contentType :: "pystr option"

record destination =
  dst_provider :: pystr
  dst_bucket :: pystr
  dst_key :: pystr
  dst_region :: "pystr option"

record retry_info =
  attempt :: int
  maxAttempts :: int
  lastError :: "pystr option"

record transfer_event =
  schemaVersion :: pystr
  eventType :: pystr
  eventId :: pystr
  correlationId :: pystr
  idempotencyKey :: pystr
  occurredAt :: pystr
  ev_source :: source
  ev_file :: file_meta
  destinations :: "destination list"
  ev_retry :: "retry_info option"

definition SUPPORTED_SCHEMA_MAJOR :: int where
  "SUPPORTED_SCHEMA_MAJOR = 1"

section \<open>Validators\<close>

text \<open>\<open>$\<close> matches at the end of the text and before a line feed that ends it.\<close>

definition at_end :: "pystr \<Rightarrow> bool" where
  "at_end s \<longleftrightarrow> s = [] \<or> s = [10]"

text \<open>\<open>_VERSION_RE.match\<close>: the two groups.\<close>

definition version_groups :: "pystr \<Rightarrow> (pystr \<times> pystr) option" where
  "version_groups v =
     (let major = takeWhile is_digit v; r = dropWhile is_digit v
      in if major = [] then None
         else (case r of [] \<Rightarrow> None
           | c # s \<Rightarrow>
               if c = 46 \<and> takeWhile is_digit s \<noteq> [] \<and> at_end (dropWhile is_digit s)
               then Some (major, takeWhile is_digit s) else None))"

definition sha256_re :: "pystr \<Rightarrow> bool" where
  "sha256_re v \<longleftrightarrow> 64 \<le> length v \<and> list_all is_hex_lower (take 64 v) \<and> at_end (drop 64 v)"

definition idempotency_re :: "pystr \<Rightarrow> bool" where
  "idempotency_re v \<longleftrightarrow> starts_with (lit ''sha256:'') v \<and> sha256_re (drop 7 v)"

text \<open>\<open>uuid.UUID(v)\<close> of the standard library does not raise.\<close>

definition uuid_ok :: "pystr \<Rightarrow> bool" where
  "uuid_ok v =
     (let h = replace_str (lit ''uuid:'') [] (replace_str (lit ''urn:'') [] v);
          h = replace_str (lit ''-'') [] (strip_where (\<lambda>c. c = 123 \<or> c = 125) h)
      in length h = 32 \<and> (case py_int 16 h of Inl _ \<Rightarrow> False | Inr n \<Rightarrow> 0 \<le> n \<and> n < 2 ^ 128))"

definition occurred_at_ok :: "'z pydantic_scheme \<Rightarrow> pystr \<Rightarrow> bool" where
  "occurred_at_ok P v = fromisoformat_ok P (replace_str (lit ''Z'') (lit ''+00:00'') v)"

text \<open>pydantic refuses a \<open>str\<close> with a lone surrogate.\<close>

definition str_ok :: "pystr \<Rightarrow> bool" where
  "str_ok s = list_all is_scalar s"

definition opt_str_ok :: "pystr option \<Rightarrow> bool" where
  "opt_str_ok s = (case s of None \<Rightarrow> True | Some t \<Rightarrow> str_ok t)"

definition valid_source :: "source \<Rightarrow> bool" where
  "valid_source s \<longleftrightarrow> src_provider s = lit ''sftp'' \<and> str_ok (src_path s)"

definition valid_file :: "file_meta \<Rightarrow> bool" where
  "valid_file f \<longleftrightarrow> str_ok (file_name f) \<and> 0 \<le> sizeBytes f \<and> str_ok (checksumSha256 f)
     \<and> sha256_re (checksumSha256 f) \<and> opt_str_ok (contentType f)"

definition valid_destination :: "destination \<Rightarrow> bool" where
  "valid_destination d \<longleftrightarrow> List.member [lit ''aws-s3'', lit ''gcp-gcs''] (dst_provider d)
     \<and> str_ok (dst_bucket d) \<and> str_ok (dst_key d) \<and> opt_str_ok (dst_region d)"

definition valid_retry :: "retry_info \<Rightarrow> bool" where
  "valid_retry r \<longleftrightarrow> 1 \<le> attempt r \<and> 1 \<le> maxAttempts r \<and> opt_str_ok (lastError r)"

definition valid_event :: "'z pydantic_scheme \<Rightarrow> transfer_event \<Rightarrow> bool" where
  "valid_event P e \<longleftrightarrow>
     str_ok (schemaVersion e) \<and> version_groups (schemaVersion e) \<noteq> None
     \<and> eventType e = lit ''file.transfer.requested''
     \<and> str_ok (eventId e) \<and> uuid_ok (eventId e)
     \<and> str_ok (correlationId e) \<and> uuid_ok (correlationId e)
     \<and> str_ok (idempotencyKey e) \<and> idempotency_re (idempotencyKey e)
     \<and> str_ok (occurredAt e) \<and> occurred_at_ok P (occurredAt e)
     \<and> valid_source (ev_source e) \<and> valid_file (ev_file e)
     \<and> destinations e \<noteq> [] \<and> list_all valid_destination (destinations e)
     \<and> (case ev_retry e of None \<Rightarrow> True | Some r \<Rightarrow> valid_retry r)"

definition validation_error :: exn where
  "validation_error = mk_exn ''ValidationError'' [ValueError, Exception] []"

text \<open>The constructors \<open>TransferEvent(...)\<close> and \<open>RetryInfo(...)\<close> validate their arguments.\<close>

definition mk_transfer_event :: "'z pydantic_scheme \<Rightarrow> transfer_event \<Rightarrow> exn + transfer_event" where
  "mk_transfer_event P e = (if valid_event P e then Inr e else Inl validation_error)"

definition mk_retry_info :: "int \<Rightarrow> int \<Rightarrow> pystr option \<Rightarrow> exn + retry_info" where
  "mk_retry_info a m err =
     (let r = \<lparr>attempt = a, maxAttempts = m, lastError = err\<rparr>
      in if valid_retry r then Inr r else Inl validation_error)"

section \<open>Reading a JSON document\<close>

text \<open>The last of several equal keys counts; \<open>extra="forbid"\<close> refuses unknown keys.\<close>

definition obj_get :: "(pystr \<times> json) list \<Rightarrow> string \<Rightarrow> json option" where
  "obj_get kvs k = map_of (rev kvs) (lit k)"

definition keys_ok :: "(pystr \<times> json) list \<Rightarrow> string list \<Rightarrow> bool" where
  "keys_ok kvs allowed = list_all (\<lambda>(k, _). List.member (map lit allowed) k) kvs"

fun json_str :: "json \<Rightarrow> pystr option" where
  "json_str (JStr s) = Some s"
| "json_str _ = None"

fun json_arr :: "json \<Rightarrow> json list option" where
  "json_arr (JArr js) = Some js"
| "json_arr _ = None"

fun json_obj :: "json \<Rightarrow> (pystr \<times> json) list option" where
  "json_obj (JObj kvs) = Some kvs"
| "json_obj _ = None"

text \<open>A field \<open>T | None = None\<close> may be missing or null.\<close>

definition opt_field :: "(json \<Rightarrow> 'a option) \<Rightarrow> json option \<Rightarrow> 'a option option" where
  "opt_field f j = (case j of None \<Rightarrow> Some None | Some JNull \<Rightarrow> Some None | Some j' \<Rightarrow> map_option Some (f j'))"

definition guard_opt :: "bool \<Rightarrow> unit option" where
  "guard_opt b = (if b then Some () else None)"

fun map_opt :: "('a \<Rightarrow> 'b option) \<Rightarrow> 'a list \<Rightarrow> 'b list option" where
  "map_opt f [] = Some []"
| "map_opt f (x # xs) = do { y \<leftarrow> f x; ys \<leftarrow> map_opt f xs; Some (y # ys) }"

definition source_of_json :: "json \<Rightarrow> source option" where
  "source_of_json j = do {
     kvs \<leftarrow> json_obj j;
     guard_opt (keys_ok kvs [''provider'', ''path'']);
     p \<leftarrow> Option.bind (obj_get kvs ''provider'') json_str;
     q \<leftarrow> Option.bind (obj_get kvs ''path'') json_str;
     Some \<lparr>src_provider = p, src_path = q\<rparr> }"

definition file_of_json :: "'z pydantic_scheme \<Rightarrow> json \<Rightarrow> file_meta option" where
  "file_of_json P j = do {
     kvs \<leftarrow> json_obj j;
     guard_opt (keys_ok kvs [''name'', ''sizeBytes'', ''checksumSha256'', ''contentType'']);
     n \<leftarrow> Option.bind (obj_get kvs ''name'') json_str;
     s \<leftarrow> Option.bind (obj_get kvs ''sizeBytes'') (lax_int P);
     c \<leftarrow> Option.bind (obj_get kvs ''checksumSha256'') json_str;
     t \<leftarrow> opt_field json_str (obj_get kvs ''contentType'');
     Some \<lparr>file_name = n, sizeBytes = s, checksumSha256 = c, contentType = t\<rparr> }"

definition destination_of_json :: "json \<Rightarrow> destination option" where
  "destination_of_json j = do {
     kvs \<leftarrow> json_obj j;
     guard_opt (keys_ok kvs [''provider'', ''bucket'', ''key'', ''region'']);
     p \<leftarrow> Option.bind (obj_get kvs ''provider'') json_str;
     b \<leftarrow> Option.bind (obj_get kvs ''bucket'') json_str;
     k \<leftarrow> Option.bind (obj_get kvs ''key'') json_str;
     r \<leftarrow> opt_field json_str (obj_get kvs ''region'');
     Some \<lparr>dst_provider = p, dst_bucket = b, dst_key = k, dst_region = r\<rparr> }"

definition retry_of_json :: "'z pydantic_scheme \<Rightarrow> json \<Rightarrow> retry_info option" where
  "retry_of_json P j = do {
     kvs \<leftarrow> json_obj j;
     guard_opt (keys_ok kvs [''attempt'', ''maxAttempts'', ''lastError'']);
     a \<leftarrow> Option.bind (obj_get kvs ''attempt'') (lax_int P);
     m \<leftarrow> Option.bind (obj_get kvs ''maxAttempts'') (lax_int P);
     e \<leftarrow> opt_field json_str (obj_get kvs ''lastError'');
     Some \<lparr>attempt = a, maxAttempts = m, lastError = e\<rparr> }"

definition event_of_json :: "'z pydantic_scheme \<Rightarrow> json \<Rightarrow> transfer_event option" where
  "event_of_json P j = do {
     kvs \<leftarrow> json_obj j;
     guard_opt (keys_ok kvs [''schemaVersion'', ''eventType'', ''eventId'', ''correlationId'', ''idempotencyKey'',
       ''occurredAt'', ''source'', ''file'', ''destinations'', ''retry'']);
     v \<leftarrow> Option.bind (obj_get kvs ''schemaVersion'') json_str;
     t \<leftarrow> Option.bind (obj_get kvs ''eventType'') json_str;
     i \<leftarrow> Option.bind (obj_get kvs ''eventId'') json_str;
     c \<leftarrow> Option.bind (obj_get kvs ''correlationId'') json_str;
     k \<leftarrow> Option.bind (obj_get kvs ''idempotencyKey'') json_str;
     w \<leftarrow> Option.bind (obj_get kvs ''occurredAt'') json_str;
     s \<leftarrow> Option.bind (obj_get kvs ''source'') source_of_json;
     f \<leftarrow> Option.bind (obj_get kvs ''file'') (file_of_json P);
     ds \<leftarrow> Option.bind (obj_get kvs ''destinations'') json_arr;
     ds' \<leftarrow> map_opt destination_of_json ds;
     r \<leftarrow> opt_field (retry_of_json P) (obj_get kvs ''retry'');
     Some \<lparr>schemaVersion = v, eventType = t, eventId = i, correlationId = c, idempotencyKey = k,
       occurredAt = w, ev_source = s, ev_file = f, destinations = ds', ev_retry = r\<rparr> }"

definition from_json_bytes :: "'z pydantic_scheme \<Rightarrow> bytes \<Rightarrow> exn + transfer_event" where
  "from_json_bytes P bs =
     (case Option.bind (json_loads P bs) (event_of_json P) of
        None \<Rightarrow> Inl validation_error
      | Some e \<Rightarrow> mk_transfer_event P e)"

section \<open>Writing a JSON document\<close>

definition json_opt :: "('a \<Rightarrow> json) \<Rightarrow> 'a option \<Rightarrow> json" where
  "json_opt f x = (case x of None \<Rightarrow> JNull | Some y \<Rightarrow> f y)"

definition json_of_source :: "source \<Rightarrow> json" where
  "json_of_source s = JObj [(lit ''provider'', JStr (src_provider s)), (lit ''path'', JStr (src_path s))]"

definition json_of_file :: "file_meta \<Rightarrow> json" where
  "json_of_file f = JObj [(lit ''name'', JStr (file_name f)), (lit ''sizeBytes'', JInt (sizeBytes f)),
     (lit ''checksumSha256'', JStr (checksumSha256 f)), (lit ''contentType'', json_opt JStr (contentType f))]"

definition json_of_destination :: "destination \<Rightarrow> json" where
  "json_of_destination d = JObj [(lit ''provider'', JStr (dst_provider d)), (lit ''bucket'', JStr (dst_bucket d)),
     (lit ''key'', JStr (dst_key d)), (lit ''region'', json_opt JStr (dst_region d))]"

definition json_of_retry :: "retry_info \<Rightarrow> json" where
  "json_of_retry r = JObj [(lit ''attempt'', JInt (attempt r)), (lit ''maxAttempts'', JInt (maxAttempts r)),
     (lit ''lastError'', json_opt JStr (lastError r))]"

definition json_of_event :: "transfer_event \<Rightarrow> json" where
  "json_of_event e = JObj [
     (lit ''schemaVersion'', JStr (schemaVersion e)),
     (lit ''eventType'', JStr (eventType e)),
     (lit ''eventId'', JStr (eventId e)),
     (lit ''correlationId'', JStr (correlationId e)),
     (lit ''idempotencyKey'', JStr (idempotencyKey e)),
     (lit ''occurredAt'', JStr (occurredAt e)),
     (lit ''source'', json_of_source (ev_source e)),
     (lit ''file'', json_of_file (ev_file e)),
     (lit ''destinations'', JArr (map json_of_destination (destinations e))),
     (lit ''retry'', json_opt json_of_retry (ev_retry e))]"

definition to_json_bytes :: "'z pydantic_scheme \<Rightarrow> transfer_event \<Rightarrow> bytes" where
  "to_json_bytes P e = json_dumps P (json_of_event e)"

section \<open>The version gate and retry copies\<close>

text \<open>\<open>assert match is not None\<close> cannot fail on a validated event; \<open>int\<close> still may.\<close>

definition assertion_error :: exn where
  "assertion_error = mk_exn ''AssertionError'' [Exception] []"

definition schema_major :: "transfer_event \<Rightarrow> exn + int" where
  "schema_major e = (case version_groups (schemaVersion e) of
      None \<Rightarrow> Inl assertion_error
    | Some (a, _) \<Rightarrow> py_int 10 a)"

definition unsupported_version :: "transfer_event \<Rightarrow> exn" where
  "unsupported_version e = mk_exn ''UnsupportedSchemaVersionError''
     [UnsupportedSchemaVersionError, ValueError, Exception]
     (lit ''schemaVersion '' @ schemaVersion e @ lit '' is not supported (expected major version ''
      @ show_int SUPPORTED_SCHEMA_MAJOR @ lit '')'')"

definition assert_supported :: "transfer_event \<Rightarrow> exn + unit" where
  "assert_supported e = bind_sum (schema_major e) (\<lambda>m.
     if m \<noteq> SUPPORTED_SCHEMA_MAJOR then Inl (unsupported_version e) else Inr ())"

definition with_retry :: "transfer_event \<Rightarrow> int \<Rightarrow> int \<Rightarrow> pystr \<Rightarrow> exn + transfer_event" where
  "with_retry e a m err = bind_sum (mk_retry_info a m (Some err)) (\<lambda>r. Inr (e\<lparr>ev_retry := Some r\<rparr>))"

section \<open>Lemmas\<close>

text \<open>The regular expressions, as shapes of text.\<close>

lemma at_end_iff: "at_end s \<longleftrightarrow> s \<in> {[], [10]}"
  by (auto simp: at_end_def)

lemma not_digit_dot: "\<not> is_digit 46"
  by (simp add: is_digit_def digit_val_def nd_zeros_def)

lemma not_digit_lf: "\<not> is_digit 10"
  by (simp add: is_digit_def digit_val_def nd_zeros_def)

lemma version_groups_iff:
  "version_groups v = Some (a, b) \<longleftrightarrow>
     a \<noteq> [] \<and> b \<noteq> [] \<and> list_all is_digit a \<and> list_all is_digit b \<and> (\<exists>t. at_end t \<and> v = a @ [46] @ b @ t)"
    (is "?l \<longleftrightarrow> ?r")
proof
  assume l: ?l
  define s where "s = drop 1 (dropWhile is_digit v)"
  from l have a: "a = takeWhile is_digit v" "a \<noteq> []" and d: "dropWhile is_digit v = 46 # s"
    and b: "b = takeWhile is_digit s" "b \<noteq> []" and t: "at_end (dropWhile is_digit s)"
    by (auto simp: version_groups_def Let_def s_def split: if_splits list.splits)
  have "v = a @ 46 # s" using takeWhile_dropWhile_id [of is_digit v] a d by simp
  moreover have "s = b @ dropWhile is_digit s" using takeWhile_dropWhile_id [of is_digit s] b by simp
  ultimately have "v = a @ [46] @ b @ dropWhile is_digit s" by simp
  moreover have "list_all is_digit a" "list_all is_digit b"
    using a b by (auto simp: list_all_iff dest: set_takeWhileD)
  ultimately show ?r using a b t by blast
next
  assume ?r
  then obtain t where r: "a \<noteq> []" "b \<noteq> []" "list_all is_digit a" "list_all is_digit b" "at_end t"
    and v: "v = a @ 46 # b @ t" by auto
  have va: "takeWhile is_digit v = a" "dropWhile is_digit v = 46 # b @ t"
    using r(3) not_digit_dot
    by (auto simp: v list_all_iff takeWhile_append_stop dropWhile_append_stop)
  have "takeWhile is_digit (b @ t) = b" "dropWhile is_digit (b @ t) = t"
    using r(4,5) not_digit_lf by (auto simp: at_end_iff list_all_iff takeWhile_append dropWhile_append)
  then show ?l using va r by (simp add: version_groups_def Let_def)
qed

lemma sha256_re_iff:
  "sha256_re v \<longleftrightarrow> (\<exists>h t. v = h @ t \<and> length h = 64 \<and> list_all is_hex_lower h \<and> at_end t)"
proof
  assume "sha256_re v"
  then show "\<exists>h t. v = h @ t \<and> length h = 64 \<and> list_all is_hex_lower h \<and> at_end t"
    by (intro exI [of _ "take 64 v"] exI [of _ "drop 64 v"]) (simp add: sha256_re_def)
qed (auto simp: sha256_re_def)

lemma idempotency_re_iff: "idempotency_re v \<longleftrightarrow> (\<exists>w. v = lit ''sha256:'' @ w \<and> sha256_re w)"
  by (auto simp: idempotency_re_def starts_with_iff)

text \<open>The JSON round trip, class by class.\<close>

lemmas json_read_defs = obj_get_def keys_ok_def guard_opt_def opt_field_def json_opt_def

lemma opt_str_roundtrip: "opt_field json_str (Some (json_opt JStr x)) = Some x"
  by (cases x) (simp_all add: opt_field_def json_opt_def)

lemma source_roundtrip: "source_of_json (json_of_source s) = Some s"
  by (simp add: source_of_json_def json_of_source_def json_read_defs)

lemma destination_roundtrip: "destination_of_json (json_of_destination d) = Some d"
  using opt_str_roundtrip [of "dst_region d"]
  by (simp add: destination_of_json_def json_of_destination_def obj_get_def keys_ok_def guard_opt_def)

lemma file_roundtrip:
  assumes "json_laws P"
  shows "file_of_json P (json_of_file f) = Some f"
  using opt_str_roundtrip [of "contentType f"] assms
  by (simp add: file_of_json_def json_of_file_def obj_get_def keys_ok_def guard_opt_def json_laws_def)

lemma retry_roundtrip:
  assumes "json_laws P"
  shows "retry_of_json P (json_of_retry r) = Some r"
  using opt_str_roundtrip [of "lastError r"] assms
  by (simp add: retry_of_json_def json_of_retry_def obj_get_def keys_ok_def guard_opt_def json_laws_def)

lemma opt_retry_roundtrip:
  assumes "json_laws P"
  shows "opt_field (retry_of_json P) (Some (json_opt json_of_retry x)) = Some x"
proof (cases x)
  case (Some r)
  then show ?thesis using retry_roundtrip [OF assms, of r]
    by (simp add: opt_field_def json_opt_def json_of_retry_def)
qed (simp add: opt_field_def json_opt_def)

lemma map_opt_roundtrip: "(\<And>x. f (g x) = Some x) \<Longrightarrow> map_opt f (map g xs) = Some xs"
  by (induction xs) simp_all

lemma event_roundtrip:
  assumes "json_laws P"
  shows "event_of_json P (json_of_event e) = Some e"
  using opt_retry_roundtrip [OF assms, of "ev_retry e"] file_roundtrip [OF assms, of "ev_file e"]
    source_roundtrip [of "ev_source e"]
    map_opt_roundtrip [of destination_of_json json_of_destination "destinations e"]
  by (simp add: event_of_json_def json_of_event_def obj_get_def keys_ok_def guard_opt_def destination_roundtrip)

lemma from_json_bytes_valid: "from_json_bytes P bs = Inr e \<Longrightarrow> valid_event P e"
  by (auto simp: from_json_bytes_def mk_transfer_event_def split: option.splits if_splits)

text \<open>A validated event is written without loss.\<close>

lemma scalar_lit [simp]: "list_all is_scalar (lit s)"
proof -
  have "is_scalar (of_char c)" for c :: char
    using nat_of_char_less_256 [of c] unfolding is_scalar_def is_surrogate_def by arith
  then show ?thesis by (simp add: lit_def list_all_iff)
qed

lemma plain_opt_str: "opt_str_ok x \<Longrightarrow> json_plain (json_opt JStr x)"
  by (cases x) (simp_all add: opt_str_ok_def json_opt_def str_ok_def)

lemma plain_event:
  assumes "valid_event P e"
  shows "json_plain (json_of_event e)"
proof -
  note v = assms [unfolded valid_event_def str_ok_def]
  have "json_plain (json_of_source (ev_source e))"
    using v by (simp add: valid_source_def json_of_source_def str_ok_def)
  moreover have "json_plain (json_of_file (ev_file e))"
    using v by (simp add: valid_file_def json_of_file_def str_ok_def plain_opt_str)
  moreover have "json_plain (json_of_destination d)" if "valid_destination d" for d
    using that by (auto simp: valid_destination_def json_of_destination_def str_ok_def plain_opt_str)
  then have "list_all json_plain (map json_of_destination (destinations e))"
    using v by (auto simp: list_all_iff)
  moreover have "json_plain (json_opt json_of_retry (ev_retry e))"
    using v by (auto simp: json_opt_def json_of_retry_def valid_retry_def opt_str_ok_def str_ok_def split: option.splits)
  ultimately show ?thesis using v by (simp add: json_of_event_def)
qed

lemma from_to_json_bytes:
  assumes "json_laws P" and "valid_event P e"
  shows "from_json_bytes P (to_json_bytes P e) = Inr e"
proof -
  have "json_loads P (to_json_bytes P e) = Some (json_of_event e)"
    using assms plain_event [OF assms(2)] by (simp add: json_laws_def to_json_bytes_def)
  then show ?thesis using event_roundtrip [OF assms(1), of e] assms(2)
    by (simp add: from_json_bytes_def mk_transfer_event_def)
qed

end
