(* ===== verification/Floats.thy ===== *)
theory Floats
  imports Text Complex_Main "HOL-Library.Log_Nat"
begin

text \<open>
  Python floats as IEEE 754 double-precision values: a finite float is the rational it
  denotes (the sign of zero is not kept), and every operation rounds its exact result to the
  nearest double, ties to even (\<open>fl\<close>). \<open>py_float\<close> is \<open>float(str)\<close> and
  \<open>float_to_int\<close> is \<open>int(float)\<close>. The lemma \<open>fl_exact\<close> says that rounding does
  nothing to a value that is a double already.
\<close>

datatype pyfloat = Finite rat | PosInf | NegInf | NaN

section \<open>Rounding to double precision\<close>

text \<open>The exponent of the leading bit of a positive rational.\<close>

definition ilog2 :: "rat \<Rightarrow> int" where
  "ilog2 x = (let (p, q) = quotient_of x; k = bitlen p - bitlen q
              in if 2 powi k \<le> x then k else k - 1)"

definition round_even :: "rat \<Rightarrow> int" where
  "round_even x = (let n = \<lfloor>x\<rfloor>; r = x - of_int n
     in if r < 1 / 2 then n else if 1 / 2 < r then n + 1 else if even n then n else n + 1)"

definition ulp_exp :: "rat \<Rightarrow> int" where
  "ulp_exp x = max (ilog2 \<bar>x\<bar> - 52) (- 1074)"

definition fl :: "rat \<Rightarrow> pyfloat" where
  "fl x = (if x = 0 then Finite 0
     else let u = 2 powi (ulp_exp x); r = of_int (round_even (x / u)) * u
          in if 2 ^ 1024 \<le> r then PosInf else if r \<le> - (2 ^ 1024) then NegInf else Finite r)"

section \<open>Operations\<close>

fun neg_float :: "pyfloat \<Rightarrow> pyfloat" where
  "neg_float (Finite r) = Finite (- r)"
| "neg_float PosInf = NegInf"
| "neg_float NegInf = PosInf"
| "neg_float NaN = NaN"

fun signed_inf :: "rat \<Rightarrow> pyfloat" where
  "signed_inf r = (if r > 0 then PosInf else if r < 0 then NegInf else NaN)"

fun fmul :: "pyfloat \<Rightarrow> pyfloat \<Rightarrow> pyfloat" where
  "fmul (Finite a) (Finite b) = fl (a * b)"
| "fmul NaN y = NaN"
| "fmul x NaN = NaN"
| "fmul PosInf (Finite b) = signed_inf b"
| "fmul NegInf (Finite b) = signed_inf (- b)"
| "fmul (Finite a) PosInf = signed_inf a"
| "fmul (Finite a) NegInf = signed_inf (- a)"
| "fmul PosInf PosInf = PosInf"
| "fmul NegInf NegInf = PosInf"
| "fmul PosInf NegInf = NegInf"
| "fmul NegInf PosInf = NegInf"

text \<open>\<open>int(x)\<close> truncates towards zero.\<close>

fun float_to_int :: "pyfloat \<Rightarrow> exn + int" where
  "float_to_int (Finite r) = Inr (if 0 \<le> r then \<lfloor>r\<rfloor> else \<lceil>r\<rceil>)"
| "float_to_int NaN = Inl (value_error ''cannot convert float NaN to integer'')"
| "float_to_int _ = Inl (mk_exn ''OverflowError'' [Exception] (lit ''cannot convert float infinity to integer''))"

text \<open>A run of digits that may be empty, as on either side of the decimal point.\<close>

definition opt_digits :: "pystr \<Rightarrow> nat list option" where
  "opt_digits s = (if s = [] then Some [] else scan_digits 10 False s)"

definition float_decimal :: "pystr \<Rightarrow> (nat list \<times> nat list) option" where
  "float_decimal s =
     (let ip = takeWhile (\<lambda>c. c \<noteq> 46) s; r = dropWhile (\<lambda>c. c \<noteq> 46) s; fp = drop 1 r
      in if ip = [] \<and> fp = [] then None
         else case (opt_digits ip, opt_digits fp) of
             (Some a, Some b) \<Rightarrow> Some (a, b)
           | _ \<Rightarrow> None)"

definition float_exponent :: "pystr \<Rightarrow> int option" where
  "float_exponent s = (if s = [] then Some 0
     else let (neg, t) = split_sign (drop 1 s)
          in map_option (\<lambda>ds. if neg then - int (digits_value 10 ds) else int (digits_value 10 ds))
               (scan_digits 10 False t))"

text \<open>\<open>float(s)\<close>: the decimal is read exactly and rounded once.\<close>

definition py_float :: "pystr \<Rightarrow> exn + pyfloat" where
  "py_float s =
     (let (neg, t) = split_sign (strip_where is_space s);
          is_e = (\<lambda>c. c = 101 \<or> c = 69);
          sgn = (if neg then neg_float else id);
          low = lower_ascii t
      in if low = lit ''inf'' \<or> low = lit ''infinity'' then Inr (sgn PosInf)
         else if low = lit ''nan'' then Inr NaN
         else case (float_decimal (takeWhile (Not \<circ> is_e) t), float_exponent (dropWhile (Not \<circ> is_e) t)) of
             (Some (a, b), Some e) \<Rightarrow>
               Inr (sgn (fl (of_nat (digits_value 10 (a @ b)) * 10 powi (e - int (length b)))))
           | _ \<Rightarrow> Inl (value_error ''could not convert string to float''))"

section \<open>Rounding is the identity on doubles\<close>

lemma round_even_int [simp]: "round_even (of_int n) = n"
  by (simp add: round_even_def)

lemma bitlen_powr_bounds:
  assumes "0 < p"
  shows "(2 :: rat) powi (bitlen p - 1) \<le> of_int p" and "of_int p < (2 :: rat) powi bitlen p"
proof -
  from assms have b: "2 ^ nat (bitlen p - 1) \<le> p \<and> p < 2 ^ nat (bitlen p)" by (rule bitlen_bounds)
  have pos: "0 < bitlen p" using assms by (simp add: bitlen_nonneg bitlen_eq_zero_iff order_less_le)
  have "(2 :: rat) powi (bitlen p - 1) = of_int (2 ^ nat (bitlen p - 1))"
    and "(2 :: rat) powi bitlen p = of_int (2 ^ nat (bitlen p))"
    using pos by (simp_all add: power_int_def)
  with b show "(2 :: rat) powi (bitlen p - 1) \<le> of_int p" and "of_int p < (2 :: rat) powi bitlen p"
    by (simp_all only: of_int_le_iff of_int_less_iff)
qed

lemma ilog2_le:
  assumes "0 < x"
  shows "2 powi (ilog2 x) \<le> x"
proof -
  obtain p q where pq: "quotient_of x = (p, q)" by fastforce
  then have q: "0 < q" and x: "x = of_int p / of_int q"
    by (rule quotient_of_denom_pos, rule quotient_of_div)
  with assms have p: "0 < p" by (simp add: zero_less_divide_iff)
  have "(2 :: rat) powi (bitlen p - bitlen q - 1) = 2 powi (bitlen p - 1) / 2 powi bitlen q"
    by (simp add: power_int_diff)
  also have "\<dots> \<le> of_int p / of_int q"
    using bitlen_powr_bounds [OF p] bitlen_powr_bounds [OF q] p q
    by (intro frac_le) (auto intro: order_less_imp_le)
  finally have "2 powi (bitlen p - bitlen q - 1) \<le> x" by (simp add: x)
  then show ?thesis by (simp add: ilog2_def pq Let_def)
qed

lemma fl_exact:
  assumes x: "x = of_int m * 2 powi k" and m: "\<bar>m\<bar> < 2 ^ 53" and k: "- 1074 \<le> k" and top: "\<bar>x\<bar> < 2 ^ 1024"
  shows "fl x = Finite x"
proof (cases "x = 0")
  case True
  then show ?thesis by (simp add: fl_def)
next
  case False
  have "(2 :: rat) powi ilog2 \<bar>x\<bar> \<le> \<bar>x\<bar>" using False by (intro ilog2_le) simp
  also have "\<bar>x\<bar> = of_int \<bar>m\<bar> * 2 powi k" by (simp add: x abs_mult)
  also have "\<dots> < 2 ^ 53 * 2 powi k"
  proof (rule mult_strict_right_mono)
    show "of_int \<bar>m\<bar> < (2 :: rat) ^ 53" using m by (simp only: of_int_less_numeral_power_cancel_iff)
  qed simp
  also have "\<dots> = 2 powi (k + 53)" by (simp add: power_int_add)
  finally have "(2 :: rat) powi ilog2 \<bar>x\<bar> < 2 powi (k + 53)" .
  then have "ilog2 \<bar>x\<bar> < k + 53"
    using power_int_increasing [of "k + 53" "ilog2 \<bar>x\<bar>" "2 :: rat"] by linarith
  then have u: "ulp_exp x \<le> k" using k by (simp add: ulp_exp_def)
  define d where "d = nat (k - ulp_exp x)"
  have "x / 2 powi ulp_exp x = of_int m * 2 powi (k - ulp_exp x)"
    by (simp add: x power_int_diff)
  also have "\<dots> = of_int (m * 2 ^ d)" using u by (simp add: d_def power_int_def)
  finally have q: "x / 2 powi ulp_exp x = of_int (m * 2 ^ d)" .
  have "of_int (round_even (x / 2 powi ulp_exp x)) * 2 powi ulp_exp x = x / 2 powi ulp_exp x * 2 powi ulp_exp x"
    by (simp only: q round_even_int)
  then have "of_int (round_even (x / 2 powi ulp_exp x)) * 2 powi ulp_exp x = x" by simp
  then show ?thesis using False top by (simp add: fl_def Let_def abs_less_iff)
qed

lemma fl_nat:
  assumes "n < 2 ^ 53"
  shows "fl (of_nat n) = Finite (of_nat n)"
proof (rule fl_exact [of _ "int n" 0])
  have "(of_nat n :: rat) < 2 ^ 53" using assms by (simp only: of_nat_less_numeral_power_cancel_iff)
  also have "(2 :: rat) ^ 53 \<le> 2 ^ 1024" by (rule power_increasing) simp_all
  finally show "\<bar>of_nat n :: rat\<bar> < 2 ^ 1024" by simp
qed (use assms in auto)

end
