(* ===== verification/Config.thy ===== *)
theory Config
  imports Floats
begin

text \<open>
  Runtime configuration, \<open>worker/src/config.py\<close>: the frozen dataclass \<open>Settings\<close>,
  its defaults, \<open>Settings.from_env\<close> over the process environment (a partial map from names
  to values) and the AMQP URL. Reading a number raises \<open>ValueError\<close> on malformed text.
\<close>

type_synonym environment = "pystr \<Rightarrow> pystr option"

definition cfg_str :: "environment \<Rightarrow> string \<Rightarrow> pystr \<Rightarrow> pystr" where
  "cfg_str env name def = (case env (lit name) of None \<Rightarrow> def | Some v \<Rightarrow> v)"

definition cfg_opt_str :: "environment \<Rightarrow> string \<Rightarrow> pystr option" where
  "cfg_opt_str env name = (case env (lit name) of
      None \<Rightarrow> None
    | Some v \<Rightarrow> if v = [] then None else Some v)"

definition cfg_int :: "environment \<Rightarrow> string \<Rightarrow> int \<Rightarrow> exn + int" where
  "cfg_int env name def = py_int 10 (case env (lit name) of None \<Rightarrow> show_int def | Some v \<Rightarrow> v)"

text \<open>\<open>float(str(d))\<close> is \<open>d\<close> for every float, so an unset variable gives the default.\<close>

definition cfg_float :: "environment \<Rightarrow> string \<Rightarrow> pyfloat \<Rightarrow> exn + pyfloat" where
  "cfg_float env name def = (case env (lit name) of None \<Rightarrow> Inr def | Some v \<Rightarrow> py_float v)"

record settings =
  watch_dir :: pystr
  stable_check_interval_s :: pyfloat
  rabbitmq_host :: pystr
  rabbitmq_port :: int
  rabbitmq_user :: pystr
  rabbitmq_pass :: pystr
  rabbitmq_vhost :: pystr
  queue_name :: pystr
  retry_queue_name :: pystr
  dlq_name :: pystr
  s3_endpoint_url :: "pystr option"
  s3_bucket :: pystr
  s3_region :: pystr
  gcs_endpoint_url :: "pystr option"
  gcs_bucket :: pystr
  gcp_project :: pystr
  upload_max_concurrency :: int
  retry_max_attempts :: int
  retry_backoff_base :: pyfloat
  upload_timeout_s :: pyfloat
  max_csv_file_size_bytes :: int
  idempotency_db_path :: pystr
  log_level :: pystr
  service_name :: pystr
  health_port :: int
  correlation_secret :: pystr

definition default_settings :: settings where
  "default_settings = \<lparr>
    watch_dir = lit ''/watch'',
    stable_check_interval_s = Finite 1,
    rabbitmq_host = lit ''localhost'',
    rabbitmq_port = 5672,
    rabbitmq_user = lit ''guest'',
    rabbitmq_pass = lit ''guest'',
    rabbitmq_vhost = lit ''/'',
    queue_name = lit ''orders.inbound'',
    retry_queue_name = lit ''orders.inbound.retry'',
    dlq_name = lit ''orders.inbound.dlq'',
    s3_endpoint_url = None,
    s3_bucket = lit ''wms-orders-processed'',
    s3_region = lit ''us-east-1'',
    gcs_endpoint_url = None,
    gcs_bucket = lit ''wms-orders-processed'',
    gcp_project = lit ''demo-project'',
    upload_max_concurrency = 2,
    retry_max_attempts = 5,
    retry_backoff_base = Finite 2,
    upload_timeout_s = Finite 30,
    max_csv_file_size_bytes = 10000000,
    idempotency_db_path = lit ''/data/idempotency.db'',
    log_level = lit ''INFO'',
    service_name = lit ''sftp-event-worker'',
    health_port = 8080,
    correlation_secret = lit ''dev-secret-change-me''\<rparr>"

definition from_env :: "environment \<Rightarrow> exn + settings" where
  "from_env env = (let d = default_settings in
     bind_sum (cfg_float env ''STABLE_CHECK_INTERVAL_S'' (stable_check_interval_s d)) (\<lambda>interval.
     bind_sum (cfg_int env ''RABBITMQ_PORT'' (rabbitmq_port d)) (\<lambda>port.
     bind_sum (cfg_int env ''UPLOAD_MAX_CONCURRENCY'' (upload_max_concurrency d)) (\<lambda>conc.
     bind_sum (cfg_int env ''RETRY_MAX_ATTEMPTS'' (retry_max_attempts d)) (\<lambda>attempts.
     bind_sum (cfg_float env ''RETRY_BACKOFF_BASE'' (retry_backoff_base d)) (\<lambda>base.
     bind_sum (cfg_float env ''UPLOAD_TIMEOUT_S'' (upload_timeout_s d)) (\<lambda>timeout.
     bind_sum (cfg_int env ''MAX_CSV_FILE_SIZE_BYTES'' (max_csv_file_size_bytes d)) (\<lambda>maxsize.
     bind_sum (cfg_int env ''HEALTH_PORT'' (health_port d)) (\<lambda>hport.
     Inr \<lparr>
       watch_dir = cfg_str env ''WATCH_DIR'' (watch_dir d),
       stable_check_interval_s = interval,
       rabbitmq_host = cfg_str env ''RABBITMQ_HOST'' (rabbitmq_host d),
       rabbitmq_port = port,
       rabbitmq_user = cfg_str env ''RABBITMQ_USER'' (rabbitmq_user d),
       rabbitmq_pass = cfg_str env ''RABBITMQ_PASS'' (rabbitmq_pass d),
       rabbitmq_vhost = cfg_str env ''RABBITMQ_VHOST'' (rabbitmq_vhost d),
       queue_name = cfg_str env ''QUEUE_NAME'' (queue_name d),
       retry_queue_name = cfg_str env ''RETRY_QUEUE_NAME'' (retry_queue_name d),
       dlq_name = cfg_str env ''DLQ_NAME'' (dlq_name d),
       s3_endpoint_url = cfg_opt_str env ''S3_ENDPOINT_URL'',
       s3_bucket = cfg_str env ''S3_BUCKET'' (s3_bucket d),
       s3_region = cfg_str env ''S3_REGION'' (s3_region d),
       gcs_endpoint_url = cfg_opt_str env ''GCS_ENDPOINT_URL'',
       gcs_bucket = cfg_str env ''GCS_BUCKET'' (gcs_bucket d),
       gcp_project = cfg_str env ''GOOGLE_CLOUD_PROJECT'' (gcp_project d),
       upload_max_concurrency = conc,
       retry_max_attempts = attempts,
       retry_backoff_base = base,
       upload_timeout_s = timeout,
       max_csv_file_size_bytes = maxsize,
       idempotency_db_path = cfg_str env ''IDEMPOTENCY_DB_PATH'' (idempotency_db_path d),
       log_level = cfg_str env ''LOG_LEVEL'' (log_level d),
       service_name = cfg_str env ''SERVICE_NAME'' (service_name d),
       health_port = hport,
       correlation_secret = cfg_str env ''CORRELATION_SECRET'' (correlation_secret d)\<rparr>)))))))))"

section \<open>The AMQP URL\<close>

definition hex_upper :: "nat \<Rightarrow> nat" where
  "hex_upper d = (if d < 10 then 48 + d else 55 + d)"

definition is_unreserved :: "nat \<Rightarrow> bool" where
  "is_unreserved c \<longleftrightarrow> (48 \<le> c \<and> c \<le> 57) \<or> (65 \<le> c \<and> c \<le> 90) \<or> (97 \<le> c \<and> c \<le> 122)
     \<or> List.member (lit ''_.-~'') c"

definition quote_byte :: "8 word \<Rightarrow> pystr" where
  "quote_byte b = (if is_unreserved (unat b) then [unat b]
     else [37, hex_upper (unat b div 16), hex_upper (unat b mod 16)])"

text \<open>\<open>urllib.parse.quote(s, safe="")\<close>\<close>

definition url_quote :: "pystr \<Rightarrow> exn + pystr" where
  "url_quote s = bind_sum (utf8_encode s) (\<lambda>bs. Inr (concat (map quote_byte bs)))"

definition rabbitmq_url :: "settings \<Rightarrow> exn + pystr" where
  "rabbitmq_url S = bind_sum (url_quote (rabbitmq_vhost S)) (\<lambda>vhost.
     Inr (lit ''amqp://'' @ rabbitmq_user S @ lit '':'' @ rabbitmq_pass S @ lit ''@'' @ rabbitmq_host S
          @ lit '':'' @ show_int (rabbitmq_port S) @ lit ''/'' @ vhost))"

end
