(* ===== verification/World.thy ===== *)
theory World
  imports Schema Config
begin

text \<open>
  The state the worker acts on and the outside world it talks to.

  \<^item> \<open>action\<close>: one call that leaves the process (a broker command, a file-system query, an
    upload, an SQL statement), with its result where it can fail.
  \<^item> \<open>world\<close>: the chronological list of those calls, the rows of the SQLite table, and the
    counters.
  \<^item> \<open>environ\<close>: everything outside \<open>src/\<close>. Each answer of the broker, the file system,
    the clouds and the clock is a function of the whole history so far, so a theorem for every
    \<open>environ\<close> covers every sequence of failures, restarts and concurrent changes of files.
\<close>

section \<open>Messages and outside calls\<close>

text \<open>\<open>pika.BasicProperties\<close>, the fields the worker sets.\<close>

record properties =
  content_type :: "pystr option"
  persistent :: bool
  message_id :: "pystr option"
  prop_correlation_id :: "pystr option"
  expiration :: "pystr option"
  headers :: "(pystr \<times> pystr) list option"

record publication =
  pub_exchange :: pystr
  routing_key :: pystr
  pub_body :: bytes
  pub_props :: properties
  mandatory :: bool

record queue_decl =
  decl_queue :: pystr
  durable :: bool
  arguments :: "(pystr \<times> pystr) list"

text \<open>\<open>pika.ConnectionParameters\<close>, as \<open>connect\<close> fills them in.\<close>

record connection_parameters =
  cp_host :: pystr
  cp_port :: int
  cp_virtual_host :: pystr
  cp_user :: pystr
  cp_password :: pystr
  cp_heartbeat :: nat
  cp_blocked_timeout :: nat

text \<open>One call of a storage SDK: the client's parameters, then bucket, key and local path.\<close>

datatype upload_call =
    S3Upload "pystr option" pystr pystr pystr pystr
  | GcsUpload pystr "pystr option" pystr pystr pystr

text \<open>
  How the wait for one upload ends: the SDK call returned or raised (\<open>UploadEnd\<close>), or its deadline passed, and then
  the call goes on in its thread (\<open>UploadTimeout\<close>) until \<open>asyncio.run\<close> joins it (\<open>JoinThreads\<close>).
\<close>

datatype upload_outcome = UploadReturned | UploadRaised exn | DeadlineExceeded

datatype sql_stmt = PragmaWal | CreateTable | SelectKey pystr | InsertKey pystr pystr

text \<open>Connections and channels are numbered; broker commands name their channel.\<close>

datatype action =
    Connect connection_parameters | ConnectFailed exn
  | OpenChannel | OpenChannelFailed exn
  | Declare nat queue_decl | DeclareFailed nat queue_decl exn
  | ConfirmDelivery nat | ConfirmDeliveryFailed nat exn
  | Qos nat int | QosFailed nat exn
  | Published nat publication | PublishFailed nat publication exn
  | Acked nat nat | AckFailed nat nat exn
  | CancelConsumer nat | CancelFailed nat exn
  | ProcessData nat | ProcessDataFailed nat exn
  | CloseConnection nat | CloseConnectionFailed nat exn
  | IsFile pystr | GetSize pystr | ReadFile pystr | ReadChunks pystr | GetCwd
  | Urandom | ReadClock
  | ObserverStart pystr | ObserverStartFailed pystr exn | ObserverStop | ObserverJoin
  | UploadStart upload_call | UploadEnd upload_call upload_outcome | UploadTimeout upload_call
  | JoinThreads "upload_call list" bool
  | MakeDirs pystr | OpenDb pystr | Sql sql_stmt | SqlFailed sql_stmt exn | CloseDb

section \<open>The outside world\<close>

text \<open>UTC date and time of day, as \<open>datetime.now(UTC)\<close> has them.\<close>

record timestamp =
  ts_year :: nat
  ts_month :: nat
  ts_day :: nat
  ts_hour :: nat
  ts_minute :: nat
  ts_second :: nat

record environ = pydantic +
  connect_reply :: "action list \<Rightarrow> exn option"
  channel_reply :: "action list \<Rightarrow> exn option"
  declare_reply :: "action list \<Rightarrow> nat \<Rightarrow> queue_decl \<Rightarrow> exn option"
  confirm_reply :: "action list \<Rightarrow> nat \<Rightarrow> exn option"
  qos_reply :: "action list \<Rightarrow> nat \<Rightarrow> int \<Rightarrow> exn option"
  publish_reply :: "action list \<Rightarrow> nat \<Rightarrow> publication \<Rightarrow> exn option"
  ack_reply :: "action list \<Rightarrow> nat \<Rightarrow> nat \<Rightarrow> exn option"
  cancel_reply :: "action list \<Rightarrow> nat \<Rightarrow> exn option"
  process_reply :: "action list \<Rightarrow> nat \<Rightarrow> exn option"
  close_reply :: "action list \<Rightarrow> nat \<Rightarrow> exn option"
  isfile_reply :: "action list \<Rightarrow> pystr \<Rightarrow> bool"
  getsize_reply :: "action list \<Rightarrow> pystr \<Rightarrow> exn + nat"
  read_reply :: "action list \<Rightarrow> pystr \<Rightarrow> exn + bytes"
  upload_reply :: "action list \<Rightarrow> upload_call \<Rightarrow> upload_outcome"
  upload_next :: "action list \<Rightarrow> nat"
  join_reply :: "action list \<Rightarrow> upload_call list \<Rightarrow> bool"
  makedirs_reply :: "action list \<Rightarrow> pystr \<Rightarrow> exn option"
  open_db_reply :: "action list \<Rightarrow> pystr \<Rightarrow> exn option"
  sql_reply :: "action list \<Rightarrow> sql_stmt \<Rightarrow> exn option"
  sql_now :: "action list \<Rightarrow> pystr"
  chunks_reply :: "action list \<Rightarrow> pystr \<Rightarrow> exn + bytes list"
  cwd_reply :: "action list \<Rightarrow> exn + pystr"
  urandom_reply :: "action list \<Rightarrow> bytes"
  clock_reply :: "action list \<Rightarrow> timestamp"
  observer_reply :: "action list \<Rightarrow> pystr \<Rightarrow> exn option"
  c_pow :: "pyfloat \<Rightarrow> int \<Rightarrow> exn + pyfloat"

section \<open>The worker's state\<close>

text \<open>One row of \<open>processed_events\<close>.\<close>

record db_row =
  row_key :: pystr
  row_correlation :: pystr
  row_processed_at :: pystr

text \<open>
  The counters of \<open>worker/src/metrics.py\<close>: how often each counter, with its labels, was
  incremented, and how many durations each histogram label observed.
\<close>

record registry =
  EVENTS_PUBLISHED_TOTAL :: nat
  EVENTS_CONSUMED_TOTAL :: "pystr \<Rightarrow> nat"
  UPLOAD_DURATION_SECONDS :: "pystr \<Rightarrow> nat"
  UPLOADS_TOTAL :: "pystr \<Rightarrow> pystr \<Rightarrow> nat"
  DLQ_MESSAGES_TOTAL :: nat
  IDEMPOTENCY_HITS_TOTAL :: nat
  CSV_SECURITY_REJECTIONS_TOTAL :: "pystr \<Rightarrow> nat"

definition new_registry :: registry where
  "new_registry = \<lparr>EVENTS_PUBLISHED_TOTAL = 0, EVENTS_CONSUMED_TOTAL = (\<lambda>_. 0),
     UPLOAD_DURATION_SECONDS = (\<lambda>_. 0), UPLOADS_TOTAL = (\<lambda>_ _. 0), DLQ_MESSAGES_TOTAL = 0,
     IDEMPOTENCY_HITS_TOTAL = 0, CSV_SECURITY_REJECTIONS_TOTAL = (\<lambda>_. 0)\<rparr>"

text \<open>\<open>readiness\<close> is the dictionary of \<open>ReadinessState\<close>, in insertion order.\<close>

record world =
  history :: "action list"
  table :: "db_row list"
  counters :: registry
  readiness :: "(pystr \<times> bool) list"

definition add_action :: "action \<Rightarrow> world \<Rightarrow> world" where
  "add_action a w = w\<lparr>history := history w @ [a]\<rparr>"

text \<open>A call that either succeeds (and is recorded) or raises (and is recorded as failed).\<close>

definition call :: "(action list \<Rightarrow> exn option) \<Rightarrow> action \<Rightarrow> (exn \<Rightarrow> action) \<Rightarrow> (world, unit) io" where
  "call reply ok bad w = (case reply (history w) of
      None \<Rightarrow> (Return (), add_action ok w)
    | Some e \<Rightarrow> (Raise e, add_action (bad e) w))"

text \<open>A query whose answer may be an exception.\<close>

definition ask :: "(action list \<Rightarrow> exn + 'a) \<Rightarrow> action \<Rightarrow> (world, 'a) io" where
  "ask reply a w = (case reply (history w) of
      Inl e \<Rightarrow> (Raise e, add_action a w)
    | Inr x \<Rightarrow> (Return x, add_action a w))"

section \<open>Counter increments\<close>

definition inc_published :: "(world, unit) io" where
  "inc_published = modify_io (\<lambda>w. w\<lparr>counters := (counters w)
     \<lparr>EVENTS_PUBLISHED_TOTAL := EVENTS_PUBLISHED_TOTAL (counters w) + 1\<rparr>\<rparr>)"

definition inc_consumed :: "string \<Rightarrow> (world, unit) io" where
  "inc_consumed res = modify_io (\<lambda>w. w\<lparr>counters := (counters w)
     \<lparr>EVENTS_CONSUMED_TOTAL := (EVENTS_CONSUMED_TOTAL (counters w))
        (lit res := EVENTS_CONSUMED_TOTAL (counters w) (lit res) + 1)\<rparr>\<rparr>)"

definition observe_duration :: "pystr \<Rightarrow> (world, unit) io" where
  "observe_duration prov = modify_io (\<lambda>w. w\<lparr>counters := (counters w)
     \<lparr>UPLOAD_DURATION_SECONDS := (UPLOAD_DURATION_SECONDS (counters w))
        (prov := UPLOAD_DURATION_SECONDS (counters w) prov + 1)\<rparr>\<rparr>)"

definition inc_uploads :: "pystr \<Rightarrow> string \<Rightarrow> (world, unit) io" where
  "inc_uploads prov res = modify_io (\<lambda>w. w\<lparr>counters := (counters w)
     \<lparr>UPLOADS_TOTAL := (UPLOADS_TOTAL (counters w))
        (prov := (UPLOADS_TOTAL (counters w) prov)
           (lit res := UPLOADS_TOTAL (counters w) prov (lit res) + 1))\<rparr>\<rparr>)"

definition inc_dlq :: "(world, unit) io" where
  "inc_dlq = modify_io (\<lambda>w. w\<lparr>counters := (counters w)
     \<lparr>DLQ_MESSAGES_TOTAL := DLQ_MESSAGES_TOTAL (counters w) + 1\<rparr>\<rparr>)"

definition inc_idempotency_hits :: "(world, unit) io" where
  "inc_idempotency_hits = modify_io (\<lambda>w. w\<lparr>counters := (counters w)
     \<lparr>IDEMPOTENCY_HITS_TOTAL := IDEMPOTENCY_HITS_TOTAL (counters w) + 1\<rparr>\<rparr>)"

definition inc_csv_rejections :: "pystr \<Rightarrow> (world, unit) io" where
  "inc_csv_rejections issue_type = modify_io (\<lambda>w. w\<lparr>counters := (counters w)
     \<lparr>CSV_SECURITY_REJECTIONS_TOTAL := (CSV_SECURITY_REJECTIONS_TOTAL (counters w))
        (issue_type := CSV_SECURITY_REJECTIONS_TOTAL (counters w) issue_type + 1)\<rparr>\<rparr>)"

lemmas inc_defs = inc_published_def inc_consumed_def observe_duration_def inc_uploads_def
  inc_dlq_def inc_idempotency_hits_def inc_csv_rejections_def

section \<open>Frame lemmas\<close>

lemma add_action_simps [simp]:
  "history (add_action a w) = history w @ [a]"
  "table (add_action a w) = table w"
  "counters (add_action a w) = counters w"
  "readiness (add_action a w) = readiness w"
  by (simp_all add: add_action_def)

text \<open>The history only grows; \<open>new_actions\<close> is what a computation added to it.\<close>

definition grows :: "world \<Rightarrow> world \<Rightarrow> bool" where
  "grows w w' \<longleftrightarrow> (\<exists>h. history w' = history w @ h)"

definition new_actions :: "world \<Rightarrow> world \<Rightarrow> action list" where
  "new_actions w w' = drop (length (history w)) (history w')"

lemma preorder_grows [io_keeps]: "preorder_rel grows"
  unfolding preorder_rel_def grows_def by (metis append.assoc append_Nil2)

lemma new_actions_append: "history w' = history w @ h \<Longrightarrow> new_actions w w' = h"
  by (simp add: new_actions_def)

lemma grows_add [io_keeps]: "grows w (add_action a w)"
  by (simp add: grows_def)

lemma keeps_call:
  "(\<And>w a. R w (add_action a w)) \<Longrightarrow> keeps R (call reply ok bad)"
  by (auto simp: keeps_def call_def split: option.splits)

lemma keeps_ask:
  "(\<And>w a. R w (add_action a w)) \<Longrightarrow> keeps R (ask reply a)"
  by (auto simp: keeps_def ask_def split: sum.splits)

end
