(* ===== verification/Idempotency.thy ===== *)
theory Idempotency
  imports World
begin

text \<open>
  The idempotency store, \<open>worker/src/idempotency.py\<close>: the SQLite table
  \<open>processed_events\<close> with its primary key, \<open>is_done\<close> and \<open>mark_done\<close>. The
  interface \<open>dedupe_store\<close> states what the consumer relies on: a marked key is done, marking
  touches no other key, and the first correlation id stays. It is interpreted on the SQL
  statements of the code. The table is a file: opening the store again keeps its rows.
\<close>

section \<open>The interface\<close>

locale dedupe_store =
  fixes done_in :: "'s \<Rightarrow> 'k \<Rightarrow> bool"
    and value_in :: "'s \<Rightarrow> 'k \<Rightarrow> 'v option"
    and mark :: "'s \<Rightarrow> 'k \<Rightarrow> 'v \<Rightarrow> 's"
    and invar :: "'s \<Rightarrow> bool"
  assumes done_iff: "invar s \<Longrightarrow> done_in s k \<longleftrightarrow> value_in s k \<noteq> None"
    and value_mark: "invar s \<Longrightarrow> value_in (mark s k v) k' =
      (if k' = k \<and> value_in s k' = None then Some v else value_in s k')"
    and invar_mark: "invar s \<Longrightarrow> invar (mark s k v)"
begin

lemma done_mark: "invar s \<Longrightarrow> done_in (mark s k v) k' \<longleftrightarrow> k' = k \<or> done_in s k'"
  by (auto simp: done_iff invar_mark value_mark)

lemma done_mark_same: "invar s \<Longrightarrow> done_in (mark s k v) k"
  by (simp add: done_mark)

lemma first_mark_wins:
  "invar s \<Longrightarrow> done_in s k \<Longrightarrow> value_in (mark s k v) = value_in s"
  by (auto simp: value_mark done_iff fun_eq_iff)

text \<open>Any sequence of marks: exactly the marked keys are added, in whatever order.\<close>

lemma invar_marks: "invar s \<Longrightarrow> invar (fold (\<lambda>(k, v) s. mark s k v) kvs s)"
  by (induction kvs arbitrary: s) (auto simp: invar_mark)

lemma done_marks:
  "invar s \<Longrightarrow> done_in (fold (\<lambda>(k, v) s. mark s k v) kvs s) k \<longleftrightarrow> k \<in> fst ` set kvs \<or> done_in s k"
  by (induction kvs arbitrary: s) (force simp: invar_mark done_mark)+

lemma value_marks_kept:
  "invar s \<Longrightarrow> value_in s k = Some v \<Longrightarrow> value_in (fold (\<lambda>(k, v) s. mark s k v) kvs s) k = Some v"
  by (induction kvs arbitrary: s) (auto simp: invar_mark value_mark)

lemma value_marks_first:
  "invar s \<Longrightarrow> \<not> done_in s k \<Longrightarrow> value_in (fold (\<lambda>(k, v) s. mark s k v) ((k, v) # kvs) s) k = Some v"
  by (simp add: value_marks_kept invar_mark value_mark done_iff)

end

section \<open>The SQL statements\<close>

text \<open>\<open>SELECT 1 FROM processed_events WHERE idempotency_key = ?\<close>\<close>

definition select_key :: "db_row list \<Rightarrow> pystr \<Rightarrow> bool" where
  "select_key t k \<longleftrightarrow> list_ex (\<lambda>r. row_key r = k) t"

text \<open>\<open>INSERT OR IGNORE\<close> under the primary key \<open>idempotency_key\<close>\<close>

definition insert_or_ignore :: "db_row list \<Rightarrow> pystr \<Rightarrow> pystr \<times> pystr \<Rightarrow> db_row list" where
  "insert_or_ignore t k v =
     (if select_key t k then t
      else t @ [\<lparr>row_key = k, row_correlation = fst v, row_processed_at = snd v\<rparr>])"

definition unique_keys :: "db_row list \<Rightarrow> bool" where
  "unique_keys t \<longleftrightarrow> distinct (map row_key t)"

definition row_value :: "db_row list \<Rightarrow> pystr \<Rightarrow> (pystr \<times> pystr) option" where
  "row_value t k = map_option (\<lambda>r. (row_correlation r, row_processed_at r)) (List.find (\<lambda>r. row_key r = k) t)"

lemma select_key_iff: "select_key t k \<longleftrightarrow> k \<in> row_key ` set t"
  by (auto simp: select_key_def list_ex_iff)

lemma find_append: "List.find P (xs @ ys) = (case List.find P xs of None \<Rightarrow> List.find P ys | Some x \<Rightarrow> Some x)"
  by (induction xs) auto

lemma row_value_None: "row_value t k = None \<longleftrightarrow> \<not> select_key t k"
  by (auto simp: row_value_def select_key_iff find_None_iff)

interpretation sqlite: dedupe_store select_key row_value insert_or_ignore unique_keys
proof unfold_locales
  fix t k v k'
  show "row_value (insert_or_ignore t k v) k' =
      (if k' = k \<and> row_value t k' = None then Some v else row_value t k')"
    using row_value_None [of t k]
    by (auto simp: insert_or_ignore_def row_value_def find_append split: option.splits)
qed (auto simp: row_value_None insert_or_ignore_def unique_keys_def select_key_iff)

section \<open>The operations of the store\<close>

text \<open>The text of each statement and its parameters.\<close>

definition schema_text :: pystr where
  "schema_text = [10] @ join_str [10] [
     lit ''CREATE TABLE IF NOT EXISTS processed_events ('',
     lit ''    idempotency_key TEXT PRIMARY KEY,'',
     lit ''    correlation_id TEXT NOT NULL,'',
     lit ''    processed_at TEXT NOT NULL DEFAULT (strftime('' @ [39] @ lit ''%Y-%m-%dT%H:%M:%fZ'' @ [39] @ lit '', '' @ [39] @ lit ''now'' @ [39] @ lit ''))'',
     lit '');''] @ [10]"

fun sql_text :: "sql_stmt \<Rightarrow> pystr" where
  "sql_text PragmaWal = lit ''PRAGMA journal_mode=WAL''"
| "sql_text CreateTable = schema_text"
| "sql_text (SelectKey k) = lit ''SELECT 1 FROM processed_events WHERE idempotency_key = ?''"
| "sql_text (InsertKey k c) = lit ''INSERT OR IGNORE INTO processed_events (idempotency_key, correlation_id) VALUES (?, ?)''"

fun sql_params :: "sql_stmt \<Rightarrow> pystr list" where
  "sql_params (SelectKey k) = [k]"
| "sql_params (InsertKey k c) = [k, c]"
| "sql_params _ = []"

text \<open>Every value of a message is a parameter: no key or correlation id can change a statement.\<close>

lemma sql_text_fixed: "sql_text (SelectKey k) = sql_text (SelectKey k')" "sql_text (InsertKey k c) = sql_text (InsertKey k' c')"
    "count_list (sql_text st) 63 = length (sql_params st)"
  by (simp_all, cases st) (simp_all add: schema_text_def lit_def)

definition sql :: "environ \<Rightarrow> sql_stmt \<Rightarrow> (world, unit) io" where
  "sql E st = call (\<lambda>h. sql_reply E h st) (Sql st) (SqlFailed st)"

definition is_done :: "environ \<Rightarrow> pystr \<Rightarrow> (world, bool) io" where
  "is_done E k = bind_io (sql E (SelectKey k)) (\<lambda>_. get_io (\<lambda>w. select_key (table w) k))"

text \<open>The \<open>with self._conn\<close> block commits, or rolls back when the statement raises.\<close>

definition mark_done :: "environ \<Rightarrow> pystr \<Rightarrow> pystr \<Rightarrow> (world, unit) io" where
  "mark_done E k corr = bind_io (get_io (\<lambda>w. sql_now E (history w))) (\<lambda>now.
     bind_io (sql E (InsertKey k corr)) (\<lambda>_.
     modify_io (\<lambda>w. w\<lparr>table := insert_or_ignore (table w) k (corr, now)\<rparr>)))"

text \<open>\<open>os.path.dirname\<close>: up to the last slash, without trailing slashes.\<close>

definition dirname :: "pystr \<Rightarrow> pystr" where
  "dirname p = (let head = rev (dropWhile (\<lambda>c. c \<noteq> 47) (rev p))
     in if list_all (\<lambda>c. c = 47) head then head else rev (dropWhile (\<lambda>c. c = 47) (rev head)))"

definition open_store :: "environ \<Rightarrow> pystr \<Rightarrow> (world, unit) io" where
  "open_store E path = seq_io [
     (if path \<noteq> lit '':memory:'' \<and> dirname path \<noteq> []
      then call (\<lambda>h. makedirs_reply E h (dirname path)) (MakeDirs (dirname path)) (\<lambda>_. MakeDirs (dirname path))
      else ret_io ()),
     call (\<lambda>h. open_db_reply E h path) (OpenDb path) (\<lambda>_. OpenDb path),
     sql E PragmaWal,
     sql E CreateTable]"

definition close_store :: "(world, unit) io" where
  "close_store = modify_io (add_action CloseDb)"

lemma sql_cases:
  "sql E st w = (case sql_reply E (history w) st of
      None \<Rightarrow> (Return (), add_action (Sql st) w)
    | Some e \<Rightarrow> (Raise e, add_action (SqlFailed st e) w))"
  by (simp add: sql_def call_def)

lemma is_done_cases:
  "is_done E k w = (case sql_reply E (history w) (SelectKey k) of
      None \<Rightarrow> (Return (select_key (table w) k), add_action (Sql (SelectKey k)) w)
    | Some e \<Rightarrow> (Raise e, add_action (SqlFailed (SelectKey k) e) w))"
  by (simp add: is_done_def sql_cases io_defs split: option.splits)

lemma mark_done_cases:
  "mark_done E k c w = (case sql_reply E (history w) (InsertKey k c) of
      None \<Rightarrow> (Return (), (add_action (Sql (InsertKey k c)) w)
        \<lparr>table := insert_or_ignore (table w) k (c, sql_now E (history w))\<rparr>)
    | Some e \<Rightarrow> (Raise e, add_action (SqlFailed (InsertKey k c) e) w))"
  by (simp add: mark_done_def sql_cases io_defs split: option.splits)

end
