(* ===== verification/Publisher.thy ===== *)
theory Publisher
  imports World
begin

text \<open>
  The broker side, \<open>worker/src/publisher.py\<close>: connecting, declaring the three queues, and
  the publisher that sends persistent, mandatory messages on a channel in confirm mode. A
  publication that the broker does not confirm raises; it is recorded as \<open>PublishFailed\<close>.
\<close>

definition connection_params :: "settings \<Rightarrow> connection_parameters" where
  "connection_params S = \<lparr>cp_host = rabbitmq_host S, cp_port = rabbitmq_port S,
     cp_virtual_host = rabbitmq_vhost S, cp_user = rabbitmq_user S, cp_password = rabbitmq_pass S,
     cp_heartbeat = 30, cp_blocked_timeout = 30\<rparr>"

text \<open>A connection is known by its number, the position of its opening in the history.\<close>

definition connect :: "environ \<Rightarrow> settings \<Rightarrow> (world, nat) io" where
  "connect E S = bind_io (get_io (\<lambda>w. length (history w))) (\<lambda>c.
     bind_io (call (connect_reply E) (Connect (connection_params S)) ConnectFailed) (\<lambda>_. ret_io c))"

definition open_channel :: "environ \<Rightarrow> nat \<Rightarrow> (world, nat) io" where
  "open_channel E c = bind_io (call (channel_reply E) OpenChannel OpenChannelFailed) (\<lambda>_. ret_io c)"

definition main_queue :: "settings \<Rightarrow> queue_decl" where
  "main_queue S = \<lparr>decl_queue = queue_name S, durable = True, arguments = []\<rparr>"

definition retry_queue :: "settings \<Rightarrow> queue_decl" where
  "retry_queue S = \<lparr>decl_queue = retry_queue_name S, durable = True,
     arguments = [(lit ''x-dead-letter-exchange'', []),
                  (lit ''x-dead-letter-routing-key'', queue_name S)]\<rparr>"

definition dead_letter_queue :: "settings \<Rightarrow> queue_decl" where
  "dead_letter_queue S = \<lparr>decl_queue = dlq_name S, durable = True, arguments = []\<rparr>"

definition queue_declare :: "environ \<Rightarrow> nat \<Rightarrow> queue_decl \<Rightarrow> (world, unit) io" where
  "queue_declare E ch q = call (\<lambda>h. declare_reply E h ch q) (Declare ch q) (DeclareFailed ch q)"

definition declare_topology :: "environ \<Rightarrow> nat \<Rightarrow> settings \<Rightarrow> (world, unit) io" where
  "declare_topology E ch S = seq_io [
     queue_declare E ch (main_queue S),
     queue_declare E ch (retry_queue S),
     queue_declare E ch (dead_letter_queue S)]"

record publisher =
  pub_channel :: nat
  pub_settings :: settings

definition mk_publisher :: "environ \<Rightarrow> nat \<Rightarrow> settings \<Rightarrow> (world, publisher) io" where
  "mk_publisher E ch S = bind_io (call (\<lambda>h. confirm_reply E h ch) (ConfirmDelivery ch) (ConfirmDeliveryFailed ch))
     (\<lambda>_. ret_io \<lparr>pub_channel = ch, pub_settings = S\<rparr>)"

definition basic_publish :: "environ \<Rightarrow> nat \<Rightarrow> publication \<Rightarrow> (world, unit) io" where
  "basic_publish E ch p = call (\<lambda>h. publish_reply E h ch p) (Published ch p) (PublishFailed ch p)"

definition event_publication ::
  "environ \<Rightarrow> pystr \<Rightarrow> transfer_event \<Rightarrow> pystr option \<Rightarrow> (pystr \<times> pystr) list option \<Rightarrow> publication" where
  "event_publication E queue e expir hdrs = \<lparr>
     pub_exchange = [],
     routing_key = queue,
     pub_body = to_json_bytes E e,
     pub_props = \<lparr>content_type = Some (lit ''application/json''), persistent = True,
       message_id = Some (eventId e), prop_correlation_id = Some (correlationId e),
       expiration = expir, headers = hdrs\<rparr>,
     mandatory = True\<rparr>"

definition publish :: "environ \<Rightarrow> publisher \<Rightarrow> pystr \<Rightarrow> transfer_event \<Rightarrow> pystr option
    \<Rightarrow> (pystr \<times> pystr) list option \<Rightarrow> (world, unit) io" where
  "publish E pb queue e expir hdrs = basic_publish E (pub_channel pb) (event_publication E queue e expir hdrs)"

definition publish_event :: "environ \<Rightarrow> publisher \<Rightarrow> transfer_event \<Rightarrow> (world, unit) io" where
  "publish_event E pb e = publish E pb (queue_name (pub_settings pb)) e None None"

definition publish_retry :: "environ \<Rightarrow> publisher \<Rightarrow> transfer_event \<Rightarrow> int \<Rightarrow> (world, unit) io" where
  "publish_retry E pb e delay_ms =
     publish E pb (retry_queue_name (pub_settings pb)) e (Some (show_int delay_ms)) None"

definition publish_dlq :: "environ \<Rightarrow> publisher \<Rightarrow> transfer_event \<Rightarrow> string \<Rightarrow> (world, unit) io" where
  "publish_dlq E pb e reason =
     publish E pb (dlq_name (pub_settings pb)) e None (Some [(lit ''x-dlq-reason'', lit reason)])"

definition connect_and_setup :: "environ \<Rightarrow> settings \<Rightarrow> (world, nat \<times> nat \<times> publisher) io" where
  "connect_and_setup E S =
     bind_io (connect E S) (\<lambda>conn.
     bind_io (open_channel E conn) (\<lambda>ch.
     bind_io (declare_topology E ch S) (\<lambda>_.
     bind_io (mk_publisher E ch S) (\<lambda>pb.
     ret_io (conn, ch, pb)))))"

lemma basic_publish_cases:
  "basic_publish E ch p w = (case publish_reply E (history w) ch p of
      None \<Rightarrow> (Return (), add_action (Published ch p) w)
    | Some e \<Rightarrow> (Raise e, add_action (PublishFailed ch p e) w))"
  by (simp add: basic_publish_def call_def)

end
