(* ===== verification/Csv.thy ===== *)
theory Csv
  imports Text
begin

text \<open>
  Python's \<open>csv.reader(io.StringIO(text))\<close> in the default (excel) dialect, as the state
  machine of CPython's \<open>_csv.c\<close>: delimiter comma, quote character \<open>"\<close> doubled inside
  a quoted field, no escape character, not strict. \<open>io.StringIO\<close> hands out lines that end at
  a line feed only, and the reader raises \<open>csv.Error\<close> at a bare carriage return and at a
  field of more than 131072 characters.

  The lemmas give the reader's meaning on the two ways of writing a table: fully quoted cells,
  whatever they contain, are read back exactly; and a text without quotes and carriage returns is
  split at line feeds and commas.
\<close>

section \<open>The reader\<close>

datatype csv_state = START_RECORD | START_FIELD | IN_FIELD | IN_QUOTED_FIELD
  | QUOTE_IN_QUOTED_FIELD | EAT_CRNL

record reader =
  rd_fields :: "pystr list"
  rd_field :: pystr
  rd_state :: csv_state

definition csv_error :: "string \<Rightarrow> exn" where
  "csv_error msg = mk_exn ''Error'' [Exception] (lit msg)"

definition field_limit :: nat where
  "field_limit = 131072"

definition reset_reader :: reader where
  "reset_reader = \<lparr>rd_fields = [], rd_field = [], rd_state = START_RECORD\<rparr>"

definition add_char :: "reader \<Rightarrow> nat \<Rightarrow> csv_state \<Rightarrow> exn + reader" where
  "add_char r c st =
     (if field_limit \<le> length (rd_field r) then Inl (csv_error ''field larger than field limit (131072)'')
      else Inr (r\<lparr>rd_field := rd_field r @ [c], rd_state := st\<rparr>))"

definition save_field :: "reader \<Rightarrow> csv_state \<Rightarrow> reader" where
  "save_field r st = r\<lparr>rd_fields := rd_fields r @ [rd_field r], rd_field := [], rd_state := st\<rparr>"

definition is_newline :: "nat \<Rightarrow> bool" where
  "is_newline c \<longleftrightarrow> c = 10 \<or> c = 13"

text \<open>One character in the state \<open>START_FIELD\<close>; a fresh record falls through to it.\<close>

definition start_field :: "reader \<Rightarrow> nat \<Rightarrow> exn + reader" where
  "start_field r c =
     (if is_newline c then Inr (save_field r EAT_CRNL)
      else if c = 34 then Inr (r\<lparr>rd_state := IN_QUOTED_FIELD\<rparr>)
      else if c = 44 then Inr (save_field r START_FIELD)
      else add_char r c IN_FIELD)"

fun process_char :: "reader \<Rightarrow> nat \<Rightarrow> exn + reader" where
  "process_char r c = (case rd_state r of
      START_RECORD \<Rightarrow>
        if is_newline c then Inr (r\<lparr>rd_state := EAT_CRNL\<rparr>) else start_field r c
    | START_FIELD \<Rightarrow> start_field r c
    | IN_FIELD \<Rightarrow>
        if is_newline c then Inr (save_field r EAT_CRNL)
        else if c = 44 then Inr (save_field r START_FIELD)
        else add_char r c IN_FIELD
    | IN_QUOTED_FIELD \<Rightarrow>
        if c = 34 then Inr (r\<lparr>rd_state := QUOTE_IN_QUOTED_FIELD\<rparr>)
        else add_char r c IN_QUOTED_FIELD
    | QUOTE_IN_QUOTED_FIELD \<Rightarrow>
        if c = 34 then add_char r c IN_QUOTED_FIELD
        else if c = 44 then Inr (save_field r START_FIELD)
        else if is_newline c then Inr (save_field r EAT_CRNL)
        else add_char r c IN_FIELD
    | EAT_CRNL \<Rightarrow>
        if is_newline c then Inr r
        else Inl (csv_error (''new-line character seen in unquoted field - '' @
                   ''do you need to open the file with newline='' @ [CHR 0x27, CHR 0x27] @ ''?'')))"

text \<open>The end of a line, which the reader processes after the line's characters.\<close>

fun process_eol :: "reader \<Rightarrow> reader" where
  "process_eol r = (case rd_state r of
      START_RECORD \<Rightarrow> r
    | START_FIELD \<Rightarrow> save_field r START_RECORD
    | IN_FIELD \<Rightarrow> save_field r START_RECORD
    | IN_QUOTED_FIELD \<Rightarrow> r
    | QUOTE_IN_QUOTED_FIELD \<Rightarrow> save_field r START_RECORD
    | EAT_CRNL \<Rightarrow> r\<lparr>rd_state := START_RECORD\<rparr>)"

declare process_char.simps [simp del] process_eol.simps [simp del]

fun feed_chars :: "reader \<Rightarrow> pystr \<Rightarrow> exn + reader" where
  "feed_chars r [] = Inr r"
| "feed_chars r (c # cs) = bind_sum (process_char r c) (\<lambda>r'. feed_chars r' cs)"

definition feed_line :: "reader \<Rightarrow> pystr \<Rightarrow> exn + reader" where
  "feed_line r l = bind_sum (feed_chars r l) (\<lambda>r'. Inr (process_eol r'))"

text \<open>
  The rows the reader yields from the lines still to come, and the exception that ends them, if
  any. A record that is still open when the lines run out is yielded as it stands.
\<close>

fun rows_from :: "reader \<Rightarrow> pystr list \<Rightarrow> pystr list list \<times> exn option" where
  "rows_from r [] =
     (if rd_field r \<noteq> [] \<or> rd_state r = IN_QUOTED_FIELD
      then ([rd_fields (save_field r START_RECORD)], None) else ([], None))"
| "rows_from r (l # ls) = (case feed_line r l of
      Inl e \<Rightarrow> ([], Some e)
    | Inr r' \<Rightarrow>
        if rd_state r' = START_RECORD
        then (let (rows, e) = rows_from reset_reader ls in (rd_fields r' # rows, e))
        else rows_from r' ls)"

text \<open>Iterating over \<open>io.StringIO(text)\<close>: lines keep their line feed.\<close>

fun lines_keep :: "pystr \<Rightarrow> pystr list" where
  "lines_keep [] = []"
| "lines_keep (c # cs) =
     (if c = 10 then [c] # lines_keep cs
      else (case lines_keep cs of [] \<Rightarrow> [[c]] | l # ls \<Rightarrow> (c # l) # ls))"

definition csv_rows :: "pystr \<Rightarrow> pystr list list \<times> exn option" where
  "csv_rows text = rows_from reset_reader (lines_keep text)"

section \<open>Lines\<close>

lemma concat_lines_keep: "concat (lines_keep s) = s"
  by (induction s) (auto split: list.splits)

lemma lines_keep_line: "10 \<notin> set l \<Longrightarrow> lines_keep (l @ 10 # s) = (l @ [10]) # lines_keep s"
  by (induction l) auto

lemma lines_keep_last: "10 \<notin> set l \<Longrightarrow> l \<noteq> [] \<Longrightarrow> lines_keep l = [l]"
proof (induction l)
  case (Cons c l)
  then show ?case by (cases l) auto
qed simp

lemma feed_chars_append: "feed_chars r (a @ b) = bind_sum (feed_chars r a) (\<lambda>r'. feed_chars r' b)"
proof (induction a arbitrary: r)
  case (Cons c a)
  then show ?case by (cases "process_char r c") simp_all
qed simp

text \<open>
  Reading the rest of a text character by character: after a line feed the reader processes the
  end of the line and may yield a record.
\<close>

definition after_line :: "reader \<Rightarrow> pystr list \<Rightarrow> pystr list list \<times> exn option" where
  "after_line r ls =
     (if rd_state r = START_RECORD
      then (let (rows, e) = rows_from reset_reader ls in (rd_fields r # rows, e))
      else rows_from r ls)"

lemma rows_from_Cons:
  "rows_from r (l # ls) = (case feed_chars r l of Inl e \<Rightarrow> ([], Some e) | Inr r' \<Rightarrow> after_line (process_eol r') ls)"
  by (cases "feed_chars r l") (simp_all add: feed_line_def after_line_def)

section \<open>Fully quoted tables are read back\<close>

fun double_quotes :: "pystr \<Rightarrow> pystr" where
  "double_quotes [] = []"
| "double_quotes (c # cs) = (if c = 34 then 34 # 34 # double_quotes cs else c # double_quotes cs)"

definition quote_cell :: "pystr \<Rightarrow> pystr" where
  "quote_cell c = [34] @ double_quotes c @ [34]"

definition quote_row :: "pystr list \<Rightarrow> pystr" where
  "quote_row cells = join_str [44] (map quote_cell cells) @ [10]"

definition quote_table :: "pystr list list \<Rightarrow> pystr" where
  "quote_table rows = concat (map quote_row rows)"

text \<open>
  A part of a text that is not its end is consumed: the reader goes from \<open>r\<close> to
  \<open>r'\<close> without yielding a record.
\<close>

definition consumes :: "reader \<Rightarrow> pystr \<Rightarrow> reader \<Rightarrow> bool" where
  "consumes r s r' \<longleftrightarrow> (\<forall>t. t \<noteq> [] \<longrightarrow> rows_from r (lines_keep (s @ t)) = rows_from r' (lines_keep t))"

lemma consumes_Nil: "consumes r [] r"
  by (simp add: consumes_def)

lemma consumes_trans: "consumes r a r' \<Longrightarrow> consumes r' b r'' \<Longrightarrow> consumes r (a @ b) r''"
  unfolding consumes_def by (metis append.assoc append_is_Nil_conv)

lemma consumesD:
  "consumes r s r' \<Longrightarrow> t \<noteq> [] \<Longrightarrow> rows_from r (lines_keep (s @ t)) = rows_from r' (lines_keep t)"
  by (simp add: consumes_def)

lemma consumes_char:
  assumes "c \<noteq> 10" and "process_char r c = Inr r'"
  shows "consumes r [c] r'"
  unfolding consumes_def
proof (intro allI impI)
  fix t :: pystr
  assume "t \<noteq> []"
  then obtain l ls where t: "lines_keep t = l # ls"
    by (cases "lines_keep t") (metis concat.simps(1) concat_lines_keep)
  with assms show "rows_from r (lines_keep ([c] @ t)) = rows_from r' (lines_keep t)"
    by (simp add: rows_from_Cons del: rows_from.simps)
qed

lemma consumes_quoted_lf:
  assumes "process_char r 10 = Inr r'" and "rd_state r' = IN_QUOTED_FIELD"
  shows "consumes r [10] r'"
  using assms by (simp add: consumes_def rows_from_Cons after_line_def process_eol.simps del: rows_from.simps)

lemma rows_from_end_row:
  assumes "rd_state r = START_FIELD \<or> rd_state r = IN_FIELD \<or> rd_state r = QUOTE_IN_QUOTED_FIELD"
  shows "rows_from r (lines_keep (10 # t)) =
    (let (rows, e) = rows_from reset_reader (lines_keep t) in (rd_fields (save_field r EAT_CRNL) # rows, e))"
proof -
  have "process_char r 10 = Inr (save_field r EAT_CRNL)"
    using assms by (auto simp: process_char.simps start_field_def is_newline_def)
  then show ?thesis
    by (simp add: rows_from_Cons after_line_def process_eol.simps save_field_def del: rows_from.simps)
qed

lemma rows_from_empty_row:
  "rows_from reset_reader (lines_keep (10 # t)) =
    (let (rows, e) = rows_from reset_reader (lines_keep t) in ([] # rows, e))"
  by (simp add: rows_from_Cons after_line_def process_eol.simps process_char.simps reset_reader_def
      is_newline_def del: rows_from.simps)

lemma consumes_double_quotes:
  assumes "rd_state r = IN_QUOTED_FIELD" and "length (rd_field r) + length c \<le> field_limit"
  shows "consumes r (double_quotes c) (r\<lparr>rd_field := rd_field r @ c\<rparr>)"
  using assms
proof (induction c arbitrary: r)
  case Nil
  then show ?case by (simp add: consumes_Nil)
next
  case (Cons x c)
  define r1 where "r1 = r\<lparr>rd_field := rd_field r @ [x]\<rparr>"
  have st: "rd_state r = IN_QUOTED_FIELD" and lim: "\<not> field_limit \<le> length (rd_field r)"
    using Cons.prems by simp_all
  then have r1: "r1 = r\<lparr>rd_field := rd_field r @ [x], rd_state := IN_QUOTED_FIELD\<rparr>"
    by (simp add: r1_def)
  have x: "consumes r (double_quotes [x]) r1"
  proof (cases "x = 34")
    case True
    have "consumes r [34] (r\<lparr>rd_state := QUOTE_IN_QUOTED_FIELD\<rparr>)"
      by (rule consumes_char) (simp_all add: process_char.simps st)
    moreover have "consumes (r\<lparr>rd_state := QUOTE_IN_QUOTED_FIELD\<rparr>) [34] r1"
      by (rule consumes_char) (simp_all add: process_char.simps add_char_def lim r1 True)
    ultimately show ?thesis using True consumes_trans by fastforce
  next
    case False
    then have p: "process_char r x = Inr r1" by (simp add: process_char.simps st add_char_def lim r1)
    show ?thesis
    proof (cases "x = 10")
      case True
      then show ?thesis using p by (simp add: consumes_quoted_lf r1)
    next
      case False
      then show ?thesis using p \<open>x \<noteq> 34\<close> by (simp add: consumes_char)
    qed
  qed
  have "consumes r1 (double_quotes c) (r1\<lparr>rd_field := rd_field r1 @ c\<rparr>)"
    using Cons.prems by (intro Cons.IH) (simp_all add: r1_def)
  with x have "consumes r (double_quotes [x] @ double_quotes c) (r1\<lparr>rd_field := rd_field r1 @ c\<rparr>)"
    by (rule consumes_trans)
  then show ?case by (simp add: r1_def split: if_splits)
qed

lemma consumes_quote_cell:
  assumes "rd_state r = START_RECORD \<or> rd_state r = START_FIELD" and "rd_field r = []"
    and "length c \<le> field_limit"
  shows "consumes r (quote_cell c) (r\<lparr>rd_field := c, rd_state := QUOTE_IN_QUOTED_FIELD\<rparr>)"
proof -
  define r1 where "r1 = r\<lparr>rd_state := IN_QUOTED_FIELD\<rparr>"
  have "consumes r [34] r1"
    using assms(1) by (intro consumes_char) (auto simp: process_char.simps start_field_def is_newline_def r1_def)
  moreover have "consumes r1 (double_quotes c) (r1\<lparr>rd_field := rd_field r1 @ c\<rparr>)"
    using assms(2,3) by (intro consumes_double_quotes) (simp_all add: r1_def)
  moreover have "consumes (r1\<lparr>rd_field := rd_field r1 @ c\<rparr>) [34]
      (r\<lparr>rd_field := c, rd_state := QUOTE_IN_QUOTED_FIELD\<rparr>)"
    using assms(2) by (intro consumes_char) (simp_all add: process_char.simps r1_def)
  ultimately show ?thesis unfolding quote_cell_def by (blast intro: consumes_trans)
qed

text \<open>The cells of a row after the first, from the state that follows a comma.\<close>

lemma rows_from_quote_cells:
  assumes "rd_state r = START_RECORD \<or> rd_state r = START_FIELD" and "rd_field r = []"
    and "cells \<noteq> []" and "\<forall>c \<in> set cells. length c \<le> field_limit"
  shows "rows_from r (lines_keep (quote_row cells @ t)) =
    (let (rows, e) = rows_from reset_reader (lines_keep t) in ((rd_fields r @ cells) # rows, e))"
  using assms
proof (induction cells arbitrary: r)
  case Nil
  then show ?case by simp
next
  case (Cons c cells)
  let ?r1 = "r\<lparr>rd_field := c, rd_state := QUOTE_IN_QUOTED_FIELD\<rparr>"
  have c: "consumes r (quote_cell c) ?r1"
    using Cons.prems by (intro consumes_quote_cell) simp_all
  show ?case
  proof (cases cells)
    case Nil
    have "rows_from r (lines_keep (quote_cell c @ 10 # t)) = rows_from ?r1 (lines_keep (10 # t))"
      using c by (simp add: consumes_def)
    then show ?thesis
      using rows_from_end_row [of ?r1 t] by (simp add: Nil quote_row_def save_field_def)
  next
    case (Cons d ds)
    let ?r2 = "save_field ?r1 START_FIELD"
    have "consumes ?r1 [44] ?r2"
      by (rule consumes_char) (simp_all add: process_char.simps is_newline_def)
    with c have "consumes r (quote_cell c @ [44]) ?r2" by (rule consumes_trans)
    moreover have "quote_row (c # cells) @ t = (quote_cell c @ [44]) @ (quote_row cells @ t)"
      by (simp add: Cons quote_row_def)
    moreover have "quote_row cells @ t \<noteq> []" by (simp add: quote_row_def)
    ultimately have "rows_from r (lines_keep (quote_row (c # cells) @ t))
        = rows_from ?r2 (lines_keep (quote_row cells @ t))"
      unfolding consumes_def by metis
    also have "\<dots> = (let (rows, e) = rows_from reset_reader (lines_keep t)
        in ((rd_fields ?r2 @ cells) # rows, e))"
      using Cons.prems Cons by (intro Cons.IH) (simp_all add: save_field_def)
    finally show ?thesis by (simp add: save_field_def)
  qed
qed

lemma csv_rows_quote_table:
  "\<forall>row \<in> set rows. \<forall>c \<in> set row. length c \<le> field_limit \<Longrightarrow> csv_rows (quote_table rows) = (rows, None)"
proof (induction rows)
  case Nil
  then show ?case by (simp add: csv_rows_def quote_table_def reset_reader_def)
next
  case (Cons row rows)
  then have IH: "rows_from reset_reader (lines_keep (quote_table rows)) = (rows, None)"
    by (simp add: csv_rows_def)
  show ?case
  proof (cases "row = []")
    case True
    then show ?thesis
      using IH rows_from_empty_row [of "quote_table rows"]
      by (simp add: csv_rows_def quote_table_def quote_row_def)
  next
    case False
    then show ?thesis
      using IH rows_from_quote_cells [of reset_reader row "quote_table rows"] Cons.prems
      by (simp add: csv_rows_def quote_table_def reset_reader_def)
  qed
qed

section \<open>Plain tables are split at line ends and commas\<close>

text \<open>A line whose characters mean nothing special to the reader.\<close>

definition plain :: "pystr \<Rightarrow> bool" where
  "plain l \<longleftrightarrow> 10 \<notin> set l \<and> 13 \<notin> set l \<and> 34 \<notin> set l \<and> length l \<le> field_limit"

definition plain_row :: "pystr \<Rightarrow> pystr list" where
  "plain_row l = (if l = [] then [] else split_on 44 l)"

definition line_end :: "pystr \<Rightarrow> bool" where
  "line_end e \<longleftrightarrow> e = [10] \<or> e = [13, 10]"

definition in_row :: "reader \<Rightarrow> bool" where
  "in_row r \<longleftrightarrow> rd_state r = START_FIELD \<or> rd_state r = IN_FIELD"

lemma consumes_plain:
  assumes "in_row r" and "10 \<notin> set l" and "13 \<notin> set l" and "34 \<notin> set l"
    and "length (rd_field r) + length l \<le> field_limit"
  shows "\<exists>r'. consumes r l r' \<and> in_row r' \<and>
    rd_fields r' @ [rd_field r'] = rd_fields r @ (rd_field r @ hd (split_on 44 l)) # tl (split_on 44 l)"
  using assms
proof (induction l arbitrary: r)
  case Nil
  then show ?case by (intro exI [of _ r]) (simp add: consumes_Nil)
next
  case (Cons c l)
  define r1 where "r1 = (if c = 44 then save_field r START_FIELD
     else r\<lparr>rd_field := rd_field r @ [c], rd_state := IN_FIELD\<rparr>)"
  have "process_char r c = Inr r1"
    using Cons.prems by (auto simp: in_row_def process_char.simps start_field_def is_newline_def add_char_def r1_def)
  then have 1: "consumes r [c] r1" using Cons.prems by (intro consumes_char) auto
  have "in_row r1" and "length (rd_field r1) + length l \<le> field_limit"
    using Cons.prems by (auto simp: r1_def in_row_def save_field_def)
  with Cons.IH [of r1] Cons.prems obtain r' where r': "consumes r1 l r'" "in_row r'"
    "rd_fields r' @ [rd_field r'] = rd_fields r1 @ (rd_field r1 @ hd (split_on 44 l)) # tl (split_on 44 l)"
    by auto
  have "consumes r ([c] @ l) r'" using 1 r'(1) by (rule consumes_trans)
  moreover obtain f fs where "split_on 44 l = f # fs" using split_on_Cons by blast
  ultimately show ?case using r' by (intro exI [of _ r']) (simp add: r1_def save_field_def)
qed

lemma rows_from_eat_lf:
  "rd_state r = EAT_CRNL \<Longrightarrow> rows_from r (lines_keep (10 # t)) =
    (let (rows, e) = rows_from reset_reader (lines_keep t) in (rd_fields r # rows, e))"
  by (simp add: rows_from_Cons after_line_def process_eol.simps process_char.simps is_newline_def
      del: rows_from.simps)

lemma rows_from_line_end:
  assumes "in_row r" and "line_end e"
  shows "rows_from r (lines_keep (e @ t)) =
    (let (rows, x) = rows_from reset_reader (lines_keep t) in ((rd_fields r @ [rd_field r]) # rows, x))"
proof (cases "e = [10]")
  case True
  then show ?thesis using assms(1) rows_from_end_row [of r t] by (auto simp: in_row_def save_field_def)
next
  case False
  with assms(2) have e: "e = [13, 10]" by (simp add: line_end_def)
  have "consumes r [13] (save_field r EAT_CRNL)"
    using assms(1) by (intro consumes_char) (auto simp: in_row_def process_char.simps start_field_def is_newline_def)
  then have "rows_from r (lines_keep (e @ t)) = rows_from (save_field r EAT_CRNL) (lines_keep (10 # t))"
    using consumesD [of r "[13]" _ "10 # t"] unfolding e by (simp only: append_Cons append_Nil) simp
  also have "\<dots> = (let (rows, x) = rows_from reset_reader (lines_keep t)
      in (rd_fields (save_field r EAT_CRNL) # rows, x))"
    by (rule rows_from_eat_lf) (simp add: save_field_def)
  finally show ?thesis by (simp add: save_field_def)
qed

lemma start_record_as_start_field:
  assumes "\<not> is_newline c"
  shows "process_char reset_reader c = process_char (reset_reader\<lparr>rd_state := START_FIELD\<rparr>) c"
  using assms by (simp add: process_char.simps reset_reader_def start_field_def save_field_def add_char_def)

lemma rows_from_first_char:
  assumes "\<not> is_newline c"
  shows "rows_from reset_reader (lines_keep (c # s)) =
    rows_from (reset_reader\<lparr>rd_state := START_FIELD\<rparr>) (lines_keep (c # s))"
  using assms start_record_as_start_field [OF assms]
  by (auto simp: rows_from_Cons is_newline_def simp del: rows_from.simps split: list.splits)

lemma rows_from_plain_line:
  assumes "plain l" and "line_end e"
  shows "rows_from reset_reader (lines_keep (l @ e @ t)) =
    (let (rows, x) = rows_from reset_reader (lines_keep t) in (plain_row l # rows, x))"
proof (cases l)
  case Nil
  have "consumes reset_reader [13] (reset_reader\<lparr>rd_state := EAT_CRNL\<rparr>)"
    by (rule consumes_char) (simp_all add: process_char.simps is_newline_def reset_reader_def)
  then have "rows_from reset_reader (lines_keep (13 # 10 # t)) =
      rows_from (reset_reader\<lparr>rd_state := EAT_CRNL\<rparr>) (lines_keep (10 # t))"
    using consumesD [of reset_reader "[13]" _ "10 # t"] by (simp only: append_Cons append_Nil) simp
  also have "\<dots> = (let (rows, x) = rows_from reset_reader (lines_keep t) in ([] # rows, x))"
    using rows_from_eat_lf [of "reset_reader\<lparr>rd_state := EAT_CRNL\<rparr>" t] by (simp add: reset_reader_def)
  finally show ?thesis using assms(2) Nil rows_from_empty_row [of t]
    by (auto simp: line_end_def plain_row_def simp del: lines_keep.simps rows_from.simps)
next
  case (Cons c l')
  let ?r = "reset_reader\<lparr>rd_state := START_FIELD\<rparr>"
  have "\<not> is_newline c" using assms(1) Cons by (auto simp: plain_def is_newline_def)
  then have "rows_from reset_reader (lines_keep (l @ e @ t)) = rows_from ?r (lines_keep (l @ e @ t))"
    using rows_from_first_char [of c "l' @ e @ t"] by (simp add: Cons)
  moreover obtain r' where "consumes ?r l r'" "in_row r'"
      and row: "rd_fields r' @ [rd_field r'] = hd (split_on 44 l) # tl (split_on 44 l)"
    using consumes_plain [of ?r l] assms(1) by (auto simp: plain_def in_row_def reset_reader_def)
  moreover have "e @ t \<noteq> []" using assms(2) by (auto simp: line_end_def)
  moreover have "hd (split_on 44 l) # tl (split_on 44 l) = plain_row l"
    using split_on_Cons [of 44 l] Cons by (auto simp: plain_row_def)
  ultimately show ?thesis using rows_from_line_end [OF _ assms(2), of r' t] by (simp add: consumes_def)
qed

lemma csv_rows_plain_table:
  assumes "\<forall>(l, e) \<in> set ls. plain l \<and> line_end e"
  shows "csv_rows (concat (map (\<lambda>(l, e). l @ e) ls)) = (map (\<lambda>(l, e). plain_row l) ls, None)"
  using assms
proof (induction ls)
  case Nil
  then show ?case by (simp add: csv_rows_def reset_reader_def)
next
  case (Cons x ls)
  obtain l e where x: "x = (l, e)" by fastforce
  then show ?case
    using Cons rows_from_plain_line [of l e "concat (map (\<lambda>(l, e). l @ e) ls)"]
    by (simp add: csv_rows_def)
qed

section \<open>A bare carriage return stops the reader\<close>

definition bare_cr_error :: exn where
  "bare_cr_error = csv_error (''new-line character seen in unquoted field - '' @
     ''do you need to open the file with newline='' @ [CHR 0x27, CHR 0x27] @ ''?'')"

lemma csv_rows_bare_cr:
  assumes "plain l" and "\<not> is_newline c"
  shows "csv_rows (l @ 13 # c # t) = ([], Some bare_cr_error)"
proof -
  have eat: "rows_from r (lines_keep (c # t)) = ([], Some bare_cr_error)" if "rd_state r = EAT_CRNL" for r
    using that assms(2)
    by (auto simp: rows_from_Cons process_char.simps bare_cr_error_def is_newline_def
        simp del: rows_from.simps split: list.splits)
  show ?thesis
  proof (cases l)
    case Nil
    have "consumes reset_reader [13] (reset_reader\<lparr>rd_state := EAT_CRNL\<rparr>)"
      by (rule consumes_char) (simp_all add: process_char.simps is_newline_def reset_reader_def)
    then have "csv_rows (13 # c # t) = rows_from (reset_reader\<lparr>rd_state := EAT_CRNL\<rparr>) (lines_keep (c # t))"
      unfolding csv_rows_def consumes_def by (metis append_Cons append_Nil list.distinct(1))
    then show ?thesis using eat Nil by simp
  next
    case (Cons d l')
    let ?r = "reset_reader\<lparr>rd_state := START_FIELD\<rparr>"
    have "\<not> is_newline d" using assms(1) Cons by (auto simp: plain_def is_newline_def)
    then have "csv_rows (l @ 13 # c # t) = rows_from ?r (lines_keep (l @ 13 # c # t))"
      using rows_from_first_char [of d "l' @ 13 # c # t"] by (simp add: Cons csv_rows_def)
    moreover obtain r' where r': "consumes ?r l r'" "in_row r'"
      using consumes_plain [of ?r l] assms(1) by (auto simp: plain_def in_row_def reset_reader_def)
    moreover have "consumes r' [13] (save_field r' EAT_CRNL)"
      using r'(2) by (intro consumes_char) (auto simp: in_row_def process_char.simps start_field_def is_newline_def)
    ultimately have "csv_rows (l @ 13 # c # t) = rows_from (save_field r' EAT_CRNL) (lines_keep (c # t))"
      unfolding consumes_def by (metis append_Cons append_Nil list.distinct(1))
    then show ?thesis using eat by (simp add: save_field_def)
  qed
qed

end
