(* ===== verification/Csv_Security.thy ===== *)
theory Csv_Security
  imports World Csv
begin

text \<open>
  The pre-upload scan, \<open>worker/src/csv_security.py\<close>: size limit, NUL bytes, UTF-8, formula
  prefixes, in that order. \<open>csv.Error\<close> is not caught, as in the code.
\<close>

definition formula_prefixes :: "nat list" where
  "formula_prefixes = [61, 43, 45, 64, 9, 13]"

text \<open>\<open>cell.startswith(_FORMULA_PREFIXES)\<close>\<close>

definition is_formula :: "pystr \<Rightarrow> bool" where
  "is_formula cell = (case cell of [] \<Rightarrow> False | c # _ \<Rightarrow> List.member formula_prefixes c)"

definition formula_issue :: "nat \<Rightarrow> nat \<Rightarrow> pystr" where
  "formula_issue row col = lit ''formula_injection:row='' @ show_nat row @ lit '',col='' @ show_nat col"

fun scan_row :: "nat \<Rightarrow> nat \<Rightarrow> pystr list \<Rightarrow> pystr list" where
  "scan_row r c [] = []"
| "scan_row r c (cell # cells) =
     (if is_formula cell then formula_issue r c # scan_row r (Suc c) cells else scan_row r (Suc c) cells)"

fun scan_rows :: "nat \<Rightarrow> pystr list list \<Rightarrow> pystr list" where
  "scan_rows r [] = []"
| "scan_rows r (row # rows) = scan_row r 1 row @ scan_rows (Suc r) rows"

definition scan_text :: "pystr \<Rightarrow> exn + pystr list" where
  "scan_text text = (case csv_rows text of
      (rows, None) \<Rightarrow> Inr (scan_rows 1 rows)
    | (rows, Some e) \<Rightarrow> Inl e)"

definition scan_raw :: "bytes \<Rightarrow> exn + pystr list" where
  "scan_raw raw =
     (if List.member raw 0 then Inr [lit ''binary_content:null_byte'']
      else (case utf8_decode raw of
          Inl e \<Rightarrow> Inr [lit ''invalid_encoding:'' @ utf8_reason e]
        | Inr text \<Rightarrow> scan_text text))"

definition too_large_issue :: "nat \<Rightarrow> int \<Rightarrow> pystr" where
  "too_large_issue n limit = lit ''file_too_large:'' @ show_nat n @ lit ''>'' @ show_int limit"

definition scan_csv_file :: "environ \<Rightarrow> settings \<Rightarrow> pystr \<Rightarrow> (world, pystr list) io" where
  "scan_csv_file E S path =
     bind_io (ask (\<lambda>h. getsize_reply E h path) (GetSize path)) (\<lambda>n.
     if max_csv_file_size_bytes S < int n then ret_io [too_large_issue n (max_csv_file_size_bytes S)]
     else bind_io (ask (\<lambda>h. read_reply E h path) (ReadFile path)) (\<lambda>raw. lift_sum (scan_raw raw)))"

section \<open>What the scan reports\<close>

lemma in_scan_row:
  "x \<in> set (scan_row r c cells) \<longleftrightarrow>
    (\<exists>j < length cells. is_formula (cells ! j) \<and> x = formula_issue r (c + j))"
  by (induction cells arbitrary: c) (auto simp: Ex_less_Suc2)

lemma in_scan_rows:
  "x \<in> set (scan_rows r rows) \<longleftrightarrow>
    (\<exists>i < length rows. \<exists>j < length (rows ! i).
       is_formula (rows ! i ! j) \<and> x = formula_issue (r + i) (Suc j))"
  by (induction rows arbitrary: r) (auto simp: Ex_less_Suc2 in_scan_row)

lemma scan_rows_Nil_iff: "scan_rows r rows = [] \<longleftrightarrow> (\<forall>row \<in> set rows. \<forall>c \<in> set row. \<not> is_formula c)"
proof -
  have row: "scan_row r c cells = [] \<longleftrightarrow> (\<forall>x \<in> set cells. \<not> is_formula x)" for r c cells
    by (induction cells arbitrary: c) auto
  show ?thesis by (induction rows arbitrary: r) (auto simp: row)
qed

end
