(* ===== verification/Uploader.thy ===== *)
theory Uploader
  imports World "HOL-Library.Multiset"
begin

text \<open>
  Concurrent upload to every destination, \<open>worker/src/uploader.py\<close>.

  \<open>asyncio.gather\<close> starts one task per destination, in order; each task takes a permit of
  the semaphore, runs the SDK call on a thread, waits for it under a deadline, and gives the permit back. When the
  deadline passes only the wait ends: the thread of \<open>asyncio.to_thread\<close> cannot be stopped, its SDK call goes on
  beside those that start with the freed permit, and \<open>asyncio.run\<close> (\<open>run_uploads\<close>) joins such threads at the end,
  for up to five minutes in Python 3.12. (A call counts as started when it is handed to the thread pool, which has
  at least five threads.)
  \<open>drive\<close> is that event loop: while a permit is free the next waiting task starts;
  otherwise the environment chooses which running task ends and how. A loop with tasks left and
  nothing running waits for ever (\<open>Hang\<close>). The results come back in the order of the
  destinations.
\<close>

record upload_result =
  res_provider :: pystr
  res_ok :: bool
  res_error :: "pystr option"

section \<open>One destination\<close>

definition upload_to_s3 :: "settings \<Rightarrow> destination \<Rightarrow> pystr \<Rightarrow> upload_call" where
  "upload_to_s3 S d path = S3Upload (s3_endpoint_url S) (s3_region S) (dst_bucket d) (dst_key d) path"

text \<open>\<open>if settings.gcs_endpoint_url\<close>: an empty URL counts as none.\<close>

definition gcs_client_endpoint :: "settings \<Rightarrow> pystr option" where
  "gcs_client_endpoint S = (case gcs_endpoint_url S of
      None \<Rightarrow> None
    | Some u \<Rightarrow> if u = [] then None else Some u)"

definition upload_to_gcs :: "settings \<Rightarrow> destination \<Rightarrow> pystr \<Rightarrow> upload_call" where
  "upload_to_gcs S d path = GcsUpload (gcp_project S) (gcs_client_endpoint S) (dst_bucket d) (dst_key d) path"

text \<open>\<open>_UPLOADERS.get(destination.provider)\<close>\<close>

definition uploader_for :: "settings \<Rightarrow> destination \<Rightarrow> pystr \<Rightarrow> upload_call option" where
  "uploader_for S d path =
     (if dst_provider d = lit ''aws-s3'' then Some (upload_to_s3 S d path)
      else if dst_provider d = lit ''gcp-gcs'' then Some (upload_to_gcs S d path)
      else None)"

definition upload_failure :: "destination \<Rightarrow> pystr \<Rightarrow> upload_result" where
  "upload_failure d err = \<lparr>res_provider = dst_provider d, res_ok = False, res_error = Some err\<rparr>"

definition unsupported_provider :: "destination \<Rightarrow> upload_result" where
  "unsupported_provider d = upload_failure d (lit ''unsupported_provider:'' @ dst_provider d)"

text \<open>
  The result of a supported upload. A \<open>TimeoutError\<close> raised by the SDK call itself takes the
  same \<open>except\<close> clause as an expired deadline.
\<close>

fun classify :: "destination \<Rightarrow> upload_outcome \<Rightarrow> upload_result" where
  "classify d UploadReturned = \<lparr>res_provider = dst_provider d, res_ok = True, res_error = None\<rparr>"
| "classify d DeadlineExceeded = upload_failure d (dst_provider d @ lit '':upload_timeout'')"
| "classify d (UploadRaised e) =
     (if isinstance e TimeoutError then upload_failure d (dst_provider d @ lit '':upload_timeout'')
      else upload_failure d (dst_provider d @ lit '':'' @ exc_name e))"

text \<open>What is seen of the end of a wait.\<close>

fun wait_end :: "upload_call \<Rightarrow> upload_outcome \<Rightarrow> action" where
  "wait_end c DeadlineExceeded = UploadTimeout c"
| "wait_end c out = UploadEnd c out"

lemma wait_end_inject [simp]: "wait_end c out = wait_end c' out' \<longleftrightarrow> c = c' \<and> out = out'"
  by (cases out; cases out') auto

lemma wait_end_other [simp]: "wait_end c out \<noteq> UploadStart c'" "wait_end c out \<noteq> JoinThreads cs b"
  by (cases out; simp)+

text \<open>The two halves of \<open>_upload_one\<close>: up to the start of the thread, and after the end of the wait.\<close>

definition start_one :: "settings \<Rightarrow> pystr \<Rightarrow> destination \<Rightarrow> (world, unit) io" where
  "start_one S path d = (case uploader_for S d path of
      None \<Rightarrow> ret_io ()
    | Some c \<Rightarrow> modify_io (add_action (UploadStart c)))"

definition finish_one :: "environ \<Rightarrow> settings \<Rightarrow> pystr \<Rightarrow> destination \<Rightarrow> (world, upload_result) io" where
  "finish_one E S path d = (case uploader_for S d path of
      None \<Rightarrow> ret_io (unsupported_provider d)
    | Some c \<Rightarrow>
        bind_io (get_io (\<lambda>w. upload_reply E (history w) c)) (\<lambda>out.
        bind_io (modify_io (add_action (wait_end c out))) (\<lambda>_.
        bind_io (inc_uploads (dst_provider d) (if out = UploadReturned then ''success'' else ''error'')) (\<lambda>_.
        bind_io (observe_duration (dst_provider d)) (\<lambda>_.
        ret_io (classify d out))))))"

section \<open>The event loop\<close>

type_synonym results = "nat \<Rightarrow> upload_result option"

function drive :: "environ \<Rightarrow> settings \<Rightarrow> pystr \<Rightarrow> destination list \<Rightarrow> nat \<Rightarrow> nat list \<Rightarrow> nat list
    \<Rightarrow> results \<Rightarrow> (world, results) io" where
  "drive E S path ds k waiting running res =
     (if waiting \<noteq> [] \<and> length running < k
      then bind_io (start_one S path (ds ! hd waiting)) (\<lambda>_.
           drive E S path ds k (tl waiting) (running @ [hd waiting]) res)
      else if running \<noteq> []
      then (\<lambda>w. let n = upload_next E (history w) mod length running; j = running ! n
            in bind_io (finish_one E S path (ds ! j)) (\<lambda>r.
               drive E S path ds k waiting (take n running @ drop (Suc n) running) (res(j \<mapsto> r))) w)
      else if waiting = [] then ret_io res
      else hang_io)"
  by pat_completeness auto
termination
  by (relation "measure (\<lambda>(E, S, path, ds, k, waiting, running, res). 2 * length waiting + length running)")
    (auto simp: neq_Nil_conv)

declare drive.simps [simp del]

definition upload_all :: "environ \<Rightarrow> settings \<Rightarrow> transfer_event \<Rightarrow> pystr \<Rightarrow> (world, upload_result list) io" where
  "upload_all E S e path =
     (if upload_max_concurrency S < 0
      then raise_io (value_error ''Semaphore initial value must be >= 0'')
      else bind_io (drive E S path (destinations e) (nat (upload_max_concurrency S))
             [0..<length (destinations e)] [] (\<lambda>_. None))
           (\<lambda>res. ret_io (map (\<lambda>i. the (res i)) [0..<length (destinations e)])))"

section \<open>The threads at the end\<close>

fun started_calls :: "action list \<Rightarrow> upload_call list" where
  "started_calls [] = []"
| "started_calls (UploadStart c # h) = c # started_calls h"
| "started_calls (_ # h) = started_calls h"

fun ended_calls :: "action list \<Rightarrow> upload_call list" where
  "ended_calls [] = []"
| "ended_calls (UploadEnd c out # h) = c # ended_calls h"
| "ended_calls (_ # h) = ended_calls h"

fun timed_out_calls :: "action list \<Rightarrow> upload_call list" where
  "timed_out_calls [] = []"
| "timed_out_calls (UploadTimeout c # h) = c # timed_out_calls h"
| "timed_out_calls (_ # h) = timed_out_calls h"

text \<open>
  \<open>asyncio.run\<close>: when the coroutine has ended, the shutdown of the loop's thread pool waits for the SDK calls that
  outlived their deadlines, until all have ended or five minutes are over; the result is the same in both cases.
\<close>

definition join_actions :: "environ \<Rightarrow> action list \<Rightarrow> action list \<Rightarrow> action list" where
  "join_actions E h new = (case timed_out_calls new of
      [] \<Rightarrow> []
    | c # cs \<Rightarrow> [JoinThreads (c # cs) (join_reply E h (c # cs))])"

definition asyncio_run :: "environ \<Rightarrow> (world, 'a) io \<Rightarrow> (world, 'a) io" where
  "asyncio_run E m w = (case m w of
      (Hang, w') \<Rightarrow> (Hang, w')
    | (r, w') \<Rightarrow> (r, w'\<lparr>history := history w' @ join_actions E (history w') (new_actions w w')\<rparr>))"

definition run_uploads :: "environ \<Rightarrow> settings \<Rightarrow> transfer_event \<Rightarrow> pystr \<Rightarrow> (world, upload_result list) io" where
  "run_uploads E S e path = asyncio_run E (upload_all E S e path)"

section \<open>The loop as a step relation\<close>

text \<open>
  What a run of the loop may do, without the environment's choices: start the next waiting task
  while a permit is free, or end any running one when none can start. \<open>drive\<close> is such a
  run for every environment (\<open>drive_is_run\<close>), so the properties of the loop are rule
  inductions over \<open>loop_run\<close>.
\<close>

definition start_actions :: "settings \<Rightarrow> pystr \<Rightarrow> destination \<Rightarrow> action list" where
  "start_actions S path d = (case uploader_for S d path of None \<Rightarrow> [] | Some c \<Rightarrow> [UploadStart c])"

definition end_actions :: "settings \<Rightarrow> pystr \<Rightarrow> destination \<Rightarrow> upload_outcome \<Rightarrow> action list" where
  "end_actions S path d out = (case uploader_for S d path of None \<Rightarrow> [] | Some c \<Rightarrow> [wait_end c out])"

definition result_of :: "settings \<Rightarrow> pystr \<Rightarrow> destination \<Rightarrow> upload_outcome \<Rightarrow> upload_result" where
  "result_of S path d out =
     (case uploader_for S d path of None \<Rightarrow> unsupported_provider d | Some _ \<Rightarrow> classify d out)"

inductive loop_run :: "settings \<Rightarrow> pystr \<Rightarrow> destination list \<Rightarrow> nat \<Rightarrow>
    nat list \<Rightarrow> nat list \<Rightarrow> action list \<Rightarrow> results \<Rightarrow> results \<Rightarrow> bool"
  for S path ds k where
  loop_end: "loop_run S path ds k [] [] [] res res"
| loop_start: "length running < k \<Longrightarrow> loop_run S path ds k waiting (running @ [i]) h res res' \<Longrightarrow>
    loop_run S path ds k (i # waiting) running (start_actions S path (ds ! i) @ h) res res'"
| loop_finish: "waiting = [] \<or> k \<le> length (a @ j # b) \<Longrightarrow>
    loop_run S path ds k waiting (a @ b) h (res(j \<mapsto> result_of S path (ds ! j) out)) res' \<Longrightarrow>
    loop_run S path ds k waiting (a @ j # b) (end_actions S path (ds ! j) out @ h) res res'"

lemma start_one_run:
  "\<exists>w'. start_one S path d w = (Return (), w') \<and> history w' = history w @ start_actions S path d
    \<and> table w' = table w \<and> counters w' = counters w"
  by (simp add: start_one_def start_actions_def io_defs split: option.splits)

lemma finish_one_run:
  "\<exists>out w'. finish_one E S path d w = (Return (result_of S path d out), w')
    \<and> history w' = history w @ end_actions S path d out \<and> table w' = table w
    \<and> EVENTS_CONSUMED_TOTAL (counters w') = EVENTS_CONSUMED_TOTAL (counters w)
    \<and> DLQ_MESSAGES_TOTAL (counters w') = DLQ_MESSAGES_TOTAL (counters w)
    \<and> IDEMPOTENCY_HITS_TOTAL (counters w') = IDEMPOTENCY_HITS_TOTAL (counters w)"
  by (auto simp: finish_one_def end_actions_def result_of_def io_defs ret_io_def inc_defs split: option.splits)

text \<open>What an upload phase leaves alone: the table and the consumer's counters.\<close>

definition same_books :: "world \<Rightarrow> world \<Rightarrow> bool" where
  "same_books w w' \<longleftrightarrow> table w' = table w
     \<and> EVENTS_CONSUMED_TOTAL (counters w') = EVENTS_CONSUMED_TOTAL (counters w)
     \<and> DLQ_MESSAGES_TOTAL (counters w') = DLQ_MESSAGES_TOTAL (counters w)
     \<and> IDEMPOTENCY_HITS_TOTAL (counters w') = IDEMPOTENCY_HITS_TOTAL (counters w)"

text \<open>The scheduler reaches this end, and its actions are a run.\<close>

definition drives :: "environ \<Rightarrow> settings \<Rightarrow> pystr \<Rightarrow> destination list \<Rightarrow> nat \<Rightarrow> nat list \<Rightarrow> nat list \<Rightarrow> results \<Rightarrow> world \<Rightarrow> bool" where
  "drives E S path ds k waiting running res w \<longleftrightarrow> (\<exists>res' h w'. drive E S path ds k waiting running res w = (Return res', w')
    \<and> history w' = history w @ h \<and> same_books w w' \<and> loop_run S path ds k waiting running h res res')"

lemma drives_start:
  assumes "length running < k" and "start_one S path (ds ! i) w = (Return (), w1)"
    and next1: "drives E S path ds k waiting (running @ [i]) res w1"
  shows "drives E S path ds k (i # waiting) running res w"
proof -
  have w1: "history w1 = history w @ start_actions S path (ds ! i)" "table w1 = table w" "counters w1 = counters w"
    using start_one_run [of S path "ds ! i" w] assms(2) by auto
  obtain res' h w' where IH: "drive E S path ds k waiting (running @ [i]) res w1 = (Return res', w')"
      "history w' = history w1 @ h" "same_books w1 w'" "loop_run S path ds k waiting (running @ [i]) h res res'"
    using next1 unfolding drives_def by blast
  have "drive E S path ds k (i # waiting) running res w = (Return res', w')"
    using assms(1,2) IH(1) by (subst drive.simps) (simp add: bind_io_def)
  moreover have "loop_run S path ds k (i # waiting) running (start_actions S path (ds ! i) @ h) res res'"
    using assms(1) IH(4) by (rule loop_start)
  ultimately show ?thesis using IH w1 by (auto simp: drives_def same_books_def)
qed

lemma drives_finish:
  assumes busy: "\<not> (waiting \<noteq> [] \<and> length running < k)" "running \<noteq> []"
    and n: "n = upload_next E (history w) mod length running"
    and abj: "a = take n running" "b = drop (Suc n) running" "j = running ! n"
    and f: "finish_one E S path (ds ! j) w = (Return (result_of S path (ds ! j) out), w1)"
      "history w1 = history w @ end_actions S path (ds ! j) out" "same_books w w1"
    and next1: "drives E S path ds k waiting (a @ b) (res(j \<mapsto> result_of S path (ds ! j) out)) w1"
  shows "drives E S path ds k waiting running res w"
proof -
  let ?res = "res(j \<mapsto> result_of S path (ds ! j) out)"
  have "n < length running" using busy(2) by (simp add: n)
  then have r: "running = a @ j # b" by (simp add: abj id_take_nth_drop)
  obtain res' h w' where IH: "drive E S path ds k waiting (a @ b) ?res w1 = (Return res', w')"
      "history w' = history w1 @ h" "same_books w1 w'" "loop_run S path ds k waiting (a @ b) h ?res res'"
    using next1 unfolding drives_def by blast
  have "drive E S path ds k waiting running res w = (Return res', w')"
    using busy IH(1) f(1) by (subst drive.simps) (auto simp: bind_io_def abj n Let_def)
  moreover have "loop_run S path ds k waiting running (end_actions S path (ds ! j) out @ h) res res'"
    unfolding r using busy IH(4) by (intro loop_finish) (auto simp: r)
  ultimately show ?thesis using IH f by (auto simp: drives_def same_books_def)
qed

lemma drive_drives:
  assumes "0 < k"
  shows "drives E S path ds k waiting running res w"
  using assms
proof (induction E S path ds k waiting running res arbitrary: w rule: drive.induct)
  case (1 E S path ds k waiting running res w)
  consider (start) "waiting \<noteq> []" "length running < k"
    | (finish) "\<not> (waiting \<noteq> [] \<and> length running < k)" "running \<noteq> []"
    | (stop) "running = []" "waiting = []"
    using "1.prems" by (cases "running = []"; cases "waiting = []"; cases "length running < k") auto
  then show ?case
  proof cases
    case start
    then obtain i waiting' where w: "waiting = i # waiting'" by (cases waiting) auto
    obtain w1 where s: "start_one S path (ds ! i) w = (Return (), w1)" using start_one_run by blast
    have "drives E S path ds k waiting' (running @ [i]) res w1"
      using "1.IH"(1) [OF conjI [OF start] "1.prems", of w1] by (simp add: w)
    then show ?thesis unfolding w by (rule drives_start [of _ _ _ _ _ _ w, OF start(2) s])
  next
    case finish
    define n where "n = upload_next E (history w) mod length running"
    obtain out w1 where f: "finish_one E S path (ds ! (running ! n)) w = (Return (result_of S path (ds ! (running ! n)) out), w1)"
      "history w1 = history w @ end_actions S path (ds ! (running ! n)) out" "same_books w w1"
      using finish_one_run unfolding same_books_def by blast
    show ?thesis
      by (rule drives_finish [OF finish n_def refl refl refl f "1.IH"(2) [OF finish n_def refl "1.prems"]])
  next
    case stop
    then show ?thesis
      unfolding drives_def by (subst drive.simps) (auto simp: ret_io_def same_books_def intro: loop_end)
  qed
qed

lemma drive_is_run:
  assumes "0 < k"
  shows "\<exists>res' h w'. drive E S path ds k waiting running res w = (Return res', w')
    \<and> history w' = history w @ h \<and> same_books w w' \<and> loop_run S path ds k waiting running h res res'"
  using drive_drives [OF assms] unfolding drives_def .

inductive_cases loop_run_idle: "loop_run S path ds k [] [] h res res'"

section \<open>What a run of the loop does\<close>

lemma started_append [simp]: "started_calls (g @ h) = started_calls g @ started_calls h"
  by (induction g rule: started_calls.induct) simp_all

lemma ended_append [simp]: "ended_calls (g @ h) = ended_calls g @ ended_calls h"
  by (induction g rule: ended_calls.induct) simp_all

lemma timed_out_append [simp]: "timed_out_calls (g @ h) = timed_out_calls g @ timed_out_calls h"
  by (induction g rule: timed_out_calls.induct) simp_all

text \<open>The calls that are no longer waited for, and those among the threads' ends.\<close>

definition awaited_calls :: "action list \<Rightarrow> upload_call multiset" where
  "awaited_calls h = mset (ended_calls h) + mset (timed_out_calls h)"

lemma awaited_simps [simp]: "awaited_calls [] = {#}" "awaited_calls (g @ h) = awaited_calls g + awaited_calls h"
  by (simp_all add: awaited_calls_def)

lemma join_actions_calls [simp]: "started_calls (join_actions E g h) = []" "ended_calls (join_actions E g h) = []"
    "timed_out_calls (join_actions E g h) = []" "awaited_calls (join_actions E g h) = {#}"
  by (simp_all add: join_actions_def awaited_calls_def split: list.split)

definition calls_of :: "settings \<Rightarrow> pystr \<Rightarrow> destination list \<Rightarrow> nat list \<Rightarrow> upload_call list" where
  "calls_of S path ds is = List.map_filter (\<lambda>i. uploader_for S (ds ! i) path) is"

lemma calls_of_simps [simp]:
  "calls_of S path ds [] = []"
  "calls_of S path ds (is @ js) = calls_of S path ds is @ calls_of S path ds js"
  "calls_of S path ds (i # is) = (case uploader_for S (ds ! i) path of None \<Rightarrow> [] | Some c \<Rightarrow> [c]) @ calls_of S path ds is"
  by (simp_all add: calls_of_def List.map_filter_def split: option.splits)

lemma step_calls [simp]:
  "started_calls (start_actions S path (ds ! i)) = calls_of S path ds [i]"
  "awaited_calls (start_actions S path (ds ! i)) = {#}"
  "started_calls (end_actions S path (ds ! i) out) = []"
  "awaited_calls (end_actions S path (ds ! i) out) = mset (calls_of S path ds [i])"
  by (cases out; simp add: start_actions_def end_actions_def awaited_calls_def split: option.splits)+

text \<open>Every upload is started once and waited for once.\<close>

lemma loop_run_calls:
  "loop_run S path ds k waiting running h res res' \<Longrightarrow>
    mset (started_calls h) = mset (calls_of S path ds waiting) \<and>
    awaited_calls h = mset (calls_of S path ds (waiting @ running))"
  by (induction rule: loop_run.induct) auto

text \<open>
  Every task has a result; it is the one its own outcome calls for, and the outcome is on record.
\<close>

definition recorded :: "settings \<Rightarrow> pystr \<Rightarrow> destination \<Rightarrow> action list \<Rightarrow> upload_result \<Rightarrow> bool" where
  "recorded S path d h r \<longleftrightarrow>
     (\<exists>out. r = result_of S path d out \<and> set (end_actions S path d out) \<subseteq> set h)"

lemma recorded_mono: "recorded S path d h r \<Longrightarrow> recorded S path d (g @ h) r"
  by (auto simp: recorded_def)

definition has_result :: "settings \<Rightarrow> pystr \<Rightarrow> destination list \<Rightarrow> action list \<Rightarrow> results \<Rightarrow> nat \<Rightarrow> bool" where
  "has_result S path ds h res i \<longleftrightarrow> (\<exists>r. res i = Some r \<and> recorded S path (ds ! i) h r)"

lemma has_result_mono: "has_result S path ds h res i \<Longrightarrow> has_result S path ds (g @ h) res i"
  by (auto simp: has_result_def intro: recorded_mono)

lemma loop_run_results:
  "loop_run S path ds k waiting running h res res' \<Longrightarrow> distinct (waiting @ running) \<Longrightarrow>
    (\<forall>i. i \<notin> set (waiting @ running) \<longrightarrow> res' i = res i) \<and>
    (\<forall>i \<in> set (waiting @ running). has_result S path ds h res' i)"
proof (induction rule: loop_run.induct)
  case (loop_end res)
  then show ?case by simp
next
  case (loop_start running waiting i h res res')
  then show ?case by (auto intro: has_result_mono)
next
  case (loop_finish waiting a j b h res out res')
  have "recorded S path (ds ! j) (end_actions S path (ds ! j) out @ h) (result_of S path (ds ! j) out)"
    by (auto simp: recorded_def)
  moreover have "res' j = Some (result_of S path (ds ! j) out)"
    using loop_finish by auto
  ultimately have "has_result S path ds (end_actions S path (ds ! j) out @ h) res' j"
    by (simp add: has_result_def)
  with loop_finish show ?case by (auto intro: has_result_mono)
qed

text \<open>
  The semaphore: after any part of the run, the uploads that have started and are still waited for are at
  most \<open>k\<close>.
\<close>

lemma prefix_append_cases:
  "p @ s = g @ h \<Longrightarrow> (\<exists>q. p = g @ q \<and> h = q @ s) \<or> (\<exists>q. g = p @ q \<and> q \<noteq> [])"
  by (auto simp: append_eq_append_conv2)

lemma loop_run_bound:
  "loop_run S path ds k waiting running h res res' \<Longrightarrow> length running \<le> k \<Longrightarrow> h = p @ s \<Longrightarrow>
    length (started_calls p) + length (calls_of S path ds running) \<le> size (awaited_calls p) + k"
proof (induction arbitrary: p s rule: loop_run.induct)
  case (loop_end res)
  then show ?case by simp
next
  case (loop_start running waiting i h res res')
  have len: "length (calls_of S path ds running) \<le> length running" for running
    by (induction running) (auto split: option.splits)
  from prefix_append_cases [OF loop_start.prems(2) [symmetric]] show ?case
  proof
    assume "\<exists>q. p = start_actions S path (ds ! i) @ q \<and> h = q @ s"
    then obtain q where "p = start_actions S path (ds ! i) @ q" "h = q @ s" by blast
    then show ?thesis using loop_start.IH [of q s] loop_start.hyps(1) by simp
  next
    assume "\<exists>q. start_actions S path (ds ! i) = p @ q \<and> q \<noteq> []"
    then have "p = []" by (auto simp: start_actions_def Cons_eq_append_conv split: option.splits)
    then show ?thesis using len [of running] loop_start.prems(1) by simp
  qed
next
  case (loop_finish waiting a j b h res out res')
  have len: "length (calls_of S path ds running) \<le> length running" for running
    by (induction running) (auto split: option.splits)
  from prefix_append_cases [OF loop_finish.prems(2) [symmetric]] show ?case
  proof
    assume "\<exists>q. p = end_actions S path (ds ! j) out @ q \<and> h = q @ s"
    then obtain q where "p = end_actions S path (ds ! j) out @ q" "h = q @ s" by blast
    then show ?thesis using loop_finish.IH [of q s] loop_finish.prems(1) by simp
  next
    assume "\<exists>q. end_actions S path (ds ! j) out = p @ q \<and> q \<noteq> []"
    then have "p = []" by (auto simp: end_actions_def Cons_eq_append_conv split: option.splits)
    then show ?thesis using len [of "a @ j # b"] loop_finish.prems(1) by simp
  qed
qed

lemma loop_run_only_uploads:
  "loop_run S path ds k waiting running h res res' \<Longrightarrow> x \<in> set h \<Longrightarrow>
    (\<exists>c. x = UploadStart c) \<or> (\<exists>c out. x = wait_end c out)"
  by (induction rule: loop_run.induct)
    (auto simp: start_actions_def end_actions_def split: option.splits)

section \<open>All destinations of an event\<close>

text \<open>
  The report of an upload phase: what it put into the history (\<open>h\<close>) and the results it
  returned, for the destinations \<open>ds\<close> and \<open>k\<close> permits.
\<close>

fun upload_action :: "action \<Rightarrow> bool" where
  "upload_action (UploadStart c) \<longleftrightarrow> True"
| "upload_action (UploadEnd c out) \<longleftrightarrow> True"
| "upload_action (UploadTimeout c) \<longleftrightarrow> True"
| "upload_action (JoinThreads cs b) \<longleftrightarrow> True"
| "upload_action _ \<longleftrightarrow> False"

lemma upload_action_wait [simp]: "upload_action (wait_end c out)"
  by (cases out) simp_all

definition joined :: "action list \<Rightarrow> bool" where
  "joined h \<longleftrightarrow> (\<exists>g b. h = g @ (if timed_out_calls g = [] then [] else [JoinThreads (timed_out_calls g) b])
     \<and> (\<forall>x \<in> set g. (\<exists>c. x = UploadStart c) \<or> (\<exists>c out. x = wait_end c out)))"

definition upload_report ::
  "settings \<Rightarrow> pystr \<Rightarrow> destination list \<Rightarrow> nat \<Rightarrow> action list \<Rightarrow> upload_result list \<Rightarrow> bool" where
  "upload_report S path ds k h rs \<longleftrightarrow>
     length rs = length ds
     \<and> (\<forall>i < length ds. recorded S path (ds ! i) h (rs ! i))
     \<and> mset (started_calls h) = mset (calls_of S path ds [0..<length ds])
     \<and> awaited_calls h = mset (calls_of S path ds [0..<length ds])
     \<and> (\<forall>p s. h = p @ s \<longrightarrow> length (started_calls p) \<le> size (awaited_calls p) + k)
     \<and> joined h \<and> (\<forall>x \<in> set h. upload_action x)"

lemma recorded_append: "recorded S path d h r \<Longrightarrow> recorded S path d (h @ g) r"
  by (auto simp: recorded_def)

text \<open>The shutdown adds at most the join.\<close>

lemma asyncio_run_Return:
  assumes "m w = (Return x, w')" and "history w' = history w @ h"
  shows "\<exists>v. asyncio_run E m w = (Return x, v) \<and> history v = history w @ h @ join_actions E (history w @ h) h
    \<and> table v = table w' \<and> counters v = counters w' \<and> readiness v = readiness w'"
  using assms by (simp add: asyncio_run_def new_actions_append)

lemma run_uploads_report:
  assumes "0 < upload_max_concurrency S"
  shows "\<exists>rs h w'. run_uploads E S e path w = (Return rs, w') \<and> history w' = history w @ h
    \<and> same_books w w' \<and> upload_report S path (destinations e) (nat (upload_max_concurrency S)) h rs"
proof -
  define ds k where "ds = destinations e" "k = nat (upload_max_concurrency S)"
  have "0 < k" using assms by (simp add: ds_k_def)
  then obtain res' h w' where d: "drive E S path ds k [0..<length ds] [] (\<lambda>_. None) w = (Return res', w')"
      "history w' = history w @ h" "same_books w w'"
    and run: "loop_run S path ds k [0..<length ds] [] h (\<lambda>_. None) res'"
    using drive_is_run by blast
  define rs where "rs = map (\<lambda>i. the (res' i)) [0..<length ds]"
  define j where "j = join_actions E (history w @ h) h"
  have "recorded S path (ds ! i) (h @ j) (rs ! i)" if "i < length ds" for i
  proof -
    have "has_result S path ds h res' i" using loop_run_results [OF run] that by simp
    then show ?thesis using that recorded_append by (auto simp: has_result_def rs_def)
  qed
  moreover have "length (started_calls p) \<le> size (awaited_calls p) + k" if "h @ j = p @ s" for p s
    using prefix_append_cases [OF that [symmetric]]
  proof
    assume "\<exists>q. p = h @ q \<and> j = q @ s"
    then obtain q where q: "p = h @ q" "j = q @ s" by blast
    have "started_calls (q @ s) = []" unfolding q(2) [symmetric] j_def by (rule join_actions_calls)
    then have "started_calls q = []" by simp
    then show ?thesis using loop_run_bound [OF run, of h "[]"] by (simp add: q(1))
  next
    assume "\<exists>q. h = p @ q \<and> q \<noteq> []"
    then show ?thesis using loop_run_bound [OF run] by fastforce
  qed
  moreover have "joined (h @ j)"
    unfolding joined_def j_def join_actions_def using loop_run_only_uploads [OF run]
    by (intro exI [of _ h] exI [of _ "join_reply E (history w @ h) (timed_out_calls h)"]) (auto split: list.split)
  moreover have "\<forall>x \<in> set h. upload_action x" using loop_run_only_uploads [OF run] by force
  then have "\<forall>x \<in> set (h @ j). upload_action x" by (auto simp: j_def join_actions_def split: list.splits)
  ultimately have "upload_report S path ds k (h @ j) rs"
    using loop_run_calls [OF run] by (simp add: upload_report_def rs_def j_def)
  moreover have "upload_all E S e path w = (Return rs, w')"
    using assms d(1) by (simp add: upload_all_def bind_io_def ret_io_def rs_def ds_k_def)
  from asyncio_run_Return [where m = "upload_all E S e path" and E = E, OF this d(2)] obtain v where "run_uploads E S e path w = (Return rs, v)"
    "history v = history w @ h @ j" "same_books w v"
    using d(3) by (auto simp: run_uploads_def j_def same_books_def)
  ultimately show ?thesis by (intro exI [of _ rs] exI [of _ "h @ j"] exI [of _ v]) (simp add: ds_k_def)
qed

text \<open>With no permit the loop never moves, and a negative count is refused.\<close>

lemma run_uploads_no_permit:
  assumes "upload_max_concurrency S = 0" and "destinations e \<noteq> []"
  shows "run_uploads E S e path w = (Hang, w)"
  unfolding run_uploads_def asyncio_run_def using assms
  by (subst upload_all_def) (simp add: drive.simps bind_io_def hang_io_def)

lemma run_uploads_nothing:
  assumes "upload_max_concurrency S = 0" and "destinations e = []"
  shows "run_uploads E S e path w = (Return [], w)"
  unfolding run_uploads_def asyncio_run_def using assms
  by (subst upload_all_def) (simp add: drive.simps bind_io_def ret_io_def new_actions_def join_actions_def)

lemma run_uploads_negative:
  assumes "upload_max_concurrency S < 0"
  shows "run_uploads E S e path w = (Raise (value_error ''Semaphore initial value must be >= 0''), w)"
  using assms by (simp add: run_uploads_def asyncio_run_def upload_all_def raise_io_def new_actions_def join_actions_def)

text \<open>Every recorded end of an upload is an answer of the environment.\<close>

definition answered :: "environ \<Rightarrow> world \<Rightarrow> world \<Rightarrow> bool" where
  "answered E w w' \<longleftrightarrow> (\<exists>h. history w' = history w @ h
     \<and> (\<forall>c out. wait_end c out \<in> set h \<longrightarrow> (\<exists>g. upload_reply E g c = out)))"

lemma preorder_answered: "preorder_rel (answered E)"
  unfolding preorder_rel_def
proof (intro conjI allI impI)
  fix s t u
  assume "answered E s t" "answered E t u"
  then obtain g h where "history t = history s @ g" "history u = history t @ h"
    "\<forall>c out. wait_end c out \<in> set (g @ h) \<longrightarrow> (\<exists>g. upload_reply E g c = out)"
    unfolding answered_def by fastforce
  then show "answered E s u" unfolding answered_def by (intro exI [of _ "g @ h"]) simp
qed (simp add: answered_def)

lemma keeps_if: "(b \<Longrightarrow> keeps R m) \<Longrightarrow> (\<not> b \<Longrightarrow> keeps R n) \<Longrightarrow> keeps R (if b then m else n)"
  by simp

lemma answered_start: "keeps (answered E) (start_one S path d)"
  by (auto simp: keeps_def start_one_def answered_def io_defs split: option.splits)

lemma answered_finish: "keeps (answered E) (finish_one E S path d)"
  by (auto simp: keeps_def finish_one_def answered_def io_defs inc_defs split: option.splits)

lemma answered_drive: "keeps (answered E) (drive E S path ds k waiting running res)"
proof (induction E S path ds k waiting running res rule: drive.induct)
  case (1 E S path ds k waiting running res)
  note bind = keeps_bind [OF preorder_answered]
  show ?case
    unfolding drive.simps [of E S path ds k waiting running res]
  proof (intro keeps_if)
    assume a: "waiting \<noteq> [] \<and> length running < k"
    show "keeps (answered E) (bind_io (start_one S path (ds ! hd waiting)) (\<lambda>_.
        drive E S path ds k (tl waiting) (running @ [hd waiting]) res))"
      by (rule bind [OF answered_start "1.IH"(1) [OF a]])
  next
    assume a: "\<not> (waiting \<noteq> [] \<and> length running < k)" "running \<noteq> []"
    show "keeps (answered E) (\<lambda>w. let n = upload_next E (history w) mod length running; j = running ! n
            in bind_io (finish_one E S path (ds ! j)) (\<lambda>r.
               drive E S path ds k waiting (take n running @ drop (Suc n) running) (res(j \<mapsto> r))) w)"
    proof (rule keepsI)
      fix w :: world
      define n where "n = upload_next E (history w) mod length running"
      have "keeps (answered E) (bind_io (finish_one E S path (ds ! (running ! n))) (\<lambda>r.
          drive E S path ds k waiting (take n running @ drop (Suc n) running) (res(running ! n \<mapsto> r))))"
        by (rule bind [OF answered_finish], rule "1.IH"(2) [OF a n_def], rule refl)
      then show "answered E w (snd (let n = upload_next E (history w) mod length running; j = running ! n
            in bind_io (finish_one E S path (ds ! j)) (\<lambda>r.
               drive E S path ds k waiting (take n running @ drop (Suc n) running) (res(j \<mapsto> r))) w))"
        by (simp add: keeps_def n_def Let_def)
    qed
  next
    show "keeps (answered E) (ret_io res)" by (rule keeps_ret [OF preorder_answered])
    show "keeps (answered E) (hang_io :: (world, results) io)" by (simp add: keeps_def hang_io_def answered_def)
  qed
qed

lemma answered_upload_all: "keeps (answered E) (upload_all E S e path)"
  unfolding upload_all_def
  by (intro keeps_if keeps_raise keeps_bind keeps_ret preorder_answered answered_drive)

lemma answered_run_uploads: "keeps (answered E) (run_uploads E S e path)"
proof (rule keepsI)
  fix w :: world
  obtain r w' where m: "upload_all E S e path w = (r, w')" by fastforce
  have "wait_end c out \<notin> set (join_actions E g h)" for c out g h
    by (auto simp: join_actions_def split: list.splits)
  moreover have "answered E w w'" using keepsD [OF answered_upload_all m] .
  ultimately show "answered E w (snd (run_uploads E S e path w))"
    by (cases r) (auto simp: run_uploads_def asyncio_run_def m answered_def)
qed

end
