(* ===== verification/Consumer.thy ===== *)
theory Consumer
  imports Idempotency Publisher Csv_Security Uploader
begin

text \<open>
  The consumer, \<open>worker/src/consumer.py\<close>: one message at a time through validation, version
  gate, duplicate check, source-file check, CSV scan, upload, and then success, retry or
  dead-letter queue; and the loop that feeds it. \<open>handle\<close> has the code's statements in the
  code's order; an exception leaves the remaining ones out.
\<close>

record consumer =
  con_channel :: nat
  con_publisher :: publisher
  con_settings :: settings

definition mk_consumer :: "environ \<Rightarrow> nat \<Rightarrow> publisher \<Rightarrow> settings \<Rightarrow> (world, consumer) io" where
  "mk_consumer E ch pb S =
     (let n = max 1 (upload_max_concurrency S)
      in bind_io (call (\<lambda>h. qos_reply E h ch n) (Qos ch n) (QosFailed ch))
           (\<lambda>_. ret_io \<lparr>con_channel = ch, con_publisher = pb, con_settings = S\<rparr>))"

text \<open>
  The consumer the worker runs: \<open>connect_and_setup\<close> puts the publisher and the consumer on one
  channel, with the same settings.
\<close>

definition worker_consumer :: "nat \<Rightarrow> settings \<Rightarrow> consumer" where
  "worker_consumer ch S = \<lparr>con_channel = ch, con_publisher = \<lparr>pub_channel = ch, pub_settings = S\<rparr>, con_settings = S\<rparr>"

text \<open>\<open>int((settings.retry_backoff_base**attempt) * 1000)\<close>\<close>

definition backoff_delay_ms :: "environ \<Rightarrow> settings \<Rightarrow> int \<Rightarrow> exn + int" where
  "backoff_delay_ms E S n = bind_sum (c_pow E (retry_backoff_base S) n) (\<lambda>x. float_to_int (fmul x (Finite 1000)))"

definition basic_ack :: "environ \<Rightarrow> nat \<Rightarrow> nat \<Rightarrow> (world, unit) io" where
  "basic_ack E ch tag = call (\<lambda>h. ack_reply E h ch tag) (Acked ch tag) (AckFailed ch tag)"

definition raw_publication :: "settings \<Rightarrow> bytes \<Rightarrow> properties \<Rightarrow> string \<Rightarrow> publication" where
  "raw_publication S body props reason = \<lparr>
     pub_exchange = [],
     routing_key = dlq_name S,
     pub_body = body,
     pub_props = \<lparr>
       content_type = (case content_type props of
           None \<Rightarrow> Some (lit ''application/octet-stream'')
         | Some t \<Rightarrow> if t = [] then Some (lit ''application/octet-stream'') else Some t),
       persistent = True, message_id = None, prop_correlation_id = None, expiration = None,
       headers = Some [(lit ''x-dlq-reason'', lit reason)]\<rparr>,
     mandatory = True\<rparr>"

definition dead_letter_raw :: "environ \<Rightarrow> consumer \<Rightarrow> bytes \<Rightarrow> properties \<Rightarrow> string \<Rightarrow> (world, unit) io" where
  "dead_letter_raw E C body props reason =
     basic_publish E (con_channel C) (raw_publication (con_settings C) body props reason)"

text \<open>The four statements that end every dead-letter branch with a parsed event.\<close>

definition dlq_and_ack :: "environ \<Rightarrow> consumer \<Rightarrow> nat \<Rightarrow> transfer_event \<Rightarrow> string \<Rightarrow> (world, unit) io list" where
  "dlq_and_ack E C tag e reason = [
     publish_dlq E (con_publisher C) e reason,
     basic_ack E (con_channel C) tag,
     inc_consumed ''dlq'',
     inc_dlq]"

definition failures_of :: "upload_result list \<Rightarrow> upload_result list" where
  "failures_of results = filter (\<lambda>r. \<not> res_ok r) results"

text \<open>\<open>",".join(r.error for r in failures if r.error)\<close>\<close>

definition last_error_of :: "upload_result list \<Rightarrow> pystr" where
  "last_error_of failures = join_str (lit '','')
     (List.map_filter (\<lambda>r. case res_error r of None \<Rightarrow> None | Some t \<Rightarrow> if t = [] then None else Some t) failures)"

definition next_attempt :: "transfer_event \<Rightarrow> int" where
  "next_attempt e = (case ev_retry e of None \<Rightarrow> 0 | Some r \<Rightarrow> attempt r) + 1"

text \<open>The last part of \<open>_handle\<close>, from the upload results on.\<close>

definition handle_results ::
  "environ \<Rightarrow> consumer \<Rightarrow> nat \<Rightarrow> transfer_event \<Rightarrow> upload_result list \<Rightarrow> (world, unit) io" where
  "handle_results E C tag e results =
     (let S = con_settings C; failures = failures_of results
      in if failures = [] then seq_io [
           mark_done E (idempotencyKey e) (correlationId e),
           basic_ack E (con_channel C) tag,
           inc_consumed ''success'']
         else let last_error = last_error_of failures; n = next_attempt e
         in if retry_max_attempts S < n
            then bind_io (lift_sum (with_retry e (n - 1) (retry_max_attempts S) last_error)) (\<lambda>failed_event.
                 seq_io (dlq_and_ack E C tag failed_event ''max_retries_exceeded''))
            else bind_io (lift_sum (with_retry e n (retry_max_attempts S) last_error)) (\<lambda>retry_event.
                 bind_io (lift_sum (backoff_delay_ms E S n)) (\<lambda>delay_ms.
                 seq_io [
                   publish_retry E (con_publisher C) retry_event delay_ms,
                   basic_ack E (con_channel C) tag,
                   inc_consumed ''retry''])))"

text \<open>\<open>issue.split(":", 1)[0]\<close>\<close>

definition issue_type :: "pystr \<Rightarrow> pystr" where
  "issue_type issue = takeWhile (\<lambda>c. c \<noteq> 58) issue"

definition handle :: "environ \<Rightarrow> consumer \<Rightarrow> nat \<Rightarrow> properties \<Rightarrow> bytes \<Rightarrow> (world, unit) io" where
  "handle E C tag props body =
     (let S = con_settings C; ch = con_channel C
      in case from_json_bytes E body of
        Inl exc \<Rightarrow> seq_io [
          dead_letter_raw E C body props ''invalid_payload'',
          basic_ack E ch tag,
          inc_consumed ''dlq'',
          inc_dlq]
      | Inr e \<Rightarrow>
          (case assert_supported e of
            Inl exc \<Rightarrow>
              if isinstance exc UnsupportedSchemaVersionError
              then seq_io (dlq_and_ack E C tag e ''unsupported_schema_version'')
              else raise_io exc
          | Inr _ \<Rightarrow>
              bind_io (is_done E (idempotencyKey e)) (\<lambda>done.
              if done then seq_io [
                basic_ack E ch tag,
                inc_consumed ''duplicate'',
                inc_idempotency_hits]
              else
              bind_io (ask (\<lambda>h. Inr (isfile_reply E h (src_path (ev_source e)))) (IsFile (src_path (ev_source e)))) (\<lambda>exists.
              if \<not> exists then seq_io (dlq_and_ack E C tag e ''source_file_missing'')
              else
              bind_io (scan_csv_file E S (src_path (ev_source e))) (\<lambda>issues.
              if issues \<noteq> [] then seq_io (map (\<lambda>i. inc_csv_rejections (issue_type i)) issues
                @ dlq_and_ack E C tag e ''csv_security_check_failed'')
              else
              bind_io (run_uploads E S e (src_path (ev_source e))) (\<lambda>results.
              handle_results E C tag e results))))))"

section \<open>The consuming loop\<close>

text \<open>
  What the generator \<open>channel.consume(...)\<close> hands out: nothing within the inactivity timeout,
  a delivery, or an exception of its own (a lost connection). Each item comes with the state of
  the stop event at that moment.
\<close>

datatype consume_item = Tick | Deliver nat properties bytes | ConsumeError exn

fun consume_loop :: "environ \<Rightarrow> consumer \<Rightarrow> (bool \<times> consume_item) list \<Rightarrow> (world, unit) io" where
  "consume_loop E C [] = ret_io ()"
| "consume_loop E C ((stop, item) # items) = (case item of
      ConsumeError exc \<Rightarrow> raise_io exc
    | Tick \<Rightarrow> if stop then ret_io () else consume_loop E C items
    | Deliver tag props body \<Rightarrow>
        if stop then ret_io ()
        else bind_io (try_except (handle E C tag props body) Exception (\<lambda>_. ret_io ()))
               (\<lambda>_. consume_loop E C items))"

definition run :: "environ \<Rightarrow> consumer \<Rightarrow> (bool \<times> consume_item) list \<Rightarrow> (world, unit) io" where
  "run E C items = bind_io (consume_loop E C items) (\<lambda>_.
     call (\<lambda>h. cancel_reply E h (con_channel C)) (CancelConsumer (con_channel C)) (CancelFailed (con_channel C)))"

end
