(* ===== verification/Consumer_Stages.thy ===== *)
theory Consumer_Stages
  imports Consumer
begin

text \<open>
  The handler cut at its questions to the outside: duplicate check, source file, CSV scan, upload. Each stage is what
  \<open>handle\<close> does from there on, so that its properties are proved stage by stage, from the last one up.
\<close>

definition event_path :: "transfer_event \<Rightarrow> pystr" where
  "event_path e = src_path (ev_source e)"

definition upload_stage :: "environ \<Rightarrow> consumer \<Rightarrow> nat \<Rightarrow> transfer_event \<Rightarrow> (world, unit) io" where
  "upload_stage E C tag e = bind_io (run_uploads E (con_settings C) e (event_path e)) (handle_results E C tag e)"

definition issue_stage :: "environ \<Rightarrow> consumer \<Rightarrow> nat \<Rightarrow> transfer_event \<Rightarrow> pystr list \<Rightarrow> (world, unit) io" where
  "issue_stage E C tag e = (\<lambda>issues. if issues \<noteq> []
     then seq_io (map (\<lambda>i. inc_csv_rejections (issue_type i)) issues @ dlq_and_ack E C tag e ''csv_security_check_failed'')
     else upload_stage E C tag e)"

definition file_stage :: "environ \<Rightarrow> consumer \<Rightarrow> nat \<Rightarrow> transfer_event \<Rightarrow> bool \<Rightarrow> (world, unit) io" where
  "file_stage E C tag e = (\<lambda>there. if \<not> there then seq_io (dlq_and_ack E C tag e ''source_file_missing'')
     else bind_io (scan_csv_file E (con_settings C) (event_path e)) (issue_stage E C tag e))"

definition ask_file :: "environ \<Rightarrow> transfer_event \<Rightarrow> (world, bool) io" where
  "ask_file E e = ask (\<lambda>h. Inr (isfile_reply E h (event_path e))) (IsFile (event_path e))"

definition duplicate_block :: "environ \<Rightarrow> consumer \<Rightarrow> nat \<Rightarrow> (world, unit) io" where
  "duplicate_block E C tag = seq_io [basic_ack E (con_channel C) tag, inc_consumed ''duplicate'', inc_idempotency_hits]"

definition fresh_stage :: "environ \<Rightarrow> consumer \<Rightarrow> nat \<Rightarrow> transfer_event \<Rightarrow> bool \<Rightarrow> (world, unit) io" where
  "fresh_stage E C tag e = (\<lambda>dup. if dup then duplicate_block E C tag else bind_io (ask_file E e) (file_stage E C tag e))"

definition supported_stage :: "environ \<Rightarrow> consumer \<Rightarrow> nat \<Rightarrow> transfer_event \<Rightarrow> (world, unit) io" where
  "supported_stage E C tag e = bind_io (is_done E (idempotencyKey e)) (fresh_stage E C tag e)"

definition malformed_block :: "environ \<Rightarrow> consumer \<Rightarrow> nat \<Rightarrow> properties \<Rightarrow> bytes \<Rightarrow> (world, unit) io" where
  "malformed_block E C tag props body = seq_io [dead_letter_raw E C body props ''invalid_payload'',
     basic_ack E (con_channel C) tag, inc_consumed ''dlq'', inc_dlq]"

definition unsupported_block :: "environ \<Rightarrow> consumer \<Rightarrow> nat \<Rightarrow> transfer_event \<Rightarrow> exn \<Rightarrow> (world, unit) io" where
  "unsupported_block E C tag e x = (if isinstance x UnsupportedSchemaVersionError
     then seq_io (dlq_and_ack E C tag e ''unsupported_schema_version'') else raise_io x)"

lemma handle_stages:
  "handle E C tag props body = (case from_json_bytes E body of
      Inl x \<Rightarrow> malformed_block E C tag props body
    | Inr e \<Rightarrow> (case assert_supported e of
        Inl x \<Rightarrow> unsupported_block E C tag e x
      | Inr _ \<Rightarrow> supported_stage E C tag e))"
  unfolding handle_def malformed_block_def unsupported_block_def supported_stage_def fresh_stage_def duplicate_block_def
    ask_file_def file_stage_def issue_stage_def upload_stage_def event_path_def Let_def ..

text \<open>A property of computations that holds of every block and passes through every stage holds of \<open>handle\<close>.\<close>

lemma handle_stage_cases:
  assumes "\<And>x. from_json_bytes E body = Inl x \<Longrightarrow> P (malformed_block E C tag props body)"
    and "\<And>e x. from_json_bytes E body = Inr e \<Longrightarrow> assert_supported e = Inl x \<Longrightarrow> P (unsupported_block E C tag e x)"
    and "\<And>e. from_json_bytes E body = Inr e \<Longrightarrow> assert_supported e = Inr () \<Longrightarrow> P (supported_stage E C tag e)"
  shows "P (handle E C tag props body)"
  using assms by (auto simp: handle_stages split: sum.split)

end
