(* ===== verification/Consumer_Safety.thy ===== *)
theory Consumer_Safety
  imports Consumer_Stages
begin

text \<open>
  When a delivery is acknowledged, and what has been done with it by then. \<open>exits_at\<close>
  describes how a handler ends: a normal return has acknowledged this delivery, as its last call
  to the outside and after settling it; an exception or a hang has not acknowledged anything. The
  rules follow the statement combinators, so the proof for \<open>handle\<close> walks down its branches.
\<close>

section \<open>Handlers that acknowledge last\<close>

definition no_ack :: "action list \<Rightarrow> bool" where
  "no_ack h \<longleftrightarrow> (\<forall>ch tag. Acked ch tag \<notin> set h)"

lemma no_ack_simps [simp]:
  "no_ack []" "no_ack (g @ h) \<longleftrightarrow> no_ack g \<and> no_ack h"
  "no_ack (a # h) \<longleftrightarrow> (\<forall>ch tag. a \<noteq> Acked ch tag) \<and> no_ack h"
  by (auto simp: no_ack_def)

definition quiet :: "(world, 'a) io \<Rightarrow> bool" where
  "quiet m \<longleftrightarrow> (\<forall>w. \<exists>h. history (snd (m w)) = history w @ h \<and> no_ack h)"

definition exits_at ::
  "(world \<Rightarrow> action list \<Rightarrow> bool) \<Rightarrow> nat \<Rightarrow> nat \<Rightarrow> (world, 'a) io \<Rightarrow> world \<Rightarrow> bool" where
  "exits_at J ch tag m w \<longleftrightarrow> (case m w of
      (Return _, w') \<Rightarrow> \<exists>pre. history w' = history w @ pre @ [Acked ch tag] \<and> no_ack pre \<and> J w' pre
    | (_, w') \<Rightarrow> \<exists>h. history w' = history w @ h \<and> no_ack h)"

text \<open>What was settled stays settled when more was done.\<close>

definition upward :: "(world \<Rightarrow> action list \<Rightarrow> bool) \<Rightarrow> bool" where
  "upward J \<longleftrightarrow> (\<forall>w g h. J w h \<longrightarrow> set h \<subseteq> set g \<longrightarrow> J w g)"

lemma quietD: "quiet m \<Longrightarrow> m w = (r, w') \<Longrightarrow> \<exists>h. history w' = history w @ h \<and> no_ack h"
  unfolding quiet_def by (metis snd_conv)

lemma exits_raise: "exits_at J ch tag (raise_io e) w"
  by (simp add: exits_at_def raise_io_def)

lemma exits_bind:
  assumes "upward J" and "quiet m"
    and f: "\<And>x w1 h. m w = (Return x, w1) \<Longrightarrow> history w1 = history w @ h \<Longrightarrow> exits_at (\<lambda>w' p. J w' (h @ p)) ch tag (f x) w1"
  shows "exits_at J ch tag (bind_io m f) w"
proof -
  obtain r w1 where m: "m w = (r, w1)" by fastforce
  then obtain h where h: "history w1 = history w @ h" "no_ack h" using assms(2) quietD by blast
  show ?thesis
  proof (cases r)
    case (Return x)
    have e: "exits_at (\<lambda>w' p. J w' (h @ p)) ch tag (f x) w1" using f m h(1) Return by blast
    obtain r2 w2 where f2: "f x w1 = (r2, w2)" by fastforce
    have bind: "bind_io m f w = (r2, w2)" using m f2 Return by (simp add: bind_io_def)
    show ?thesis
    proof (cases r2)
      case (Return y)
      then obtain pre where "history w2 = history w1 @ pre @ [Acked ch tag]" "no_ack pre" "J w2 (h @ pre)"
        using e f2 by (auto simp: exits_at_def)
      then show ?thesis using h bind Return by (auto simp: exits_at_def intro!: exI [of _ "h @ pre"])
    qed (use e f2 h bind in \<open>auto simp: exits_at_def\<close>)
  qed (use m h in \<open>auto simp: exits_at_def bind_io_def\<close>)
qed

lemma exits_if:
  "(b \<Longrightarrow> exits_at J ch tag m w) \<Longrightarrow> (\<not> b \<Longrightarrow> exits_at J ch tag n w) \<Longrightarrow>
   exits_at J ch tag (if b then m else n) w"
  by simp

lemma quiet_ret: "quiet (ret_io x)"
  by (simp add: quiet_def ret_io_def)

lemma quiet_lift: "quiet (lift_sum r)"
  by (cases r) (simp_all add: quiet_def lift_sum_def ret_io_def raise_io_def)

lemma quiet_call:
  "(\<And>ch tag. ok \<noteq> Acked ch tag) \<Longrightarrow> (\<And>e ch tag. bad e \<noteq> Acked ch tag) \<Longrightarrow> quiet (call reply ok bad)"
  by (auto simp: quiet_def call_def split: option.splits)

lemma quiet_ask: "(\<And>ch tag. a \<noteq> Acked ch tag) \<Longrightarrow> quiet (ask reply a)"
  by (auto simp: quiet_def ask_def split: sum.splits)

lemma quiet_bind:
  assumes "quiet m" and "\<And>x. quiet (f x)"
  shows "quiet (bind_io m f)"
  unfolding quiet_def
proof
  fix w
  obtain r w1 where m: "m w = (r, w1)" by fastforce
  then obtain h where h: "history w1 = history w @ h" "no_ack h" using assms(1) quietD by blast
  have "\<exists>g. history (snd (f x w1)) = history w1 @ g \<and> no_ack g" for x
    using assms(2) [of x] by (simp add: quiet_def)
  then show "\<exists>h. history (snd (bind_io m f w)) = history w @ h \<and> no_ack h"
    using m h by (cases r) (auto simp: bind_io_def, metis append.assoc no_ack_simps(2))
qed

lemma quiet_history: "(\<And>w. history (f w) = history w) \<Longrightarrow> quiet (modify_io f)"
  by (simp add: quiet_def modify_io_def)

lemma quiet_get: "quiet (get_io f)"
  by (simp add: quiet_def get_io_def)

lemma quiet_incs [simp]:
  "quiet inc_published" "quiet (inc_consumed r)" "quiet (observe_duration p)" "quiet (inc_uploads p r)"
  "quiet inc_dlq" "quiet inc_idempotency_hits" "quiet (inc_csv_rejections t)"
  by (simp_all add: inc_defs quiet_history)

lemma quiet_is_done: "quiet (is_done E k)"
  by (simp add: is_done_def sql_def quiet_bind quiet_call quiet_get)

lemma quiet_mark_done: "quiet (mark_done E k c)"
  by (simp add: mark_done_def sql_def quiet_bind quiet_call quiet_get quiet_history)

lemma quiet_publish: "quiet (basic_publish E ch p)"
  by (simp add: basic_publish_def quiet_call)

lemma quiet_scan: "quiet (scan_csv_file E S path)"
  by (simp add: scan_csv_file_def quiet_bind quiet_ask quiet_lift quiet_ret)

lemma quiet_run_uploads: "quiet (run_uploads E S e path)"
  unfolding quiet_def
proof
  fix w
  consider "0 < upload_max_concurrency S" | "upload_max_concurrency S = 0" "destinations e \<noteq> []"
    | "upload_max_concurrency S = 0" "destinations e = []" | "upload_max_concurrency S < 0"
    by (cases "destinations e = []") linarith+
  then show "\<exists>h. history (snd (run_uploads E S e path w)) = history w @ h \<and> no_ack h"
  proof cases
    case 1
    then obtain rs h w' where "run_uploads E S e path w = (Return rs, w')" "history w' = history w @ h"
        "upload_report S path (destinations e) (nat (upload_max_concurrency S)) h rs"
      using run_uploads_report by blast
    moreover have "\<not> upload_action (Acked c t)" for c t by simp
    ultimately show ?thesis by (metis fst_conv snd_conv no_ack_def upload_report_def)
  next
    case 2
    then show ?thesis by (simp add: run_uploads_no_permit)
  next
    case 3
    then show ?thesis by (simp add: run_uploads_nothing)
  next
    case 4
    then show ?thesis by (simp add: run_uploads_negative)
  qed
qed

lemma quiet_seq: "(\<And>m. m \<in> set ms \<Longrightarrow> quiet m) \<Longrightarrow> quiet (seq_io ms)"
  by (induction ms) (simp_all add: quiet_ret quiet_bind)

section \<open>The endings of \<open>handle\<close>\<close>

definition wf_consumer :: "consumer \<Rightarrow> bool" where
  "wf_consumer C \<longleftrightarrow> pub_settings (con_publisher C) = con_settings C \<and> pub_channel (con_publisher C) = con_channel C"

text \<open>
  A delivery is settled by the confirmed publication of a message on the retry or dead-letter
  queue, or because the idempotency key of its event is in the table.
\<close>

fun hands_over :: "settings \<Rightarrow> action \<Rightarrow> bool" where
  "hands_over S (Published ch p) \<longleftrightarrow> (routing_key p = retry_queue_name S \<or> routing_key p = dlq_name S)
     \<and> pub_exchange p = [] \<and> persistent (pub_props p) \<and> mandatory p"
| "hands_over S _ \<longleftrightarrow> False"

definition handed_over :: "settings \<Rightarrow> action list \<Rightarrow> bool" where
  "handed_over S h \<longleftrightarrow> (\<exists>x \<in> set h. hands_over S x)"

lemma handed_over_append: "handed_over S (g @ h) \<longleftrightarrow> handed_over S g \<or> handed_over S h"
  by (auto simp: handed_over_def)

definition settled :: "environ \<Rightarrow> settings \<Rightarrow> bytes \<Rightarrow> world \<Rightarrow> action list \<Rightarrow> bool" where
  "settled E S body w' h \<longleftrightarrow> handed_over S h
     \<or> (\<exists>e. from_json_bytes E body = Inr e \<and> select_key (table w') (idempotencyKey e))"

lemma handed_over_mono: "handed_over S h \<Longrightarrow> set h \<subseteq> set g \<Longrightarrow> handed_over S g"
  unfolding handed_over_def by blast

lemma settled_mono:
  assumes "settled E S body w h" and "set h \<subseteq> set g"
  shows "settled E S body w g"
  using assms(1) handed_over_mono [OF _ assms(2)] unfolding settled_def by blast

lemma upward_settled: "upward (settled E S body)"
  unfolding upward_def by (intro allI impI) (rule settled_mono)

lemma upward_shift:
  assumes "upward J"
  shows "upward (\<lambda>w' p. J w' (h @ p))"
  unfolding upward_def
proof (intro allI impI)
  fix w f g
  assume "J w (h @ g)" "set g \<subseteq> set f"
  moreover from this have "set (h @ g) \<subseteq> set (h @ f)" by auto
  ultimately show "J w (h @ f)" using assms unfolding upward_def by blast
qed

definition counter_only :: "(world, unit) io \<Rightarrow> bool" where
  "counter_only m \<longleftrightarrow> (\<forall>w. \<exists>c. m w = (Return (), w\<lparr>counters := c\<rparr>))"

lemma counter_only_incs [simp]:
  "counter_only inc_published" "counter_only (inc_consumed r)" "counter_only (observe_duration p)"
  "counter_only (inc_uploads p r)" "counter_only inc_dlq" "counter_only inc_idempotency_hits"
  "counter_only (inc_csv_rejections t)"
  by (auto simp: counter_only_def inc_defs modify_io_def)

lemma counter_only_seq: "(\<And>m. m \<in> set ms \<Longrightarrow> counter_only m) \<Longrightarrow> counter_only (seq_io ms)"
proof (induction ms)
  case (Cons m ms)
  then have m: "counter_only m" and ms: "counter_only (seq_io ms)" by simp_all
  show ?case
    unfolding counter_only_def
  proof
    fix w
    obtain c where "m w = (Return (), w\<lparr>counters := c\<rparr>)" using m by (auto simp: counter_only_def)
    moreover obtain d where "seq_io ms (w\<lparr>counters := c\<rparr>) = (Return (), w\<lparr>counters := c\<rparr>\<lparr>counters := d\<rparr>)"
      using ms unfolding counter_only_def by blast
    ultimately show "\<exists>c. seq_io (m # ms) w = (Return (), w\<lparr>counters := c\<rparr>)"
      by (auto simp: bind_io_def)
  qed
next
  case Nil
  show ?case
    unfolding counter_only_def
  proof
    fix w :: world
    show "\<exists>c. seq_io [] w = (Return (), w\<lparr>counters := c\<rparr>)"
      by (rule exI [of _ "counters w"]) (simp add: ret_io_def)
  qed
qed

lemma exits_ack:
  assumes "\<And>m. m \<in> set ms \<Longrightarrow> counter_only m" and "\<And>w'. table w' = table w \<Longrightarrow> J w' []"
  shows "exits_at J ch tag (seq_io (basic_ack E ch tag # ms)) w"
proof (cases "ack_reply E (history w) ch tag")
  case None
  obtain c where "seq_io ms (add_action (Acked ch tag) w) = (Return (), (add_action (Acked ch tag) w)\<lparr>counters := c\<rparr>)"
    using counter_only_seq [OF assms(1)] unfolding counter_only_def by blast
  with None show ?thesis by (simp add: exits_at_def basic_ack_def call_def bind_io_def assms(2))
next
  case (Some e)
  then show ?thesis by (simp add: exits_at_def basic_ack_def call_def bind_io_def)
qed

lemma exits_publish_ack:
  assumes "upward J" and "\<And>m. m \<in> set ms \<Longrightarrow> counter_only m" and "\<And>w'. J w' [Published ch' p]"
  shows "exits_at J ch tag (seq_io (basic_publish E ch' p # basic_ack E ch tag # ms)) w"
  unfolding seq_io.simps(2) [of "basic_publish E ch' p"]
proof (rule exits_bind [OF assms(1) quiet_publish])
  fix x w1 h
  assume "basic_publish E ch' p w = (Return x, w1)" and "history w1 = history w @ h"
  then have "h = [Published ch' p]" by (auto simp: basic_publish_cases split: option.splits)
  then show "exits_at (\<lambda>w' q. J w' (h @ q)) ch tag (seq_io (basic_ack E ch tag # ms)) w1"
    using assms by (intro exits_ack) auto
qed

lemma handed_over_event:
  "handed_over S [Published ch (event_publication E q e x hs)] \<longleftrightarrow> q = retry_queue_name S \<or> q = dlq_name S"
  by (simp add: handed_over_def event_publication_def)

lemma exits_dlq:
  assumes "wf_consumer C" and "upward J" and "\<And>w' h. handed_over (con_settings C) h \<Longrightarrow> J w' h"
  shows "exits_at J (con_channel C) tag (seq_io (dlq_and_ack E C tag e reason)) w"
  using assms unfolding dlq_and_ack_def publish_dlq_def publish_def
  by (intro exits_publish_ack) (auto simp: wf_consumer_def handed_over_event)

lemma exits_handle_results:
  assumes "wf_consumer C" and "upward J" and over: "\<And>w' h. handed_over (con_settings C) h \<Longrightarrow> J w' h"
    and key: "\<And>w' h. select_key (table w') (idempotencyKey e) \<Longrightarrow> J w' h"
  shows "exits_at J (con_channel C) tag (handle_results E C tag e results) w"
proof -
  note S = assms(1) [unfolded wf_consumer_def]
  have ok: "exits_at J (con_channel C) tag (seq_io [mark_done E (idempotencyKey e) (correlationId e),
      basic_ack E (con_channel C) tag, inc_consumed ''success'']) w"
    unfolding seq_io.simps(2) [of "mark_done _ _ _"]
  proof (rule exits_bind [OF assms(2) quiet_mark_done])
    fix x w1 h
    assume "mark_done E (idempotencyKey e) (correlationId e) w = (Return x, w1)" "history w1 = history w @ h"
    then have "select_key (table w1) (idempotencyKey e)"
      by (auto simp: mark_done_cases insert_or_ignore_def select_key_iff split: option.splits)
    then show "exits_at (\<lambda>w' p. J w' (h @ p)) (con_channel C) tag
        (seq_io [basic_ack E (con_channel C) tag, inc_consumed ''success'']) w1"
      by (intro exits_ack) (auto intro: key)
  qed
  have giveup: "exits_at J (con_channel C) tag (bind_io (lift_sum r) (\<lambda>ev. seq_io (dlq_and_ack E C tag ev reason))) w"
    for r reason
  proof (rule exits_bind [OF assms(2) quiet_lift])
    fix x w1 h
    show "exits_at (\<lambda>w' p. J w' (h @ p)) (con_channel C) tag (seq_io (dlq_and_ack E C tag x reason)) w1"
      by (rule exits_dlq [OF assms(1) upward_shift [OF assms(2)]]) (auto simp: handed_over_append intro!: over)
  qed
  have retry: "exits_at J (con_channel C) tag (bind_io (lift_sum r) (\<lambda>ev. bind_io (lift_sum d) (\<lambda>ms.
      seq_io [publish_retry E (con_publisher C) ev ms, basic_ack E (con_channel C) tag, inc_consumed ''retry'']))) w"
    for r d
  proof (rule exits_bind [OF assms(2) quiet_lift], rule exits_bind [OF upward_shift [OF assms(2)] quiet_lift])
    fix x w1 h y w2 g
    show "exits_at (\<lambda>w' p. J w' (h @ g @ p)) (con_channel C) tag (seq_io
        [publish_retry E (con_publisher C) x y, basic_ack E (con_channel C) tag, inc_consumed ''retry'']) w2"
      unfolding publish_retry_def publish_def
    proof (rule exits_publish_ack)
      show "upward (\<lambda>w' p. J w' (h @ g @ p))"
        using upward_shift [OF upward_shift [OF assms(2)], of h g] by simp
    qed (use S in \<open>auto simp: handed_over_append handed_over_event intro!: over\<close>)
  qed
  show ?thesis by (simp add: handle_results_def Let_def ok giveup retry del: seq_io.simps)
qed

text \<open>Conditions that a hand-over or the key's presence in the table is enough for.\<close>

definition accepting :: "settings \<Rightarrow> pystr \<Rightarrow> (world \<Rightarrow> action list \<Rightarrow> bool) \<Rightarrow> bool" where
  "accepting S k J \<longleftrightarrow> upward J \<and> (\<forall>w h. handed_over S h \<longrightarrow> J w h) \<and> (\<forall>w h. select_key (table w) k \<longrightarrow> J w h)"

lemma acceptingD: "accepting S k J \<Longrightarrow> upward J" "accepting S k J \<Longrightarrow> handed_over S h \<Longrightarrow> J w h"
    "accepting S k J \<Longrightarrow> select_key (table w) k \<Longrightarrow> J w h"
  by (simp_all add: accepting_def)

lemma accepting_shift: "accepting S k J \<Longrightarrow> accepting S k (\<lambda>w q. J w (h @ q))"
  by (simp add: accepting_def upward_shift handed_over_append)

lemma accepting_settled: "from_json_bytes E body = Inr e \<Longrightarrow> accepting S (idempotencyKey e) (settled E S body)"
  unfolding accepting_def by (auto simp: upward_settled settled_def)

text \<open>Every ending of the handler, whatever the delivery and the outside world, stage by stage.\<close>

lemma exits_upload_stage:
  assumes "wf_consumer C" and J: "accepting (con_settings C) (idempotencyKey e) J"
  shows "exits_at J (con_channel C) tag (upload_stage E C tag e) w"
  unfolding upload_stage_def
  by (intro exits_bind acceptingD(1) [OF J] quiet_run_uploads exits_handle_results assms(1))
    (use acceptingD [OF accepting_shift [OF J]] in blast)+

lemma exits_issue_stage:
  assumes "wf_consumer C" and J: "accepting (con_settings C) (idempotencyKey e) J"
  shows "exits_at J (con_channel C) tag (issue_stage E C tag e issues) w"
  unfolding issue_stage_def seq_io_append
  by (intro exits_if exits_bind exits_upload_stage exits_dlq acceptingD(1) [OF J] quiet_seq assms)
    (use acceptingD [OF accepting_shift [OF J]] in auto)

lemma exits_file_stage:
  assumes "wf_consumer C" and J: "accepting (con_settings C) (idempotencyKey e) J"
  shows "exits_at J (con_channel C) tag (file_stage E C tag e there) w"
  unfolding file_stage_def
  by (intro exits_if exits_bind exits_issue_stage exits_dlq acceptingD(1) [OF J] quiet_scan accepting_shift assms)
    (use acceptingD [OF J] in auto)

lemma exits_fresh_stage:
  assumes "wf_consumer C" and J: "accepting (con_settings C) (idempotencyKey e) J"
    and "dup \<Longrightarrow> select_key (table w) (idempotencyKey e)"
  shows "exits_at J (con_channel C) tag (fresh_stage E C tag e dup) w"
  unfolding fresh_stage_def duplicate_block_def ask_file_def
  by (intro exits_if exits_ack exits_bind exits_file_stage acceptingD(1) [OF J] quiet_ask accepting_shift assms)
    (use acceptingD(3) [OF J] assms(3) in auto)

lemma exits_supported_stage:
  assumes "wf_consumer C" and J: "accepting (con_settings C) (idempotencyKey e) J"
  shows "exits_at J (con_channel C) tag (supported_stage E C tag e) w"
  unfolding supported_stage_def
  by (intro exits_bind exits_fresh_stage acceptingD(1) [OF J] quiet_is_done accepting_shift assms)
    (auto simp: is_done_cases split: option.splits)

lemma exits_malformed:
  "exits_at (settled E (con_settings C) body) (con_channel C) tag (malformed_block E C tag props body) w"
  unfolding malformed_block_def dead_letter_raw_def
  by (intro exits_publish_ack upward_settled) (auto simp: settled_def handed_over_def raw_publication_def)

lemma exits_handle:
  assumes wf: "wf_consumer C"
  shows "exits_at (settled E (con_settings C) body) (con_channel C) tag (handle E C tag props body) w"
proof (rule handle_stage_cases)
  fix e x
  have "exits_at (settled E (con_settings C) body) (con_channel C) tag (seq_io (dlq_and_ack E C tag e reason)) w" for reason
    by (rule exits_dlq [OF wf upward_settled]) (simp add: settled_def)
  then show "exits_at (settled E (con_settings C) body) (con_channel C) tag (unsupported_block E C tag e x) w"
    by (simp add: unsupported_block_def exits_raise del: seq_io.simps)
next
  fix e
  assume "from_json_bytes E body = Inr e"
  then show "exits_at (settled E (con_settings C) body) (con_channel C) tag (supported_stage E C tag e) w"
    by (intro exits_supported_stage wf accepting_settled)
qed (rule exits_malformed)

end
