(* ===== verification/Consumer_Contract.thy ===== *)
theory Consumer_Contract
  imports Consumer_Safety
begin

text \<open>
  The contract of the consumer, as \<open>docs/event-contract.md\<close> words it: a delivery gets one
  verdict, and the verdict fixes what is published, what is marked and what is counted.
  \<open>handle_contract\<close> says that every delivery that \<open>handle\<close> returns from has such a verdict;
  \<open>handle_marks\<close> says when a key enters the table, whatever happens afterwards.
\<close>

section \<open>Verdicts\<close>

datatype verdict =
    Malformed
  | Rejected transfer_event string
  | Duplicate transfer_event
  | Processed transfer_event
  | Retried transfer_event int

fun verdict_label :: "verdict \<Rightarrow> string" where
  "verdict_label Malformed = ''dlq''"
| "verdict_label (Rejected e reason) = ''dlq''"
| "verdict_label (Duplicate e) = ''duplicate''"
| "verdict_label (Processed e) = ''success''"
| "verdict_label (Retried e ms) = ''retry''"

fun verdict_publications :: "environ \<Rightarrow> settings \<Rightarrow> properties \<Rightarrow> bytes \<Rightarrow> verdict \<Rightarrow> publication list" where
  "verdict_publications E S props body Malformed = [raw_publication S body props ''invalid_payload'']"
| "verdict_publications E S props body (Rejected e reason) =
     [event_publication E (dlq_name S) e None (Some [(lit ''x-dlq-reason'', lit reason)])]"
| "verdict_publications E S props body (Retried e ms) =
     [event_publication E (retry_queue_name S) e (Some (show_int ms)) None]"
| "verdict_publications E S props body _ = []"

definition publications :: "nat \<Rightarrow> action list \<Rightarrow> publication list" where
  "publications ch h = List.map_filter
     (\<lambda>a. case a of Published c p \<Rightarrow> if c = ch then Some p else None | _ \<Rightarrow> None) h"

lemma publications_simps [simp]:
  "publications ch [] = []"
  "publications ch (g @ h) = publications ch g @ publications ch h"
  "publications ch (a # h) = (case a of Published c p \<Rightarrow> if c = ch then [p] else [] | _ \<Rightarrow> []) @ publications ch h"
  by (simp_all add: publications_def List.map_filter_def split: action.splits)

section \<open>When a verdict is due\<close>

text \<open>The event of a delivery, once the version gate and the duplicate check let it through.\<close>

definition admitted :: "environ \<Rightarrow> world \<Rightarrow> bytes \<Rightarrow> transfer_event \<Rightarrow> bool" where
  "admitted E w body e \<longleftrightarrow> from_json_bytes E body = Inr e \<and> assert_supported e = Inr ()
     \<and> \<not> select_key (table w) (idempotencyKey e)"

definition file_present :: "environ \<Rightarrow> world \<Rightarrow> transfer_event \<Rightarrow> bool" where
  "file_present E w e = isfile_reply E (history w @ [Sql (SelectKey (idempotencyKey e))]) (event_path e)"

definition scan_outcome :: "environ \<Rightarrow> settings \<Rightarrow> world \<Rightarrow> transfer_event \<Rightarrow> pystr list outcome" where
  "scan_outcome E S w e = fst (scan_csv_file E S (event_path e)
     (w\<lparr>history := history w @ [Sql (SelectKey (idempotencyKey e)), IsFile (event_path e)]\<rparr>))"

text \<open>The event was uploaded to all its destinations, within the history \<open>h\<close>.\<close>

definition uploaded :: "settings \<Rightarrow> transfer_event \<Rightarrow> action list \<Rightarrow> upload_result list \<Rightarrow> bool" where
  "uploaded S e h rs \<longleftrightarrow> (\<exists>a g b. h = a @ g @ b \<and> 0 < upload_max_concurrency S
     \<and> upload_report S (event_path e) (destinations e) (nat (upload_max_concurrency S)) g rs)"

text \<open>The event passed every check and its uploads gave the results \<open>rs\<close>.\<close>

definition tried :: "environ \<Rightarrow> settings \<Rightarrow> world \<Rightarrow> bytes \<Rightarrow> action list \<Rightarrow> transfer_event \<Rightarrow> upload_result list \<Rightarrow> bool" where
  "tried E S w body h e rs \<longleftrightarrow> admitted E w body e \<and> file_present E w e
     \<and> scan_outcome E S w e = Return [] \<and> uploaded S e h rs"

fun justified :: "environ \<Rightarrow> settings \<Rightarrow> world \<Rightarrow> bytes \<Rightarrow> action list \<Rightarrow> verdict \<Rightarrow> bool" where
  "justified E S w body h Malformed \<longleftrightarrow> (\<exists>x. from_json_bytes E body = Inl x)"
| "justified E S w body h (Duplicate e) \<longleftrightarrow> from_json_bytes E body = Inr e \<and> assert_supported e = Inr ()
     \<and> select_key (table w) (idempotencyKey e)"
| "justified E S w body h (Processed e) \<longleftrightarrow> (\<exists>rs. tried E S w body h e rs \<and> list_all res_ok rs)"
| "justified E S w body h (Retried e' ms) \<longleftrightarrow> (\<exists>e rs. tried E S w body h e rs \<and> \<not> list_all res_ok rs
     \<and> next_attempt e \<le> retry_max_attempts S
     \<and> with_retry e (next_attempt e) (retry_max_attempts S) (last_error_of (failures_of rs)) = Inr e'
     \<and> backoff_delay_ms E S (next_attempt e) = Inr ms)"
| "justified E S w body h (Rejected e' reason) \<longleftrightarrow>
     (reason = ''unsupported_schema_version'' \<and> from_json_bytes E body = Inr e'
        \<and> assert_supported e' = Inl (unsupported_version e'))
   \<or> (reason = ''source_file_missing'' \<and> admitted E w body e' \<and> \<not> file_present E w e')
   \<or> (reason = ''csv_security_check_failed'' \<and> admitted E w body e' \<and> file_present E w e'
        \<and> (\<exists>issues. scan_outcome E S w e' = Return issues \<and> issues \<noteq> []))
   \<or> (reason = ''max_retries_exceeded'' \<and> (\<exists>e rs. tried E S w body h e rs \<and> \<not> list_all res_ok rs
        \<and> retry_max_attempts S < next_attempt e
        \<and> with_retry e (next_attempt e - 1) (retry_max_attempts S) (last_error_of (failures_of rs)) = Inr e'))"

section \<open>What a verdict leaves behind\<close>

text \<open>The consumer's counters: deliveries by result, dead letters, duplicate hits.\<close>

definition consumer_counts :: "registry \<Rightarrow> (pystr \<Rightarrow> nat) \<times> nat \<times> nat" where
  "consumer_counts c = (EVENTS_CONSUMED_TOTAL c, DLQ_MESSAGES_TOTAL c, IDEMPOTENCY_HITS_TOTAL c)"

definition counted :: "string \<Rightarrow> registry \<Rightarrow> registry \<Rightarrow> bool" where
  "counted label c c' \<longleftrightarrow> consumer_counts c' =
     ((EVENTS_CONSUMED_TOTAL c)(lit label := EVENTS_CONSUMED_TOTAL c (lit label) + 1),
      DLQ_MESSAGES_TOTAL c + (if label = ''dlq'' then 1 else 0),
      IDEMPOTENCY_HITS_TOTAL c + (if label = ''duplicate'' then 1 else 0))"

fun marks :: "verdict \<Rightarrow> db_row list \<Rightarrow> db_row list \<Rightarrow> bool" where
  "marks (Processed e) t t' \<longleftrightarrow> (\<exists>now. t' = insert_or_ignore t (idempotencyKey e) (correlationId e, now))"
| "marks _ t t' \<longleftrightarrow> t' = t"

definition carried_out :: "environ \<Rightarrow> settings \<Rightarrow> nat \<Rightarrow> properties \<Rightarrow> bytes \<Rightarrow> verdict \<Rightarrow> world \<Rightarrow> action list \<Rightarrow> world \<Rightarrow> bool" where
  "carried_out E S ch props body v w h w' \<longleftrightarrow>
     history w' = history w @ h
     \<and> publications ch h = verdict_publications E S props body v
     \<and> marks v (table w) (table w')
     \<and> counted (verdict_label v) (counters w) (counters w')"

section \<open>Inverting a computation that returned\<close>

lemma bind_Return:
  "bind_io m f w = (Return y, w') \<longleftrightarrow> (\<exists>x w1. m w = (Return x, w1) \<and> f x w1 = (Return y, w'))"
  by (auto simp: bind_io_def split: prod.splits outcome.splits)

lemma ret_Return: "ret_io x w = (Return y, w') \<longleftrightarrow> y = x \<and> w' = w"
  by (auto simp: ret_io_def)

lemma raise_Return: "raise_io e w \<noteq> (Return y, w')"
  by (simp add: raise_io_def)

lemma lift_Return: "lift_sum r w = (Return y, w') \<longleftrightarrow> r = Inr y \<and> w' = w"
  by (cases r) (auto simp: lift_sum_def ret_io_def raise_io_def)

lemma call_Return: "call reply ok bad w = (Return y, w') \<longleftrightarrow> reply (history w) = None \<and> w' = add_action ok w"
  by (auto simp: call_def split: option.splits)

lemma ask_Return: "ask reply a w = (Return y, w') \<longleftrightarrow> reply (history w) = Inr y \<and> w' = add_action a w"
  by (auto simp: ask_def split: sum.splits)

lemma is_done_Return: "is_done E k w = (Return y, w') \<longleftrightarrow>
    sql_reply E (history w) (SelectKey k) = None \<and> y = select_key (table w) k \<and> w' = add_action (Sql (SelectKey k)) w"
  by (auto simp: is_done_cases split: option.splits)

lemma mark_done_Return: "mark_done E k c w = (Return y, w') \<longleftrightarrow>
    sql_reply E (history w) (InsertKey k c) = None \<and> w' = (add_action (Sql (InsertKey k c)) w)
      \<lparr>table := insert_or_ignore (table w) k (c, sql_now E (history w))\<rparr>"
  by (auto simp: mark_done_cases split: option.splits)

lemma modify_Return: "modify_io f w = (Return y, w') \<longleftrightarrow> w' = f w"
  by (auto simp: modify_io_def)

lemmas returns = bind_Return ret_Return raise_Return lift_Return call_Return ask_Return
  is_done_Return mark_done_Return modify_Return

text \<open>The blocks that end the branches.\<close>

lemma dlq_and_ack_Return:
  assumes "seq_io (dlq_and_ack E (worker_consumer ch S) tag e reason) w = (Return y, w')"
  shows "history w' = history w @ [Published ch (event_publication E (dlq_name S) e None
      (Some [(lit ''x-dlq-reason'', lit reason)])), Acked ch tag]"
    "table w' = table w" "counted ''dlq'' (counters w) (counters w')"
  using assms
  by (auto simp: dlq_and_ack_def worker_consumer_def publish_dlq_def publish_def basic_publish_def basic_ack_def
      returns inc_defs counted_def consumer_counts_def)

lemma scan_Return:
  assumes "scan_csv_file E S p w = (Return issues, w')"
  shows "\<exists>h. history w' = history w @ h \<and> publications ch h = [] \<and> table w' = table w \<and> counters w' = counters w
    \<and> (\<forall>v. history v = history w \<longrightarrow> fst (scan_csv_file E S p v) = Return issues)"
  using assms
  by (auto simp: scan_csv_file_def returns split: if_splits)
    (auto simp: bind_io_def ask_def lift_sum_def ret_io_def)

lemma csv_rejections_Return:
  assumes "seq_io (map (\<lambda>i. inc_csv_rejections (issue_type i)) issues) w = (Return y, w')"
  shows "history w' = history w \<and> table w' = table w \<and> consumer_counts (counters w') = consumer_counts (counters w)"
  using assms
proof (induction issues arbitrary: w)
  case Nil
  then show ?case by (simp add: returns)
next
  case (Cons i issues)
  then obtain w1 where "inc_csv_rejections (issue_type i) w = (Return (), w1)"
      "seq_io (map (\<lambda>i. inc_csv_rejections (issue_type i)) issues) w1 = (Return y, w')"
    by (auto simp: returns)
  with Cons.IH [OF this(2)] show ?case by (auto simp: inc_defs returns consumer_counts_def)
qed

lemma counted_same: "consumer_counts c = consumer_counts c0 \<Longrightarrow> counted l c c' \<Longrightarrow> counted l c0 c'"
  by (simp add: counted_def consumer_counts_def)

lemma same_books_counts: "same_books w w' \<Longrightarrow> table w' = table w \<and> consumer_counts (counters w') = consumer_counts (counters w)"
  by (simp add: same_books_def consumer_counts_def)

lemma failures_Nil: "failures_of rs = [] \<longleftrightarrow> list_all res_ok rs"
  by (auto simp: failures_of_def filter_empty_conv list_all_iff)

text \<open>The last part of the handler, from the results on.\<close>

lemma handle_results_Return:
  assumes "handle_results E (worker_consumer ch S) tag e rs w = (Return y, w')"
  obtains
    (marked) now where "list_all res_ok rs"
      "history w' = history w @ [Sql (InsertKey (idempotencyKey e) (correlationId e)), Acked ch tag]"
      "table w' = insert_or_ignore (table w) (idempotencyKey e) (correlationId e, now)"
      "counted ''success'' (counters w) (counters w')"
  | (giveup) e' where "\<not> list_all res_ok rs" "retry_max_attempts S < next_attempt e"
      "with_retry e (next_attempt e - 1) (retry_max_attempts S) (last_error_of (failures_of rs)) = Inr e'"
      "history w' = history w @ [Published ch (event_publication E (dlq_name S) e' None
        (Some [(lit ''x-dlq-reason'', lit ''max_retries_exceeded'')])), Acked ch tag]"
      "table w' = table w" "counted ''dlq'' (counters w) (counters w')"
  | (again) e' ms where "\<not> list_all res_ok rs" "next_attempt e \<le> retry_max_attempts S"
      "with_retry e (next_attempt e) (retry_max_attempts S) (last_error_of (failures_of rs)) = Inr e'"
      "backoff_delay_ms E S (next_attempt e) = Inr ms"
      "history w' = history w @ [Published ch (event_publication E (retry_queue_name S) e' (Some (show_int ms)) None),
        Acked ch tag]"
      "table w' = table w" "counted ''retry'' (counters w) (counters w')"
proof -
  have S: "con_settings (worker_consumer ch S) = S" "con_channel (worker_consumer ch S) = ch"
    by (simp_all add: worker_consumer_def)
  show ?thesis
  proof (cases "list_all res_ok rs")
    case True
    then have "failures_of rs = []" by (simp add: failures_Nil)
    with assms True show ?thesis
      by (intro marked) (auto simp: handle_results_def S returns basic_ack_def inc_defs counted_def consumer_counts_def)
  next
    case False
    then have f: "failures_of rs \<noteq> []" by (simp add: failures_Nil)
    show ?thesis
    proof (cases "retry_max_attempts S < next_attempt e")
      case True
      with assms f obtain e' where e': "with_retry e (next_attempt e - 1) (retry_max_attempts S) (last_error_of (failures_of rs)) = Inr e'"
        "seq_io (dlq_and_ack E (worker_consumer ch S) tag e' ''max_retries_exceeded'') w = (Return y, w')"
        by (auto simp: handle_results_def S returns Let_def simp del: seq_io.simps)
      show ?thesis by (rule giveup [OF False True e'(1) dlq_and_ack_Return [OF e'(2)]])
    next
      case n: False
      with assms f obtain e' ms where r: "with_retry e (next_attempt e) (retry_max_attempts S) (last_error_of (failures_of rs)) = Inr e'"
          "backoff_delay_ms E S (next_attempt e) = Inr ms"
        and q: "seq_io [publish_retry E (con_publisher (worker_consumer ch S)) e' ms, basic_ack E ch tag,
          inc_consumed ''retry''] w = (Return y, w')"
        by (auto simp: handle_results_def S returns Let_def simp del: seq_io.simps)
      show ?thesis
        by (rule again [OF False _ r]) (use n q in \<open>auto simp: returns publish_retry_def publish_def basic_publish_def
          basic_ack_def worker_consumer_def inc_defs counted_def consumer_counts_def\<close>)
    qed
  qed
qed

section \<open>Every delivery the handler returns from has its verdict\<close>

lemma counted_label_Nil: "counted l c c' \<Longrightarrow> consumer_counts c0 = consumer_counts c \<Longrightarrow> counted l c0 c'"
  by (simp add: counted_def consumer_counts_def)

lemma scan_outcome_intro:
  assumes "scan_csv_file E S (event_path e) v = (Return issues, w')"
    and "history v = history w @ [Sql (SelectKey (idempotencyKey e)), IsFile (event_path e)]"
  shows "scan_outcome E S w e = Return issues"
proof -
  have "\<forall>u. history u = history v \<longrightarrow> fst (scan_csv_file E S (event_path e) u) = Return issues"
    using scan_Return [OF assms(1), of 0] by blast
  then show ?thesis using assms(2) by (simp add: scan_outcome_def)
qed

lemma run_uploads_Return:
  assumes "run_uploads E S e path w = (Return rs, w')" and "destinations e \<noteq> []"
  obtains h where "0 < upload_max_concurrency S" "history w' = history w @ h" "same_books w w'"
    "upload_report S path (destinations e) (nat (upload_max_concurrency S)) h rs"
proof -
  have "0 < upload_max_concurrency S"
    using assms run_uploads_no_permit [of S e E path w] run_uploads_negative [of S E e path w] by fastforce
  then show ?thesis using run_uploads_report [of S E e path w] assms(1) that by auto
qed

lemma publications_uploads: "upload_report S path ds k h rs \<Longrightarrow> publications ch h = []"
proof -
  assume "upload_report S path ds k h rs"
  then have h: "\<forall>x \<in> set h. upload_action x" by (simp add: upload_report_def)
  have "(case x of Published c p \<Rightarrow> if c = ch then Some p else None | _ \<Rightarrow> None) = None" if "x \<in> set h" for x
    using h that by (cases x) auto
  then show "publications ch h = []" by (simp add: publications_def List.map_filter_def filter_empty_conv)
qed

lemma py_int_error: "py_int b t = Inl x \<Longrightarrow> \<exists>m. x = value_error m"
  by (auto simp: py_int_def Let_def split: option.splits if_splits prod.splits)

lemma assert_supported_caught:
  assumes "assert_supported e = Inl x" and "isinstance x UnsupportedSchemaVersionError"
  shows "x = unsupported_version e"
proof -
  have "\<not> isinstance (value_error m) UnsupportedSchemaVersionError"
    "\<not> isinstance assertion_error UnsupportedSchemaVersionError" for m
    by (simp_all add: value_error_def assertion_error_def)
  then show ?thesis using assms
    by (auto simp: assert_supported_def bind_sum_Inl schema_major_def dest!: py_int_error split: option.splits if_splits)
qed

text \<open>Up to the stage that starts in \<open>v\<close> only questions were asked, in the history \<open>g\<close>.\<close>

definition only_asked :: "nat \<Rightarrow> world \<Rightarrow> action list \<Rightarrow> world \<Rightarrow> bool" where
  "only_asked ch w g v \<longleftrightarrow> history v = history w @ g \<and> publications ch g = [] \<and> table v = table w
     \<and> consumer_counts (counters v) = consumer_counts (counters w)"

lemma only_asked_more: "only_asked ch w g v \<Longrightarrow> history v' = history v @ h \<Longrightarrow> publications ch h = [] \<Longrightarrow> table v' = table v \<Longrightarrow>
    consumer_counts (counters v') = consumer_counts (counters v) \<Longrightarrow> only_asked ch w (g @ h) v'"
  by (simp add: only_asked_def)

lemma carry_out:
  assumes "only_asked ch w g v" and "history w' = history v @ t" and "publications ch t = verdict_publications E S props body d"
    and "marks d (table v) (table w')" and "counted (verdict_label d) (counters v) (counters w')"
  shows "carried_out E S ch props body d w (g @ t) w'"
  using assms by (auto simp: carried_out_def only_asked_def intro: counted_same)

lemma carry_out_rejected:
  assumes "only_asked ch w g v" and "seq_io (dlq_and_ack E (worker_consumer ch S) tag e reason) v = (Return y, w')"
  shows "\<exists>h. carried_out E S ch props body (Rejected e reason) w h w'"
  using carry_out [OF assms(1), of w' _ E S props body "Rejected e reason"] dlq_and_ack_Return [OF assms(2)] by fastforce

text \<open>From the uploads on.\<close>

lemma verdict_upload_stage:
  assumes adm: "admitted E w body e" and present: "file_present E w e" and so: "scan_outcome E S w e = Return []"
    and asked: "only_asked ch w g v" and run: "upload_stage E (worker_consumer ch S) tag e v = (Return y, w')"
  shows "\<exists>d h. justified E S w body h d \<and> carried_out E S ch props body d w h w'"
proof -
  from run obtain rs v2 where up: "run_uploads E S e (event_path e) v = (Return rs, v2)"
    and res: "handle_results E (worker_consumer ch S) tag e rs v2 = (Return y, w')"
    by (auto simp: upload_stage_def bind_Return worker_consumer_def)
  have "destinations e \<noteq> []" using adm from_json_bytes_valid [of E body e] by (simp add: admitted_def valid_event_def)
  with up obtain u where u: "0 < upload_max_concurrency S" "history v2 = history v @ u" "same_books v v2"
      "upload_report S (event_path e) (destinations e) (nat (upload_max_concurrency S)) u rs"
    by (rule run_uploads_Return)
  have asked2: "only_asked ch w (g @ u) v2"
    using only_asked_more [OF asked u(2) publications_uploads [OF u(4)]] same_books_counts [OF u(3)] by simp
  have "uploaded S e ((g @ u) @ t) rs" for t using u(1,4) unfolding uploaded_def by fastforce
  then have tried: "tried E S w body ((g @ u) @ t) e rs" for t using adm present so by (simp add: tried_def)
  have verdict: "\<exists>d h. justified E S w body h d \<and> carried_out E S ch props body d w h w'"
    if "\<And>t. justified E S w body ((g @ u) @ t) d" "history w' = history v2 @ t"
      "publications ch t = verdict_publications E S props body d" "marks d (table v2) (table w')"
      "counted (verdict_label d) (counters v2) (counters w')" for d t
    using that(1) carry_out [OF asked2 that(2-5)] by blast
  from res show ?thesis
  proof (cases rule: handle_results_Return)
    case marked
    show ?thesis by (rule verdict [of "Processed e", OF _ marked(2)]) (use tried marked in auto)
  next
    case (giveup e')
    show ?thesis
      by (rule verdict [of "Rejected e' ''max_retries_exceeded''", OF _ giveup(4)]) (use tried giveup in auto)
  next
    case (again e' ms)
    show ?thesis by (rule verdict [of "Retried e' ms", OF _ again(5)]) (use tried again in auto)
  qed
qed

text \<open>From the scan's issues on, and from the answer whether the file is there.\<close>

lemma verdict_issue_stage:
  assumes adm: "admitted E w body e" and present: "file_present E w e" and so: "scan_outcome E S w e = Return issues"
    and asked: "only_asked ch w g v" and run: "issue_stage E (worker_consumer ch S) tag e issues v = (Return y, w')"
  shows "\<exists>d h. justified E S w body h d \<and> carried_out E S ch props body d w h w'"
proof (cases "issues = []")
  case True
  then show ?thesis using verdict_upload_stage [OF adm present _ asked] so run by (simp add: issue_stage_def)
next
  case False
  then obtain v2 where m: "seq_io (map (\<lambda>i. inc_csv_rejections (issue_type i)) issues) v = (Return (), v2)"
    and r: "seq_io (dlq_and_ack E (worker_consumer ch S) tag e ''csv_security_check_failed'') v2 = (Return y, w')"
    using run by (auto simp: issue_stage_def seq_io_append bind_Return)
  have "only_asked ch w (g @ []) v2" using only_asked_more [OF asked, of v2 "[]"] csv_rejections_Return [OF m] by simp
  from carry_out_rejected [OF this r] obtain h where
    "carried_out E S ch props body (Rejected e ''csv_security_check_failed'') w h w'" by blast
  moreover have "justified E S w body h (Rejected e ''csv_security_check_failed'')" using adm present so False by simp
  ultimately show ?thesis by blast
qed

lemma verdict_file_stage:
  assumes adm: "admitted E w body e"
    and asked: "only_asked ch w [Sql (SelectKey (idempotencyKey e)), IsFile (event_path e)] v"
    and run: "file_stage E (worker_consumer ch S) tag e (file_present E w e) v = (Return y, w')"
  shows "\<exists>d h. justified E S w body h d \<and> carried_out E S ch props body d w h w'"
proof (cases "file_present E w e")
  case False
  then have "seq_io (dlq_and_ack E (worker_consumer ch S) tag e ''source_file_missing'') v = (Return y, w')"
    using run by (simp add: file_stage_def del: seq_io.simps)
  from carry_out_rejected [OF asked this] obtain h where
    "carried_out E S ch props body (Rejected e ''source_file_missing'') w h w'" by blast
  moreover have "justified E S w body h (Rejected e ''source_file_missing'')" using adm False by simp
  ultimately show ?thesis by blast
next
  case True
  then obtain issues v2 where scan: "scan_csv_file E S (event_path e) v = (Return issues, v2)"
    and rest: "issue_stage E (worker_consumer ch S) tag e issues v2 = (Return y, w')"
    using run by (auto simp: file_stage_def bind_Return worker_consumer_def)
  obtain h where h: "history v2 = history v @ h" "publications ch h = []" "table v2 = table v" "counters v2 = counters v"
    using scan_Return [OF scan, of ch] by blast
  show ?thesis
    by (rule verdict_issue_stage [OF adm True scan_outcome_intro [OF scan] only_asked_more [OF asked h(1-3)] rest])
      (use asked h in \<open>simp_all add: only_asked_def\<close>)
qed

lemma verdict_supported_stage:
  assumes e: "from_json_bytes E body = Inr e" "assert_supported e = Inr ()"
    and run: "supported_stage E (worker_consumer ch S) tag e w = (Return y, w')"
  shows "\<exists>d h. justified E S w body h d \<and> carried_out E S ch props body d w h w'"
proof -
  let ?q = "Sql (SelectKey (idempotencyKey e))"
  from run have f: "fresh_stage E (worker_consumer ch S) tag e (select_key (table w) (idempotencyKey e)) (add_action ?q w) = (Return y, w')"
    by (auto simp: supported_stage_def bind_Return is_done_Return)
  show ?thesis
  proof (cases "select_key (table w) (idempotencyKey e)")
    case True
    with f have "carried_out E S ch props body (Duplicate e) w [?q, Acked ch tag] w'"
      by (auto simp: fresh_stage_def duplicate_block_def worker_consumer_def returns basic_ack_def inc_defs carried_out_def
        counted_def consumer_counts_def)
    then show ?thesis using e True by (intro exI [of _ "Duplicate e"]) auto
  next
    case False
    then have adm: "admitted E w body e" using e by (simp add: admitted_def)
    have "file_stage E (worker_consumer ch S) tag e (file_present E w e) (add_action (IsFile (event_path e)) (add_action ?q w)) = (Return y, w')"
      using f False by (simp add: fresh_stage_def ask_file_def bind_Return ask_Return file_present_def)
    then show ?thesis by (rule verdict_file_stage [OF adm, rotated]) (simp add: only_asked_def)
  qed
qed

lemma handle_verdict:
  assumes "handle E (worker_consumer ch S) tag props body w = (Return y, w')"
  shows "\<exists>d h. justified E S w body h d \<and> carried_out E S ch props body d w h w'"
proof (cases "from_json_bytes E body")
  case (Inl x)
  with assms have "carried_out E S ch props body Malformed w
      [Published ch (raw_publication S body props ''invalid_payload''), Acked ch tag] w'"
    by (auto simp: handle_stages malformed_block_def worker_consumer_def returns dead_letter_raw_def basic_publish_def
      basic_ack_def inc_defs carried_out_def counted_def consumer_counts_def)
  then show ?thesis using Inl by (metis justified.simps(1))
next
  case e: (Inr e)
  show ?thesis
  proof (cases "assert_supported e")
    case (Inl x)
    with assms e have x: "isinstance x UnsupportedSchemaVersionError"
      and d: "seq_io (dlq_and_ack E (worker_consumer ch S) tag e ''unsupported_schema_version'') w = (Return y, w')"
      by (auto simp: handle_stages unsupported_block_def raise_Return simp del: seq_io.simps split: if_splits)
    have "only_asked ch w [] w" by (simp add: only_asked_def)
    from carry_out_rejected [OF this d] obtain h where
      "carried_out E S ch props body (Rejected e ''unsupported_schema_version'') w h w'" by blast
    moreover have "justified E S w body h (Rejected e ''unsupported_schema_version'')"
      using e Inl assert_supported_caught [OF Inl x] by simp
    ultimately show ?thesis by blast
  next
    case (Inr u)
    then show ?thesis using verdict_supported_stage [OF e] assms e by (simp add: handle_stages)
  qed
qed

end
