(* ===== verification/Consumer_Progress.thy ===== *)
theory Consumer_Progress
  imports Consumer_Contract
begin

text \<open>
  Progress and accounting of the consumer. \<open>calm\<close> is an outside world in which broker, table
  and files answer, and \<open>usable\<close> are settings under which the handler can finish; then every
  delivery is settled (\<open>handle_returns\<close>). Without them a delivery may end in an exception,
  which is an ordinary \<open>Exception\<close> and leaves the consumer's counters alone.
\<close>

section \<open>Version numbers\<close>

lemma digit_val_bound: "digit_val c = Some d \<Longrightarrow> d < 10"
  by (auto simp: digit_val_def find_Some_iff)

lemma digit_not_special:
  assumes "is_digit c"
  shows "\<not> is_space c" "c \<noteq> 45" "c \<noteq> 43" "c \<noteq> 95"
proof -
  have "\<not> is_digit 45" "\<not> is_digit 43" "\<not> is_digit 95"
    by (simp_all add: is_digit_def digit_val_def nd_zeros_def)
  with assms show "c \<noteq> 45" "c \<noteq> 43" "c \<noteq> 95" by auto
  show "\<not> is_space c"
    using assms by (auto simp: is_space_def is_digit_def digit_val_def nd_zeros_def)
qed

lemma scan_is_digits: "list_all is_digit a \<Longrightarrow> a \<noteq> [] \<or> prev \<Longrightarrow>
    \<exists>ds. scan_digits 10 prev a = Some ds \<and> length ds = length a"
proof (induction a arbitrary: prev)
  case (Cons c a)
  then obtain d where "digit_val c = Some d" "c \<noteq> 95" using digit_not_special(4) by (auto simp: is_digit_def)
  moreover obtain ds where "scan_digits 10 True a = Some ds" "length ds = length a" using Cons by force
  ultimately show ?case using digit_val_bound by (simp add: base_digit_def)
qed simp

lemma py_int_digits:
  assumes "list_all is_digit a" and "a \<noteq> []"
  shows "\<exists>ds. length ds = length a \<and> py_int 10 a =
    (if 4300 < length a then Inl (value_error ''Exceeds the limit (4300 digits) for integer string conversion'')
     else Inr (int (digits_value 10 ds)))"
proof -
  have "strip_where is_space a = a" by (rule strip_where_id) (use assms digit_not_special in \<open>auto simp: list_all_iff\<close>)
  moreover have "split_sign a = (False, a)"
    using assms digit_not_special by (cases a) (auto simp: split_sign_def)
  moreover obtain ds where "scan_digits 10 False a = Some ds" "length ds = length a"
    using scan_is_digits [of a False] assms by auto
  ultimately show ?thesis by (auto simp: py_int_def)
qed

text \<open>What the version gate does, by the length of the major number.\<close>

lemma assert_supported_long:
  assumes "version_groups (schemaVersion e) = Some (a, b)" and "4300 < length a"
  shows "assert_supported e = Inl (value_error ''Exceeds the limit (4300 digits) for integer string conversion'')"
proof -
  have "list_all is_digit a" "a \<noteq> []" using assms(1) by (auto simp: version_groups_iff)
  from py_int_digits [OF this] assms show ?thesis by (auto simp: assert_supported_def schema_major_def)
qed

lemma assert_supported_short:
  assumes "version_groups (schemaVersion e) = Some (a, b)" and "length a \<le> 4300"
  shows "assert_supported e = Inr () \<or> assert_supported e = Inl (unsupported_version e)"
proof -
  have "list_all is_digit a" "a \<noteq> []" using assms(1) by (auto simp: version_groups_iff)
  from py_int_digits [OF this] assms show ?thesis by (auto simp: assert_supported_def schema_major_def split: if_splits)
qed

section \<open>Computations that return\<close>

definition total :: "(world, 'a) io \<Rightarrow> bool" where
  "total m \<longleftrightarrow> (\<forall>w. \<exists>x w'. m w = (Return x, w'))"

lemma total_bind: "total m \<Longrightarrow> (\<And>x. total (f x)) \<Longrightarrow> total (bind_io m f)"
  unfolding total_def bind_Return by blast

lemma total_seq: "(\<And>m. m \<in> set ms \<Longrightarrow> total m) \<Longrightarrow> total (seq_io ms)"
proof (induction ms)
  case Nil
  show ?case by (simp add: total_def ret_Return)
next
  case (Cons m ms)
  then show ?case by (simp add: total_bind)
qed

lemma total_call: "(\<And>h. reply h = None) \<Longrightarrow> total (call reply ok bad)"
  by (simp add: total_def call_Return)

lemma total_incs [simp]:
  "total inc_published" "total (inc_consumed r)" "total (observe_duration p)" "total (inc_uploads p r)"
  "total inc_dlq" "total inc_idempotency_hits" "total (inc_csv_rejections t)"
  by (simp_all add: total_def inc_defs modify_io_def)

definition calm :: "environ \<Rightarrow> bool" where
  "calm E \<longleftrightarrow> (\<forall>h st. sql_reply E h st = None) \<and> (\<forall>h ch p. publish_reply E h ch p = None)
     \<and> (\<forall>h ch tag. ack_reply E h ch tag = None)
     \<and> (\<forall>h p. \<exists>n. getsize_reply E h p = Inr n) \<and> (\<forall>h p. \<exists>raw. read_reply E h p = Inr raw)
     \<and> (\<forall>h c x. upload_reply E h c = UploadRaised x \<longrightarrow> str_ok (exc_name x))"

text \<open>No file makes the CSV reader raise.\<close>

definition readable :: "environ \<Rightarrow> bool" where
  "readable E \<longleftrightarrow> (\<forall>h p raw. read_reply E h p = Inr raw \<longrightarrow> (\<exists>issues. scan_raw raw = Inr issues))"

definition usable :: "environ \<Rightarrow> settings \<Rightarrow> bool" where
  "usable E S \<longleftrightarrow> 0 < upload_max_concurrency S \<and> 1 \<le> retry_max_attempts S
     \<and> (\<forall>n. 1 \<le> n \<and> n \<le> retry_max_attempts S \<longrightarrow> (\<exists>ms. backoff_delay_ms E S n = Inr ms))"

lemma total_dlq_and_ack:
  assumes "calm E" and "m \<in> set (dlq_and_ack E C tag e reason)"
  shows "total m"
  using assms by (auto simp: calm_def dlq_and_ack_def publish_dlq_def publish_def basic_publish_def basic_ack_def
    intro!: total_call)

lemma total_handle_results:
  assumes c: "calm E" and u: "usable E S" and S: "con_settings C = S"
    and v: "case ev_retry e of None \<Rightarrow> True | Some r \<Rightarrow> valid_retry r"
    and err: "str_ok (last_error_of (failures_of rs))"
  shows "total (handle_results E C tag e rs)"
proof -
  have n: "1 \<le> next_attempt e" "ev_retry e \<noteq> None \<Longrightarrow> 2 \<le> next_attempt e"
    using v by (auto simp: next_attempt_def valid_retry_def split: option.splits)
  have w: "with_retry e n (retry_max_attempts S) (last_error_of (failures_of rs)) = Inr e'" if "1 \<le> n"
    "e' = e\<lparr>ev_retry := Some \<lparr>attempt = n, maxAttempts = retry_max_attempts S,
       lastError = Some (last_error_of (failures_of rs))\<rparr>\<rparr>" for n e'
    using that u err by (simp add: with_retry_def mk_retry_info_def usable_def valid_retry_def opt_str_ok_def)
  have lift: "total (lift_sum (Inr x))" for x by (simp add: total_def lift_Return)
  have t: "total (mark_done E k x)" "total (basic_ack E ch tag)" "total (publish_retry E pb ev ms)" for k x ch pb ev ms
    using c by (auto simp: calm_def total_def mark_done_Return basic_ack_def publish_retry_def publish_def
        basic_publish_def call_Return)
  show ?thesis
  proof (cases "retry_max_attempts S < next_attempt e")
    case True
    then have "1 \<le> next_attempt e - 1" using n u by (cases "ev_retry e") (auto simp: next_attempt_def usable_def)
    from w [OF this refl] True show ?thesis
      unfolding handle_results_def Let_def S
      by (auto simp del: seq_io.simps intro!: total_bind total_seq lift t dest: total_dlq_and_ack [OF c])
  next
    case False
    then obtain ms where "backoff_delay_ms E S (next_attempt e) = Inr ms" using u n by (force simp: usable_def)
    with w [OF n(1) refl] False show ?thesis
      unfolding handle_results_def Let_def S
      by (auto simp del: seq_io.simps intro!: total_bind total_seq lift t)
  qed
qed

lemma str_ok_append [simp]: "str_ok (a @ b) \<longleftrightarrow> str_ok a \<and> str_ok b"
  by (simp add: str_ok_def)

lemma str_ok_lit [simp]: "str_ok (lit s)"
  by (simp add: str_ok_def)

lemma str_ok_join: "str_ok sep \<Longrightarrow> (\<And>x. x \<in> set xs \<Longrightarrow> str_ok x) \<Longrightarrow> str_ok (join_str sep xs)"
  by (induction sep xs rule: join_str.induct) (auto simp: str_ok_def)

text \<open>The text of the collected errors is fit for the event.\<close>

lemma errors_str_ok:
  assumes c: "calm E" and v: "list_all valid_destination (destinations e)" and k: "0 < upload_max_concurrency S"
    and up: "run_uploads E S e path w = (Return rs, w')"
  shows "str_ok (last_error_of (failures_of rs))"
proof -
  obtain h where h: "history w' = history w @ h"
    and rep: "upload_report S path (destinations e) (nat (upload_max_concurrency S)) h rs"
    using run_uploads_report [OF k, of E e path w] up by auto
  obtain g where "history w' = history w @ g"
    "\<forall>c out. wait_end c out \<in> set g \<longrightarrow> (\<exists>f. upload_reply E f c = out)"
    using keepsD [OF answered_run_uploads up] by (auto simp: answered_def)
  with h have ans: "wait_end c out \<in> set h \<Longrightarrow> \<exists>f. upload_reply E f c = out" for c out by simp
  have "str_ok t" if r: "r \<in> set rs" and t: "res_error r = Some t" for r t
  proof -
    obtain i where i: "i < length (destinations e)" "r = rs ! i"
      using rep r by (auto simp: upload_report_def in_set_conv_nth)
    define d where "d = destinations e ! i"
    have d: "str_ok (dst_provider d)"
      using v i(1) by (auto simp: list_all_length valid_destination_def d_def)
    obtain out where out: "r = result_of S path d out" "set (end_actions S path d out) \<subseteq> set h"
      using rep i by (auto simp: upload_report_def recorded_def d_def)
    show ?thesis
    proof (cases "uploader_for S d path")
      case None
      with out t d show ?thesis
        by (auto simp: result_of_def unsupported_provider_def upload_failure_def)
    next
      case (Some c)
      then have "wait_end c out \<in> set h" using out(2) by (simp add: end_actions_def)
      then have "\<exists>f. upload_reply E f c = out" by (rule ans)
      then have "out = UploadRaised x \<Longrightarrow> str_ok (exc_name x)" for x using c by (auto simp: calm_def)
      with out t d Some show ?thesis
        by (cases out) (auto simp: result_of_def upload_failure_def split: if_splits)
    qed
  qed
  then show ?thesis
    by (auto simp: last_error_of_def failures_of_def List.map_filter_def intro!: str_ok_join split: option.splits if_splits)
qed

lemma total_bind_at: "total m \<Longrightarrow> (\<And>w x w1. m w = (Return x, w1) \<Longrightarrow> total (f x)) \<Longrightarrow> total (bind_io m f)"
  unfolding total_def bind_Return by blast

lemma total_if: "(b \<Longrightarrow> total m) \<Longrightarrow> (\<not> b \<Longrightarrow> total n) \<Longrightarrow> total (if b then m else n)"
  by simp

lemma total_scan:
  assumes "calm E" and "readable E"
  shows "total (scan_csv_file E S p)"
  unfolding total_def
proof
  fix w :: world
  have "\<exists>n. getsize_reply E (history w) p = Inr n" using assms by (simp add: calm_def)
  then obtain n where n: "getsize_reply E (history w) p = Inr n" ..
  let ?h = "history w @ [GetSize p]"
  have "\<exists>raw. read_reply E ?h p = Inr raw" using assms by (simp add: calm_def)
  then obtain raw where raw: "read_reply E ?h p = Inr raw" ..
  then obtain issues where "scan_raw raw = Inr issues" using assms(2) unfolding readable_def by blast
  with n raw show "\<exists>x w'. scan_csv_file E S p w = (Return x, w')"
    by (cases "max_csv_file_size_bytes S < int n") (auto simp: scan_csv_file_def returns)
qed

text \<open>The stages of the handler.\<close>

lemma total_dlq: "calm E \<Longrightarrow> total (seq_io (dlq_and_ack E C tag e reason))"
  by (rule total_seq) (rule total_dlq_and_ack)

lemma total_ack: "calm E \<Longrightarrow> total (basic_ack E ch tag)"
  by (auto simp: calm_def basic_ack_def intro!: total_call)

lemma total_malformed: "calm E \<Longrightarrow> total (malformed_block E C tag props body)"
  unfolding malformed_block_def dead_letter_raw_def basic_publish_def
  by (rule total_seq) (auto simp: total_ack intro!: total_call simp: calm_def)

lemma total_upload_stage:
  assumes c: "calm E" and u: "usable E S" and v: "valid_event E e"
  shows "total (upload_stage E (worker_consumer ch S) tag e)"
  unfolding upload_stage_def
proof (rule total_bind_at)
  have W: "con_settings (worker_consumer ch S) = S" by (simp add: worker_consumer_def)
  show "total (run_uploads E (con_settings (worker_consumer ch S)) e (event_path e))"
    unfolding total_def W using run_uploads_report u by (metis usable_def)
  fix w rs w1
  assume "run_uploads E (con_settings (worker_consumer ch S)) e (event_path e) w = (Return rs, w1)"
  then have "str_ok (last_error_of (failures_of rs))"
    using v u unfolding W by (intro errors_str_ok [OF c]) (auto simp: valid_event_def usable_def)
  then show "total (handle_results E (worker_consumer ch S) tag e rs)"
    using v by (intro total_handle_results [OF c u W]) (auto simp: valid_event_def split: option.splits)
qed

lemma total_supported_stage:
  assumes c: "calm E" and r: "readable E" and "usable E S" and "valid_event E e"
  shows "total (supported_stage E (worker_consumer ch S) tag e)"
proof -
  have csv: "total (seq_io (map (\<lambda>i. inc_csv_rejections (issue_type i)) issues @ dlq_and_ack E C tag e reason))"
    for issues C reason
    by (rule total_seq) (auto intro: total_dlq_and_ack [OF c])
  have isd: "total (is_done E k)" for k using c by (simp add: calm_def total_def is_done_Return)
  have dup: "total (duplicate_block E C tag)" for C
    unfolding duplicate_block_def by (rule total_seq) (auto intro: total_ack [OF c])
  have isf: "total (ask_file E e)" by (simp add: total_def ask_file_def ask_Return)
  show ?thesis
    unfolding supported_stage_def fresh_stage_def file_stage_def issue_stage_def
    by (intro total_bind total_if isd isf dup csv total_dlq total_scan total_upload_stage assms)
qed

text \<open>Every delivery is settled, whatever it holds.\<close>

lemma handle_returns:
  assumes c: "calm E" and r: "readable E" and u: "usable E S"
    and short: "\<And>e a b. from_json_bytes E body = Inr e \<Longrightarrow> version_groups (schemaVersion e) = Some (a, b) \<Longrightarrow> length a \<le> 4300"
  shows "total (handle E (worker_consumer ch S) tag props body)"
proof (rule handle_stage_cases)
  fix e x
  assume e: "from_json_bytes E body = Inr e" and x: "assert_supported e = Inl x"
  have "valid_event E e" using e by (rule from_json_bytes_valid)
  then obtain a b where g: "version_groups (schemaVersion e) = Some (a, b)" by (auto simp: valid_event_def)
  from assert_supported_short [OF g short [OF e g]] x have "x = unsupported_version e" by auto
  then show "total (unsupported_block E (worker_consumer ch S) tag e x)"
    using total_dlq [OF c] by (simp add: unsupported_block_def unsupported_version_def del: seq_io.simps)
qed (use total_malformed [OF c] total_supported_stage [OF c r u] from_json_bytes_valid in blast)+

end
