(* ===== verification/Consumer_Accounting.thy ===== *)
theory Consumer_Accounting
  imports Consumer_Progress
begin

text \<open>
  What the consumer's counters and its table say about its history. A handler that does not
  return leaves the counters alone and ends in an ordinary \<open>Exception\<close>
  (\<open>handle_fails_clean\<close>); the table changes only behind completed uploads
  (\<open>handle_marks\<close>); and the loop over any deliveries keeps the books balanced.
\<close>

section \<open>Failures are ordinary exceptions and count nothing\<close>

definition uncounted :: "(world, 'a) io \<Rightarrow> bool" where
  "uncounted m \<longleftrightarrow> keeps (\<lambda>w w'. consumer_counts (counters w') = consumer_counts (counters w)) m"

definition fails_clean :: "(world, 'a) io \<Rightarrow> bool" where
  "fails_clean m \<longleftrightarrow> (\<forall>w. case m w of
      (Return _, _) \<Rightarrow> True
    | (Raise x, w') \<Rightarrow> isinstance x Exception \<and> consumer_counts (counters w') = consumer_counts (counters w)
    | (Hang, _) \<Rightarrow> False)"

lemma preorder_counts: "preorder_rel (\<lambda>w w'. consumer_counts (counters w') = consumer_counts (counters w))"
  by (simp add: preorder_rel_def)

lemma uncounted_bind: "uncounted m \<Longrightarrow> (\<And>x. uncounted (f x)) \<Longrightarrow> uncounted (bind_io m f)"
  unfolding uncounted_def by (rule keeps_bind [OF preorder_counts])

lemma uncounted_seq: "(\<And>m. m \<in> set ms \<Longrightarrow> uncounted m) \<Longrightarrow> uncounted (seq_io ms)"
  unfolding uncounted_def by (rule keeps_seq [OF preorder_counts])

lemma uncounted_call: "uncounted (call reply ok bad)"
  unfolding uncounted_def by (rule keeps_call) simp

lemma uncounted_ask: "uncounted (ask reply a)"
  unfolding uncounted_def by (rule keeps_ask) simp

lemma uncounted_lift: "uncounted (lift_sum r)"
  unfolding uncounted_def by (rule keeps_lift_sum [OF preorder_counts])

lemma uncounted_ret: "uncounted (ret_io x)"
  by (simp add: uncounted_def keeps_ret preorder_counts)

lemma uncounted_is_done: "uncounted (is_done E k)"
  unfolding is_done_def sql_def
  by (intro uncounted_bind uncounted_call) (simp add: uncounted_def keeps_def get_io_def)

lemma uncounted_mark_done: "uncounted (mark_done E k c)"
  unfolding mark_done_def sql_def
  by (intro uncounted_bind uncounted_call) (simp_all add: uncounted_def keeps_def get_io_def modify_io_def)

lemma uncounted_scan: "uncounted (scan_csv_file E S p)"
  unfolding scan_csv_file_def by (auto intro!: uncounted_bind uncounted_ask uncounted_lift uncounted_ret)

lemma uncounted_run_uploads:
  assumes "0 < upload_max_concurrency S"
  shows "uncounted (run_uploads E S e p)"
  unfolding uncounted_def
proof (rule keepsI)
  fix w :: world
  obtain rs h w' where "run_uploads E S e p w = (Return rs, w')" "same_books w w'"
    using run_uploads_report [OF assms] by blast
  then show "consumer_counts (counters (snd (run_uploads E S e p w))) = consumer_counts (counters w)"
    using same_books_counts by simp
qed

lemma clean_bind:
  assumes m: "uncounted m" "fails_clean m" and f: "\<And>x. fails_clean (f x)"
  shows "fails_clean (bind_io m f)"
  unfolding fails_clean_def
proof
  fix w
  obtain r w1 where r: "m w = (r, w1)" by fastforce
  then have c: "consumer_counts (counters w1) = consumer_counts (counters w)"
    using m(1) keepsD unfolding uncounted_def by fastforce
  show "case bind_io m f w of (Return _, _) \<Rightarrow> True
    | (Raise x, w') \<Rightarrow> isinstance x Exception \<and> consumer_counts (counters w') = consumer_counts (counters w)
    | (Hang, _) \<Rightarrow> False"
  proof (cases r)
    case (Return x)
    then show ?thesis using r c f [of x] spec [of _ w1]
      by (auto simp: bind_io_def fails_clean_def split: prod.splits outcome.splits)
  next
    case (Raise x)
    then show ?thesis using r m(2) c by (auto simp: bind_io_def fails_clean_def dest: spec [of _ w])
  next
    case Hang
    then show ?thesis using r m(2) by (auto simp: fails_clean_def dest: spec [of _ w])
  qed
qed

lemma clean_total: "total m \<Longrightarrow> fails_clean m"
  unfolding total_def fails_clean_def
proof
  fix w
  assume "\<forall>w. \<exists>x w'. m w = (Return x, w')"
  then obtain x w' where "m w = (Return x, w')" by blast
  then show "case m w of (Return _, _) \<Rightarrow> True
    | (Raise x, w') \<Rightarrow> isinstance x Exception \<and> consumer_counts (counters w') = consumer_counts (counters w)
    | (Hang, _) \<Rightarrow> False" by simp
qed

lemma clean_call: "(\<And>h x. reply h = Some x \<Longrightarrow> isinstance x Exception) \<Longrightarrow> fails_clean (call reply ok bad)"
  by (auto simp: fails_clean_def call_def split: option.splits)

lemma clean_ask: "(\<And>h x. reply h = Inl x \<Longrightarrow> isinstance x Exception) \<Longrightarrow> fails_clean (ask reply a)"
  by (auto simp: fails_clean_def ask_def split: sum.splits)

lemma clean_lift: "(\<And>x. r = Inl x \<Longrightarrow> isinstance x Exception) \<Longrightarrow> fails_clean (lift_sum r)"
  by (cases r) (auto simp: fails_clean_def lift_sum_def ret_io_def raise_io_def)

lemma clean_if: "(b \<Longrightarrow> fails_clean m) \<Longrightarrow> (\<not> b \<Longrightarrow> fails_clean n) \<Longrightarrow> fails_clean (if b then m else n)"
  by simp

text \<open>An acknowledgement and the counters behind it.\<close>

lemma clean_ack: "uncounted m \<Longrightarrow> fails_clean m \<Longrightarrow> (\<And>n. n \<in> set ms \<Longrightarrow> total n) \<Longrightarrow> fails_clean (seq_io (m # ms))"
  unfolding seq_io.simps by (rule clean_bind) (auto intro: clean_total total_seq)

section \<open>The exceptions of the code itself\<close>

lemma csv_error_ordinary: "isinstance (csv_error m) Exception"
  by (simp add: csv_error_def)

lemma value_error_ordinary: "isinstance (value_error m) Exception"
  by (simp add: value_error_def)

lemma process_char_error: "process_char r c = Inl x \<Longrightarrow> isinstance x Exception"
  by (auto simp: process_char.simps start_field_def add_char_def csv_error_ordinary split: csv_state.splits if_splits)

lemma feed_chars_error: "feed_chars r cs = Inl x \<Longrightarrow> isinstance x Exception"
  by (induction cs arbitrary: r) (auto simp: bind_sum_Inl dest: process_char_error)

lemma rows_from_error: "snd (rows_from r ls) = Some x \<Longrightarrow> isinstance x Exception"
proof (induction r ls rule: rows_from.induct)
  case (2 r l ls)
  show ?case
  proof (cases "feed_line r l")
    case (Inl y)
    then show ?thesis using "2.prems" by (auto simp: feed_line_def bind_sum_Inl dest: feed_chars_error)
  next
    case (Inr r')
    then show ?thesis using 2 by (auto simp: case_prod_unfold Let_def split: if_splits)
  qed
qed (simp split: if_splits)

lemma scan_raw_error:
  assumes "scan_raw raw = Inl x"
  shows "isinstance x Exception"
proof -
  from assms obtain t where "scan_text t = Inl x"
    by (auto simp: scan_raw_def split: if_splits sum.splits)
  then have "snd (rows_from reset_reader (lines_keep t)) = Some x"
    by (auto simp: scan_text_def csv_rows_def split: prod.splits option.splits)
  then show ?thesis by (rule rows_from_error)
qed

lemma validation_ordinary: "isinstance validation_error Exception"
  by (simp add: validation_error_def)

lemma with_retry_error: "with_retry e a m err = Inl x \<Longrightarrow> isinstance x Exception"
  by (auto simp: with_retry_def mk_retry_info_def bind_sum_Inl validation_ordinary Let_def split: if_splits)

lemma float_to_int_error: "float_to_int y = Inl x \<Longrightarrow> isinstance x Exception"
  by (cases y) (auto simp: value_error_ordinary)

lemma assert_supported_error: "assert_supported e = Inl x \<Longrightarrow> isinstance x Exception"
  by (auto simp: assert_supported_def bind_sum_Inl schema_major_def unsupported_version_def assertion_error_def
      value_error_ordinary dest!: py_int_error split: option.splits if_splits)

section \<open>The handler\<close>

text \<open>The exceptions of broker, table, files and of \<open>base**attempt\<close> are subclasses of \<open>Exception\<close>.\<close>

definition ordinary :: "environ \<Rightarrow> bool" where
  "ordinary E \<longleftrightarrow> (\<forall>h st x. sql_reply E h st = Some x \<longrightarrow> isinstance x Exception)
     \<and> (\<forall>h ch p x. publish_reply E h ch p = Some x \<longrightarrow> isinstance x Exception)
     \<and> (\<forall>h ch tag x. ack_reply E h ch tag = Some x \<longrightarrow> isinstance x Exception)
     \<and> (\<forall>h p x. getsize_reply E h p = Inl x \<longrightarrow> isinstance x Exception)
     \<and> (\<forall>h p x. read_reply E h p = Inl x \<longrightarrow> isinstance x Exception)
     \<and> (\<forall>y n x. c_pow E y n = Inl x \<longrightarrow> isinstance x Exception)"

lemma clean_sql_op:
  assumes "ordinary E"
  shows "fails_clean (is_done E k)" "fails_clean (mark_done E k c)"
  using assms
  by (auto simp: fails_clean_def is_done_cases mark_done_cases ordinary_def split: option.splits)

lemma clean_publish: "ordinary E \<Longrightarrow> fails_clean (basic_publish E ch p)"
  unfolding basic_publish_def by (rule clean_call) (auto simp: ordinary_def)

lemma clean_basic_ack: "ordinary E \<Longrightarrow> fails_clean (basic_ack E ch tag)"
  unfolding basic_ack_def by (rule clean_call) (auto simp: ordinary_def)

lemma uncounted_ops: "uncounted (basic_publish E ch p)" "uncounted (basic_ack E ch tag)"
  by (simp_all add: basic_publish_def basic_ack_def uncounted_call)

lemma clean_publish_ack:
  assumes "ordinary E" and "\<And>n. n \<in> set ms \<Longrightarrow> total n"
  shows "fails_clean (seq_io (basic_publish E ch p # basic_ack E ch' tag # ms))"
  unfolding seq_io.simps(2) [of "basic_publish E ch p"]
  by (intro clean_bind clean_publish clean_ack clean_basic_ack uncounted_ops assms)

lemma clean_dlq:
  assumes "ordinary E"
  shows "fails_clean (seq_io (dlq_and_ack E C tag e reason))"
  unfolding dlq_and_ack_def publish_dlq_def publish_def
  by (rule clean_publish_ack [OF assms]) auto

lemma clean_scan:
  assumes "ordinary E"
  shows "fails_clean (scan_csv_file E S p)"
  unfolding scan_csv_file_def
  using assms
  by (intro clean_bind clean_if clean_ask clean_lift uncounted_ask)
    (auto simp: ordinary_def intro: clean_total scan_raw_error simp: total_def ret_io_def)

lemma backoff_error: "ordinary E \<Longrightarrow> backoff_delay_ms E S n = Inl x \<Longrightarrow> isinstance x Exception"
  unfolding backoff_delay_ms_def ordinary_def bind_sum_Inl by (blast dest: float_to_int_error)

lemma clean_handle_results:
  assumes "ordinary E"
  shows "fails_clean (handle_results E C tag e rs)"
  unfolding handle_results_def Let_def
proof (intro clean_if)
  show "fails_clean (seq_io [mark_done E (idempotencyKey e) (correlationId e), basic_ack E (con_channel C) tag,
      inc_consumed ''success''])"
    unfolding seq_io.simps(2) [of "mark_done _ _ _"]
    by (intro clean_bind uncounted_mark_done clean_sql_op clean_ack clean_basic_ack uncounted_ops assms) simp
  show "fails_clean (bind_io (lift_sum (with_retry e a m err)) (\<lambda>ev. seq_io (dlq_and_ack E C tag ev reason)))"
    for a m err reason
    by (intro clean_bind uncounted_lift clean_lift clean_dlq assms) (rule with_retry_error)
  show "fails_clean (bind_io (lift_sum (with_retry e a m err)) (\<lambda>ev. bind_io (lift_sum (backoff_delay_ms E S n))
      (\<lambda>ms. seq_io [publish_retry E (con_publisher C) ev ms, basic_ack E (con_channel C) tag, inc_consumed ''retry''])))"
    for a m err n S
    unfolding publish_retry_def publish_def
    by (intro clean_bind uncounted_lift clean_lift clean_publish_ack assms with_retry_error backoff_error [OF assms]) auto
qed

lemma clean_run_uploads: "0 < upload_max_concurrency S \<Longrightarrow> fails_clean (run_uploads E S e p)"
  by (rule clean_total) (metis total_def run_uploads_report)

lemma clean_csv:
  assumes "ordinary E"
  shows "fails_clean (seq_io (map (\<lambda>i. inc_csv_rejections (issue_type i)) issues @ dlq_and_ack E C tag e reason))"
  unfolding seq_io_append
proof (rule clean_bind)
  show "uncounted (seq_io (map (\<lambda>i. inc_csv_rejections (issue_type i)) issues))"
    by (rule uncounted_seq)
      (auto simp: uncounted_def keeps_def inc_csv_rejections_def modify_io_def consumer_counts_def)
  show "fails_clean (seq_io (map (\<lambda>i. inc_csv_rejections (issue_type i)) issues))"
    by (intro clean_total total_seq) auto
qed (rule clean_dlq [OF assms])

lemma clean_blocks:
  assumes o: "ordinary E"
  shows "fails_clean (malformed_block E C tag props body)" "fails_clean (duplicate_block E C tag)"
    "fails_clean (ask_file E e)" "uncounted (ask_file E e)"
proof -
  show "fails_clean (malformed_block E C tag props body)"
    unfolding malformed_block_def dead_letter_raw_def by (rule clean_publish_ack [OF o]) auto
  show "fails_clean (duplicate_block E C tag)"
    unfolding duplicate_block_def by (rule clean_ack [OF uncounted_ops(2) clean_basic_ack [OF o]]) auto
  show "fails_clean (ask_file E e)" unfolding ask_file_def by (rule clean_ask) simp
  show "uncounted (ask_file E e)" unfolding ask_file_def by (rule uncounted_ask)
qed

lemma clean_supported_stage:
  assumes "ordinary E" and "0 < upload_max_concurrency S"
  shows "fails_clean (supported_stage E (worker_consumer ch S) tag e)"
proof -
  have W: "con_settings (worker_consumer ch S) = S" by (simp add: worker_consumer_def)
  show ?thesis
    unfolding supported_stage_def fresh_stage_def file_stage_def issue_stage_def upload_stage_def W
    by (intro clean_bind clean_if uncounted_is_done uncounted_scan uncounted_run_uploads clean_sql_op clean_blocks clean_scan
      clean_run_uploads clean_csv clean_dlq clean_handle_results assms)
qed

lemma handle_fails_clean:
  assumes o: "ordinary E" and k: "0 < upload_max_concurrency S"
  shows "fails_clean (handle E (worker_consumer ch S) tag props body)"
proof (rule handle_stage_cases)
  fix e x
  assume "assert_supported e = Inl x"
  then have "fails_clean (raise_io x :: (world, unit) io)"
    using assert_supported_error by (simp add: fails_clean_def raise_io_def)
  then show "fails_clean (unsupported_block E (worker_consumer ch S) tag e x)"
    unfolding unsupported_block_def by (intro clean_if clean_dlq o)
qed (use clean_blocks(1) [OF o] clean_supported_stage [OF o k] in blast)+

section \<open>When a key enters the table\<close>

definition unmarking :: "(world, 'a) io \<Rightarrow> bool" where
  "unmarking m \<longleftrightarrow> keeps (\<lambda>w w'. table w' = table w) m"

lemma preorder_table: "preorder_rel (\<lambda>w w'. table w' = table w)"
  by (simp add: preorder_rel_def)

lemma bind_marked:
  assumes "bind_io m f w = (r, w')" and "table w' \<noteq> table w" and "unmarking m"
  shows "\<exists>x w1. m w = (Return x, w1) \<and> table w1 = table w \<and> f x w1 = (r, w')"
proof -
  obtain q w1 where q: "m w = (q, w1)" by fastforce
  then have "table w1 = table w" using assms(3) keepsD unfolding unmarking_def by fastforce
  with q assms(1,2) show ?thesis by (cases q) (auto simp: bind_io_def)
qed

lemma unmarking_seq: "(\<And>m. m \<in> set ms \<Longrightarrow> unmarking m) \<Longrightarrow> unmarking (seq_io ms)"
  unfolding unmarking_def by (rule keeps_seq [OF preorder_table])

lemma unmarking_bind: "unmarking m \<Longrightarrow> (\<And>x. unmarking (f x)) \<Longrightarrow> unmarking (bind_io m f)"
  unfolding unmarking_def by (rule keeps_bind [OF preorder_table])

lemma unmarking_basic [simp]:
  "unmarking (call reply ok bad)" "unmarking (ask answer a)" "unmarking (lift_sum z)" "unmarking (raise_io x)"
  "unmarking (ret_io y)" "unmarking (get_io g)"
  by (simp_all add: unmarking_def keeps_call keeps_ask keeps_lift_sum keeps_raise keeps_ret keeps_get preorder_table)

lemma unmarking_ops [simp]:
  "unmarking (is_done E k)" "unmarking (basic_publish E ch p)" "unmarking (basic_ack E ch tag)"
  by (simp_all add: is_done_def sql_def basic_publish_def basic_ack_def unmarking_bind)

lemma unmarking_incs [simp]:
  "unmarking inc_published" "unmarking (inc_consumed l)" "unmarking (observe_duration p)" "unmarking (inc_uploads p l)"
  "unmarking inc_dlq" "unmarking inc_idempotency_hits" "unmarking (inc_csv_rejections t)"
  by (simp_all add: unmarking_def keeps_def inc_defs modify_io_def)

lemma unmarking_dlq: "m \<in> set (dlq_and_ack E C tag e reason) \<Longrightarrow> unmarking m"
  by (auto simp: dlq_and_ack_def publish_dlq_def publish_def)

lemma unmarking_scan: "unmarking (scan_csv_file E S p)"
  unfolding scan_csv_file_def by (auto intro!: unmarking_bind)

lemma unmarking_run_uploads: "unmarking (run_uploads E S e p)"
  unfolding unmarking_def
proof (rule keepsI)
  fix w :: world
  consider "0 < upload_max_concurrency S" | "upload_max_concurrency S = 0" "destinations e \<noteq> []"
    | "upload_max_concurrency S = 0" "destinations e = []" | "upload_max_concurrency S < 0"
    by (cases "destinations e = []") linarith+
  then show "table (snd (run_uploads E S e p w)) = table w"
  proof cases
    case 1
    from run_uploads_report [OF this, of E e p w] show ?thesis by (auto simp: same_books_def)
  next
    case 3
    then show ?thesis by (simp add: run_uploads_nothing)
  qed (simp_all add: run_uploads_no_permit run_uploads_negative)
qed

lemma handle_results_marks:
  assumes "handle_results E C tag e rs w = (r, w')" and "table w' \<noteq> table w"
  shows "list_all res_ok rs \<and> (\<exists>now b. table w' = insert_or_ignore (table w) (idempotencyKey e) (correlationId e, now)
    \<and> history w' = history w @ Sql (InsertKey (idempotencyKey e) (correlationId e)) # b)"
proof -
  have "unmarking (handle_results E C tag e rs)" if "failures_of rs \<noteq> []"
    unfolding handle_results_def Let_def using that
    by (auto intro!: unmarking_bind unmarking_seq simp del: seq_io.simps
      simp: publish_retry_def publish_def dest: unmarking_dlq)
  then have ok: "failures_of rs = []" using assms keepsD unfolding unmarking_def by fastforce
  define m where "m = seq_io [basic_ack E (con_channel C) tag, inc_consumed ''success'']"
  have run: "bind_io (mark_done E (idempotencyKey e) (correlationId e)) (\<lambda>_. m) w = (r, w')"
    using assms(1) ok by (simp add: handle_results_def m_def)
  show ?thesis
  proof (cases "sql_reply E (history w) (InsertKey (idempotencyKey e) (correlationId e))")
    case (Some x)
    then show ?thesis using run assms(2) by (auto simp: bind_io_def mark_done_cases)
  next
    case None
    let ?w1 = "(add_action (Sql (InsertKey (idempotencyKey e) (correlationId e))) w)
        \<lparr>table := insert_or_ignore (table w) (idempotencyKey e) (correlationId e, sql_now E (history w))\<rparr>"
    have m: "m ?w1 = (r, w')" using run None by (simp add: bind_io_def mark_done_cases)
    have "unmarking m" "keeps grows m"
      unfolding m_def basic_ack_def
      by (auto intro!: unmarking_seq keeps_seq [OF preorder_grows] keeps_call grows_add
        simp del: seq_io.simps)
        (auto simp: keeps_def inc_consumed_def modify_io_def grows_def)
    with m have "table w' = table ?w1" "grows ?w1 w'"
      unfolding unmarking_def by (blast dest: keepsD)+
    then show ?thesis using ok by (auto simp: failures_Nil grows_def)
  qed
qed

lemma keeps_grows_ops: "keeps grows (is_done E k)" "keeps grows (ask answer a)" "keeps grows (scan_csv_file E S p)"
  unfolding is_done_def sql_def scan_csv_file_def
  by (intro keeps_if keeps_bind keeps_ask keeps_call keeps_get keeps_lift_sum keeps_ret preorder_grows grows_add)+

lemma grows_Return: "keeps grows m \<Longrightarrow> m w = (r, w') \<Longrightarrow> \<exists>h. history w' = history w @ h"
  by (drule (1) keepsD) (simp add: grows_def)

text \<open>A stage that changes the table goes on to the next one.\<close>

lemma unmarking_dlq_block: "unmarking (seq_io (dlq_and_ack E C tag e reason))"
  by (rule unmarking_seq) (rule unmarking_dlq)

lemma unmarking_blocks:
  "unmarking (malformed_block E C tag props body)" "unmarking (unsupported_block E C tag e x)"
  "unmarking (duplicate_block E C tag)" "unmarking (ask_file E e)"
  unfolding malformed_block_def unsupported_block_def duplicate_block_def ask_file_def dead_letter_raw_def
  by (auto simp: unmarking_dlq_block simp del: seq_io.simps intro!: unmarking_seq)

lemma unmarkedD: "unmarking m \<Longrightarrow> m v = (r, w') \<Longrightarrow> table w' \<noteq> table v \<Longrightarrow> False"
  unfolding unmarking_def using keepsD by fastforce

lemma marked_upload_stage:
  assumes run: "upload_stage E (worker_consumer ch S) tag e v = (r, w')" and marked: "table w' \<noteq> table v"
    and dests: "destinations e \<noteq> []"
  shows "\<exists>rs u now b. list_all res_ok rs \<and> upload_report S (event_path e) (destinations e) (nat (upload_max_concurrency S)) u rs
    \<and> table w' = insert_or_ignore (table v) (idempotencyKey e) (correlationId e, now)
    \<and> history w' = history v @ u @ Sql (InsertKey (idempotencyKey e) (correlationId e)) # b"
proof -
  have "bind_io (run_uploads E S e (event_path e)) (handle_results E (worker_consumer ch S) tag e) v = (r, w')"
    using run by (simp add: upload_stage_def worker_consumer_def)
  from bind_marked [OF this marked unmarking_run_uploads] obtain rs v2
    where rs: "run_uploads E S e (event_path e) v = (Return rs, v2)" and t: "table v2 = table v"
      and res: "handle_results E (worker_consumer ch S) tag e rs v2 = (r, w')" by auto
  from run_uploads_Return [OF rs dests] obtain u where u: "history v2 = history v @ u"
    "upload_report S (event_path e) (destinations e) (nat (upload_max_concurrency S)) u rs" by metis
  from handle_results_marks [OF res] marked t u show ?thesis by fastforce
qed

lemma marked_file_stage:
  assumes run: "file_stage E (worker_consumer ch S) tag e there v = (r, w')" and marked: "table w' \<noteq> table v"
  shows "\<exists>g v2. there \<and> scan_csv_file E S (event_path e) v = (Return [], v2) \<and> history v2 = history v @ g
    \<and> table v2 = table v \<and> upload_stage E (worker_consumer ch S) tag e v2 = (r, w')"
proof -
  have there: there
    using run marked unmarkedD [OF unmarking_dlq_block] by (auto simp: file_stage_def simp del: seq_io.simps split: if_splits)
  then have "bind_io (scan_csv_file E S (event_path e)) (issue_stage E (worker_consumer ch S) tag e) v = (r, w')"
    using run by (simp add: file_stage_def worker_consumer_def)
  from bind_marked [OF this marked unmarking_scan] obtain issues v2
    where scan: "scan_csv_file E S (event_path e) v = (Return issues, v2)" and t: "table v2 = table v"
      and rest: "issue_stage E (worker_consumer ch S) tag e issues v2 = (r, w')" by auto
  have "unmarking (seq_io (map (\<lambda>i. inc_csv_rejections (issue_type i)) issues
      @ dlq_and_ack E (worker_consumer ch S) tag e ''csv_security_check_failed''))"
    by (rule unmarking_seq) (auto dest: unmarking_dlq)
  then have "issues = []"
    using rest marked t unmarkedD by (fastforce simp: issue_stage_def simp del: seq_io.simps split: if_splits)
  moreover obtain g where "history v2 = history v @ g" using grows_Return [OF keeps_grows_ops(3) scan] by blast
  ultimately show ?thesis using there scan t rest by (auto simp: issue_stage_def)
qed

lemma handle_marks:
  assumes run: "handle E (worker_consumer ch S) tag props body w = (r, w')" and marked: "table w' \<noteq> table w"
  shows "\<exists>e rs g u now b. admitted E w body e \<and> file_present E w e \<and> scan_outcome E S w e = Return []
    \<and> list_all res_ok rs \<and> upload_report S (event_path e) (destinations e) (nat (upload_max_concurrency S)) u rs
    \<and> table w' = insert_or_ignore (table w) (idempotencyKey e) (correlationId e, now)
    \<and> history w' = history w @ g @ u @ Sql (InsertKey (idempotencyKey e) (correlationId e)) # b"
proof -
  obtain e where e: "from_json_bytes E body = Inr e" "assert_supported e = Inr ()"
    and s: "supported_stage E (worker_consumer ch S) tag e w = (r, w')"
    using run marked
    by (auto simp: handle_stages split: sum.splits dest: unmarkedD [OF unmarking_blocks(1)] unmarkedD [OF unmarking_blocks(2)])
  define v1 v2 where "v1 = add_action (Sql (SelectKey (idempotencyKey e))) w" and "v2 = add_action (IsFile (event_path e)) v1"
  have t: "table v1 = table w" "table v2 = table w" by (simp_all add: v1_def v2_def)
  have h: "history v2 = history w @ [Sql (SelectKey (idempotencyKey e)), IsFile (event_path e)]" by (simp add: v1_def v2_def)
  from bind_marked [OF s [unfolded supported_stage_def] marked] obtain dup
    where d: "is_done E (idempotencyKey e) w = (Return dup, v1)" "fresh_stage E (worker_consumer ch S) tag e dup v1 = (r, w')"
    by (auto simp: is_done_Return v1_def)
  have new: "\<not> dup"
    using d(2) marked t(1) by (auto simp: fresh_stage_def split: if_splits dest: unmarkedD [OF unmarking_blocks(3)])
  then have adm: "admitted E w body e" using e d(1) by (simp add: admitted_def is_done_Return)
  have f: "file_stage E (worker_consumer ch S) tag e (file_present E w e) v2 = (r, w')"
    using d(2) new by (auto simp: fresh_stage_def ask_file_def bind_io_def ask_def file_present_def v2_def v1_def)
  obtain g v3 where v3: "file_present E w e" "scan_csv_file E S (event_path e) v2 = (Return [], v3)" "history v3 = history v2 @ g"
    "table v3 = table w" "upload_stage E (worker_consumer ch S) tag e v3 = (r, w')"
    using marked_file_stage [OF f] marked t(2) by auto
  have "destinations e \<noteq> []" using from_json_bytes_valid [OF e(1)] by (simp add: valid_event_def)
  from marked_upload_stage [OF v3(5) _ this] marked v3(4) obtain rs u now b where "list_all res_ok rs"
    "upload_report S (event_path e) (destinations e) (nat (upload_max_concurrency S)) u rs"
    "table w' = insert_or_ignore (table w) (idempotencyKey e) (correlationId e, now)"
    "history w' = history v3 @ u @ Sql (InsertKey (idempotencyKey e) (correlationId e)) # b" by auto
  moreover have "scan_outcome E S w e = Return []" using scan_outcome_intro [OF v3(2)] h by simp
  ultimately show ?thesis using adm v3(1,3) h by (metis append.assoc)
qed

end
