(* ===== verification/Consumer_Loop.thy ===== *)
theory Consumer_Loop
  imports Consumer_Accounting
begin

text \<open>
  The loop around the handler: what one item does to the world, the books kept over any sequence
  of items, and the keys that stay in the table for good.
\<close>

section \<open>Books\<close>

fun is_ack :: "nat \<Rightarrow> action \<Rightarrow> bool" where
  "is_ack ch (Acked c tag) \<longleftrightarrow> c = ch"
| "is_ack ch _ \<longleftrightarrow> False"

definition acks :: "nat \<Rightarrow> action list \<Rightarrow> nat" where
  "acks ch h = length (filter (is_ack ch) h)"

definition consumed_total :: "registry \<Rightarrow> nat" where
  "consumed_total c = sum_list (map (\<lambda>l. EVENTS_CONSUMED_TOTAL c (lit l)) [''success'', ''retry'', ''dlq'', ''duplicate''])"

text \<open>
  Between two states: as many acknowledgements as consumed events, as many dead letters as events
  consumed with the result \<open>dlq\<close>, as many duplicate hits as events consumed as duplicates.
\<close>

definition balanced :: "nat \<Rightarrow> world \<Rightarrow> world \<Rightarrow> bool" where
  "balanced ch w w' \<longleftrightarrow>
     acks ch (history w') + consumed_total (counters w) = acks ch (history w) + consumed_total (counters w')
   \<and> DLQ_MESSAGES_TOTAL (counters w') + EVENTS_CONSUMED_TOTAL (counters w) (lit ''dlq'')
     = DLQ_MESSAGES_TOTAL (counters w) + EVENTS_CONSUMED_TOTAL (counters w') (lit ''dlq'')
   \<and> IDEMPOTENCY_HITS_TOTAL (counters w') + EVENTS_CONSUMED_TOTAL (counters w) (lit ''duplicate'')
     = IDEMPOTENCY_HITS_TOTAL (counters w) + EVENTS_CONSUMED_TOTAL (counters w') (lit ''duplicate'')"

lemma acks_simps [simp]: "acks ch [] = 0" "acks ch (g @ h) = acks ch g + acks ch h"
    "acks ch (a # h) = (if is_ack ch a then 1 else 0) + acks ch h"
  by (simp_all add: acks_def)

lemma no_ack_acks: "no_ack h \<Longrightarrow> acks ch h = 0"
proof (induction h)
  case (Cons a h)
  then show ?case by (cases a) simp_all
qed simp

lemma preorder_balanced: "preorder_rel (balanced ch)"
  by (auto simp: preorder_rel_def balanced_def)

lemma counted_balanced:
  assumes "counted (verdict_label v) (counters w) (counters w')"
    and "acks ch (history w') = acks ch (history w) + 1"
  shows "balanced ch w w'"
  using assms by (cases v) (auto simp: counted_def consumer_counts_def balanced_def consumed_total_def)

lemma handle_balanced:
  assumes o: "ordinary E" and k: "0 < upload_max_concurrency S"
  shows "keeps (balanced ch) (handle E (worker_consumer ch S) tag props body)"
proof (rule keepsI)
  fix w :: world
  let ?m = "handle E (worker_consumer ch S) tag props body"
  obtain r w' where r: "?m w = (r, w')" by fastforce
  have "wf_consumer (worker_consumer ch S)" by (simp add: wf_consumer_def worker_consumer_def)
  from exits_handle [OF this, of E body tag props w]
  have ex: "case r of Return _ \<Rightarrow> \<exists>pre. history w' = history w @ pre @ [Acked ch tag] \<and> no_ack pre
      | _ \<Rightarrow> \<exists>h. history w' = history w @ h \<and> no_ack h"
    using r by (auto simp: exits_at_def worker_consumer_def split: outcome.splits)
  have "balanced ch w w'"
  proof (cases "\<exists>y. r = Return y")
    case True
    then obtain y where y: "r = Return y" ..
    with handle_verdict r obtain v h where "carried_out E S ch props body v w h w'" by blast
    moreover have "acks ch (history w') = acks ch (history w) + 1" using ex y by (auto simp: no_ack_acks)
    ultimately show ?thesis by (auto simp: carried_out_def intro: counted_balanced)
  next
    case False
    have "case ?m w of (Return _, _) \<Rightarrow> True
      | (Raise x, w') \<Rightarrow> isinstance x Exception \<and> consumer_counts (counters w') = consumer_counts (counters w)
      | (Hang, _) \<Rightarrow> False"
      by (rule handle_fails_clean [OF o k, unfolded fails_clean_def, THEN spec])
    then have "consumer_counts (counters w') = consumer_counts (counters w)"
      using r False by (auto split: outcome.splits)
    moreover have "acks ch (history w') = acks ch (history w)"
      using ex False by (auto simp: no_ack_acks split: outcome.splits)
    ultimately show ?thesis by (simp add: balanced_def consumed_total_def consumer_counts_def)
  qed
  then show "balanced ch w (snd (?m w))" using r by simp
qed

lemma loop_balanced:
  assumes o: "ordinary E" and k: "0 < upload_max_concurrency S"
  shows "keeps (balanced ch) (consume_loop E (worker_consumer ch S) items)"
proof (induction items)
  case Nil
  show ?case by (simp add: keeps_ret preorder_balanced)
next
  case (Cons x items)
  obtain stop item where x: "x = (stop, item)" by fastforce
  note r = keeps_ret keeps_raise keeps_bind keeps_try preorder_balanced handle_balanced [OF o k] Cons.IH
  show ?case by (cases item) (simp_all add: x r)
qed

section \<open>Isolation of deliveries\<close>

definition after_item :: "environ \<Rightarrow> consumer \<Rightarrow> bool \<times> consume_item \<Rightarrow> world \<Rightarrow> world" where
  "after_item E C x w = (case snd x of Deliver tag props body \<Rightarrow> snd (handle E C tag props body w) | _ \<Rightarrow> w)"

definition going_on :: "bool \<times> consume_item \<Rightarrow> bool" where
  "going_on x \<longleftrightarrow> \<not> fst x \<and> (case snd x of ConsumeError _ \<Rightarrow> False | _ \<Rightarrow> True)"

lemma guarded_handle:
  assumes o: "ordinary E" and k: "0 < upload_max_concurrency S"
  shows "try_except (handle E (worker_consumer ch S) tag props body) Exception (\<lambda>_. ret_io ()) w
    = (Return (), snd (handle E (worker_consumer ch S) tag props body w))"
proof -
  have "case handle E (worker_consumer ch S) tag props body w of (Return _, _) \<Rightarrow> True
      | (Raise x, w') \<Rightarrow> isinstance x Exception \<and> consumer_counts (counters w') = consumer_counts (counters w)
      | (Hang, _) \<Rightarrow> False"
    by (rule handle_fails_clean [OF o k, unfolded fails_clean_def, THEN spec])
  then show ?thesis by (auto simp: try_except_def ret_io_def split: prod.splits outcome.splits)
qed

lemma loop_isolated:
  assumes o: "ordinary E" and k: "0 < upload_max_concurrency S" and go: "list_all going_on items"
  shows "consume_loop E (worker_consumer ch S) items w = (Return (), fold (after_item E (worker_consumer ch S)) items w)"
  using go
proof (induction items arbitrary: w)
  case Nil
  show ?case by (simp add: ret_io_def)
next
  case (Cons x items)
  obtain stop item where x: "x = (stop, item)" by fastforce
  with Cons.prems have s: "\<not> stop" by (simp add: going_on_def)
  show ?case
  proof (cases item)
    case (Deliver tag props body)
    then show ?thesis using Cons s by (simp add: x bind_io_def guarded_handle [OF o k] after_item_def)
  qed (use Cons s in \<open>auto simp: x after_item_def going_on_def\<close>)
qed

lemma loop_stops: "consume_loop E C (pre @ (True, Tick) # post) = consume_loop E C (pre @ [(True, Tick)])"
proof (induction pre)
  case (Cons x pre)
  obtain stop item where x: "x = (stop, item)" by fastforce
  then show ?case using Cons by (cases item) simp_all
qed simp

section \<open>The table only grows\<close>

definition table_grows :: "world \<Rightarrow> world \<Rightarrow> bool" where
  "table_grows w w' \<longleftrightarrow> (\<exists>rows. table w' = table w @ rows) \<and> (unique_keys (table w) \<longrightarrow> unique_keys (table w'))"

lemma preorder_table_grows: "preorder_rel table_grows"
  unfolding preorder_rel_def table_grows_def by (metis append.assoc append_Nil2)

lemma insert_grows: "\<exists>rows. insert_or_ignore t k v = t @ rows"
  by (simp add: insert_or_ignore_def)

lemma handle_table_grows: "keeps table_grows (handle E (worker_consumer ch S) tag props body)"
proof (rule keepsI)
  fix w :: world
  obtain r w' where r: "handle E (worker_consumer ch S) tag props body w = (r, w')" by fastforce
  have "table_grows w w'"
  proof (cases "table w' = table w")
    case False
    from handle_marks [OF r this] obtain e :: transfer_event and now
      where "table w' = insert_or_ignore (table w) (idempotencyKey e) (correlationId e, now)" by blast
    then show ?thesis using insert_grows sqlite.invar_mark by (simp add: table_grows_def)
  qed (simp add: table_grows_def)
  then show "table_grows w (snd (handle E (worker_consumer ch S) tag props body w))" using r by simp
qed

lemma loop_table_grows: "keeps table_grows (consume_loop E (worker_consumer ch S) items)"
proof (induction items)
  case Nil
  show ?case by (simp add: keeps_ret preorder_table_grows)
next
  case (Cons x items)
  obtain stop item where x: "x = (stop, item)" by fastforce
  note r = keeps_ret keeps_raise keeps_bind keeps_try preorder_table_grows handle_table_grows Cons.IH
  show ?case by (cases item) (simp_all add: x r)
qed

end
