(* ===== verification/Sample.thy ===== *)
theory Sample
  imports World
begin

text \<open>
  A concrete outside world on which the properties are instantiated: a JSON codec that meets
  \<open>json_laws\<close>, an event for both clouds, and an environment in which every call succeeds.
\<close>

section \<open>A codec for JSON documents\<close>

definition enc_nat :: "nat \<Rightarrow> bytes" where
  "enc_nat n = replicate n 1 @ [0]"

definition dec_nat :: "bytes \<Rightarrow> nat \<times> bytes" where
  "dec_nat bs = (length (takeWhile (\<lambda>b. b = 1) bs), drop 1 (dropWhile (\<lambda>b. b = 1) bs))"

fun dec_many :: "(bytes \<Rightarrow> 'a \<times> bytes) \<Rightarrow> nat \<Rightarrow> bytes \<Rightarrow> 'a list \<times> bytes" where
  "dec_many f 0 bs = ([], bs)"
| "dec_many f (Suc n) bs = (let (x, r) = f bs; (xs, r') = dec_many f n r in (x # xs, r'))"

definition enc_str :: "pystr \<Rightarrow> bytes" where
  "enc_str s = enc_nat (length s) @ concat (map enc_nat s)"

definition dec_str :: "bytes \<Rightarrow> pystr \<times> bytes" where
  "dec_str bs = (let (n, r) = dec_nat bs in dec_many dec_nat n r)"

fun enc_json :: "json \<Rightarrow> bytes" where
  "enc_json JNull = enc_nat 0"
| "enc_json (JBool b) = enc_nat (if b then 2 else 1)"
| "enc_json (JInt n) = enc_nat (if n < 0 then 3 else 4) @ enc_nat (nat \<bar>n\<bar>)"
| "enc_json (JNum t) = enc_nat 5 @ enc_str t"
| "enc_json (JStr s) = enc_nat 6 @ enc_str s"
| "enc_json (JArr js) = enc_nat 7 @ enc_nat (length js) @ concat (map enc_json js)"
| "enc_json (JObj kvs) = enc_nat 8 @ enc_nat (length kvs) @ concat (map (\<lambda>(k, j). enc_str k @ enc_json j) kvs)"

fun dec_json :: "nat \<Rightarrow> bytes \<Rightarrow> json \<times> bytes" where
  "dec_json 0 bs = (JNull, bs)"
| "dec_json (Suc f) bs = (let (t, r) = dec_nat bs in
     if t = 0 then (JNull, r)
     else if t = 1 then (JBool False, r)
     else if t = 2 then (JBool True, r)
     else if t = 3 then (let (n, r') = dec_nat r in (JInt (- int n), r'))
     else if t = 4 then (let (n, r') = dec_nat r in (JInt (int n), r'))
     else if t = 5 then (let (s, r') = dec_str r in (JNum s, r'))
     else if t = 6 then (let (s, r') = dec_str r in (JStr s, r'))
     else if t = 7 then (let (n, r') = dec_nat r; (js, r'') = dec_many (dec_json f) n r' in (JArr js, r''))
     else (let (n, r') = dec_nat r;
           (kvs, r'') = dec_many (\<lambda>b. let (k, b') = dec_str b; (j, b'') = dec_json f b' in ((k, j), b'')) n r'
       in (JObj kvs, r'')))"

lemma dec_enc_nat [simp]: "dec_nat (enc_nat n @ r) = (n, r)"
proof -
  have "takeWhile (\<lambda>b. b = (1 :: 8 word)) (replicate n 1 @ 0 # r) = replicate n 1"
    and "dropWhile (\<lambda>b. b = (1 :: 8 word)) (replicate n 1 @ 0 # r) = 0 # r"
    by (induction n) auto
  then show ?thesis by (simp add: dec_nat_def enc_nat_def)
qed

lemma dec_many_enc:
  "(\<And>x r. x \<in> set xs \<Longrightarrow> f (g x @ r) = (x, r)) \<Longrightarrow>
   dec_many f (length xs) (concat (map g xs) @ r) = (xs, r)"
  by (induction xs) simp_all

lemma dec_enc_str [simp]: "dec_str (enc_str s @ r) = (s, r)"
  by (simp add: dec_str_def enc_str_def dec_many_enc)

fun depth :: "json \<Rightarrow> nat" where
  "depth (JArr js) = Suc (sum_list (map depth js))"
| "depth (JObj kvs) = Suc (sum_list (map (\<lambda>(k, j). depth j) kvs))"
| "depth _ = 1"

lemma dec_enc_json: "depth j \<le> f \<Longrightarrow> dec_json f (enc_json j @ r) = (j, r)"
proof (induction f arbitrary: j r)
  case 0
  then show ?case by (cases j) simp_all
next
  case (Suc f)
  show ?case
  proof (cases j)
    case (JArr js)
    have "depth x \<le> f" if "x \<in> set js" for x
      using member_le_sum_list [of "depth x" "map depth js"] that Suc.prems JArr by auto
    then show ?thesis using JArr Suc.IH by (simp add: dec_many_enc)
  next
    case (JObj kvs)
    have "depth (snd x) \<le> f" if "x \<in> set kvs" for x
      using member_le_sum_list [of "depth (snd x)" "map (\<lambda>(k, j). depth j) kvs"] that Suc.prems JObj
      by (force simp: case_prod_unfold)
    then show ?thesis using JObj Suc.IH by (simp add: dec_many_enc case_prod_unfold)
  qed simp_all
qed

lemma depth_le_length: "depth j \<le> length (enc_json j)"
proof (induction j rule: depth.induct)
  case (1 js)
  then have "sum_list (map depth js) \<le> sum_list (map (length \<circ> enc_json) js)"
    by (intro sum_list_mono) simp
  then show ?case by (simp add: enc_nat_def length_concat)
next
  case (2 kvs)
  have "depth (snd x) \<le> length (enc_str (fst x)) + length (enc_json (snd x))" if "x \<in> set kvs" for x
    using 2 [of x "fst x" "snd x"] that by simp
  then have "sum_list (map (\<lambda>(k, j). depth j) kvs)
      \<le> sum_list (map (\<lambda>x. length (enc_str (fst x)) + length (enc_json (snd x))) kvs)"
    by (intro sum_list_mono) (simp add: case_prod_unfold)
  then show ?case by (simp add: enc_nat_def length_concat case_prod_unfold comp_def)
qed (simp_all add: enc_nat_def)

section \<open>The environment\<close>

fun sample_lax_int :: "json \<Rightarrow> int option" where
  "sample_lax_int (JInt n) = Some n"
| "sample_lax_int _ = None"

fun sample_pow :: "pyfloat \<Rightarrow> int \<Rightarrow> exn + pyfloat" where
  "sample_pow (Finite x) n = Inr (fl (x powi n))"
| "sample_pow x n = Inr x"

definition sample_csv :: bytes where
  "sample_csv = map of_nat (lit ''id,qty'' @ [10] @ lit ''17,4'' @ [10])"

text \<open>The outcomes of the uploads and the content of the files can be chosen.\<close>

definition sample_env_of :: "(action list \<Rightarrow> upload_call \<Rightarrow> upload_outcome) \<Rightarrow> bytes \<Rightarrow> environ" where
  "sample_env_of ups raw = \<lparr>
     json_loads = (\<lambda>bs. Some (fst (dec_json (length bs) bs))),
     json_dumps = enc_json,
     lax_int = sample_lax_int,
     fromisoformat_ok = (\<lambda>v. v = lit ''2026-03-01T10:00:00+00:00''),
     connect_reply = (\<lambda>_. None), channel_reply = (\<lambda>_. None),
     declare_reply = (\<lambda>_ _ _. None), confirm_reply = (\<lambda>_ _. None), qos_reply = (\<lambda>_ _ _. None),
     publish_reply = (\<lambda>_ _ _. None), ack_reply = (\<lambda>_ _ _. None), cancel_reply = (\<lambda>_ _. None),
     process_reply = (\<lambda>_ _. None), close_reply = (\<lambda>_ _. None),
     isfile_reply = (\<lambda>_ _. True), getsize_reply = (\<lambda>_ _. Inr 12),
     read_reply = (\<lambda>_ _. Inr raw),
     upload_reply = ups, upload_next = (\<lambda>_. 0), join_reply = (\<lambda>_ _. True),
     makedirs_reply = (\<lambda>_ _. None), open_db_reply = (\<lambda>_ _. None),
     sql_reply = (\<lambda>_ _. None), sql_now = (\<lambda>_. lit ''2026-03-01 10:00:00''),
     chunks_reply = (\<lambda>_ _. Inr [raw]), cwd_reply = (\<lambda>_. Inr (lit ''/app'')),
     urandom_reply = (\<lambda>h. replicate 16 (of_nat (length h))),
     clock_reply = (\<lambda>_. \<lparr>ts_year = 2026, ts_month = 3, ts_day = 1, ts_hour = 10, ts_minute = 0, ts_second = 0\<rparr>),
     observer_reply = (\<lambda>_ _. None),
     c_pow = sample_pow\<rparr>"

definition sample_env :: environ where
  "sample_env = sample_env_of (\<lambda>_ _. UploadReturned) sample_csv"

text \<open>Every upload times out.\<close>

definition failing_env :: environ where
  "failing_env = sample_env_of (\<lambda>_ _. DeadlineExceeded) sample_csv"

definition sample_event :: transfer_event where
  "sample_event = \<lparr>
     schemaVersion = lit ''1.0'',
     eventType = lit ''file.transfer.requested'',
     eventId = lit ''00000000-0000-4000-8000-000000000001'',
     correlationId = lit ''00000000-0000-4000-8000-000000000002'',
     idempotencyKey = lit ''sha256:'' @ replicate 64 97,
     occurredAt = lit ''2026-03-01T10:00:00Z'',
     ev_source = \<lparr>src_provider = lit ''sftp'', src_path = lit ''/watch/orders.csv''\<rparr>,
     ev_file = \<lparr>file_name = lit ''orders.csv'', sizeBytes = 12, checksumSha256 = replicate 64 98,
       contentType = Some (lit ''text/csv'')\<rparr>,
     destinations = [
       \<lparr>dst_provider = lit ''aws-s3'', dst_bucket = lit ''wms'', dst_key = lit ''k'', dst_region = None\<rparr>,
       \<lparr>dst_provider = lit ''gcp-gcs'', dst_bucket = lit ''wms'', dst_key = lit ''k'', dst_region = None\<rparr>],
     ev_retry = None\<rparr>"

definition sample_world :: world where
  "sample_world = \<lparr>history = [], table = [], counters = new_registry,
     readiness = [(lit ''watcher'', False), (lit ''consumer'', False)]\<rparr>"

lemma sample_json_laws: "json_laws (sample_env_of ups raw)"
  using dec_enc_json [OF depth_le_length, where r = "[]"] by (simp add: json_laws_def sample_env_of_def)

lemma sample_uuids: "uuid_ok (lit ''00000000-0000-4000-8000-000000000001'')"
  "uuid_ok (lit ''00000000-0000-4000-8000-000000000002'')"
  by (simp_all add: uuid_ok_def lit_def py_int_def replace_str.simps strip_where_def is_space_def starts_with_def split_sign_def
     base_digit_def digit_val_def nd_zeros_def digits_value_def)

lemma sample_version: "version_groups (lit ''1.0'') = Some ([49], [48])"
  by (auto simp: version_groups_iff lit_def is_digit_def digit_val_def nd_zeros_def at_end_def)

lemma sample_hex: "sha256_re (replicate 64 97)" "sha256_re (replicate 64 98)"
  by (simp_all add: sha256_re_def list_all_iff is_hex_lower_def at_end_def)

lemma sample_time: "occurred_at_ok (sample_env_of ups raw) (lit ''2026-03-01T10:00:00Z'')"
  by (simp add: occurred_at_ok_def sample_env_of_def lit_def replace_str.simps starts_with_def)

text \<open>The sample event with another version, destinations, path or retry block is an event too.\<close>

lemma sample_valid:
  assumes "str_ok v" "version_groups v \<noteq> None" "str_ok p" "ds \<noteq> []" "list_all valid_destination ds"
    "case r of None \<Rightarrow> True | Some x \<Rightarrow> valid_retry x"
  shows "valid_event (sample_env_of ups raw) (sample_event\<lparr>schemaVersion := v, ev_source := \<lparr>src_provider = lit ''sftp'', src_path = p\<rparr>,
    destinations := ds, ev_retry := r\<rparr>)"
  using assms sample_uuids sample_hex sample_time
  by (simp add: valid_event_def sample_event_def str_ok_def idempotency_re_iff valid_source_def valid_file_def
    opt_str_ok_def list_all_iff [of _ "replicate _ _"] is_scalar_def is_surrogate_def)

lemma sample_destinations: "destinations sample_event \<noteq> []" "list_all valid_destination (destinations sample_event)"
  by (simp_all add: sample_event_def valid_destination_def str_ok_def opt_str_ok_def)

lemma sample_event_valid: "valid_event (sample_env_of ups raw) sample_event"
  using sample_valid [of "lit ''1.0''" "lit ''/watch/orders.csv''" "destinations sample_event" None]
    sample_destinations sample_version
  by (simp add: str_ok_def) (simp add: sample_event_def)

lemma sample_body: "from_json_bytes (sample_env_of ups raw) (to_json_bytes (sample_env_of ups raw) sample_event) = Inr sample_event"
  by (rule from_to_json_bytes [OF sample_json_laws sample_event_valid])

lemma sample_supported: "assert_supported sample_event = Inr ()"
proof -
  have "version_groups (schemaVersion sample_event) = Some ([49], [48])"
    using sample_version by (simp add: sample_event_def)
  moreover have "py_int 10 [49] = Inr 1"
    using py_int_show_int [of 1] by (simp add: show_int_def show_nat.simps)
  ultimately show ?thesis by (simp add: assert_supported_def schema_major_def SUPPORTED_SCHEMA_MAJOR_def)
qed

definition sample_props :: properties where
  "sample_props = \<lparr>content_type = None, persistent = True, message_id = None, prop_correlation_id = None,
     expiration = None, headers = None\<rparr>"

text \<open>A world in which the sample event was processed before.\<close>

definition sample_seen :: world where
  "sample_seen = sample_world\<lparr>table := [\<lparr>row_key = idempotencyKey sample_event,
     row_correlation = correlationId sample_event, row_processed_at = []\<rparr>]\<rparr>"

lemma sample_env_simps [simp]:
  "sql_reply (sample_env_of ups raw) = (\<lambda>_ _. None)" "publish_reply (sample_env_of ups raw) = (\<lambda>_ _ _. None)"
  "ack_reply (sample_env_of ups raw) = (\<lambda>_ _ _. None)" "isfile_reply (sample_env_of ups raw) = (\<lambda>_ _. True)"
  "getsize_reply (sample_env_of ups raw) = (\<lambda>_ _. Inr 12)" "read_reply (sample_env_of ups raw) = (\<lambda>_ _. Inr raw)"
  "upload_reply (sample_env_of ups raw) = ups" "upload_next (sample_env_of ups raw) = (\<lambda>_. 0)"
  "c_pow (sample_env_of ups raw) = sample_pow"
  "json_dumps (sample_env_of ups raw) = enc_json"
  by (simp_all add: sample_env_of_def)

text \<open>The body of the sample event, in every sample environment.\<close>

definition sample_message :: bytes where
  "sample_message = enc_json (json_of_event sample_event)"

lemma sample_message_read: "from_json_bytes (sample_env_of ups raw) sample_message = Inr sample_event"
  using sample_body [of ups raw] by (simp add: sample_message_def to_json_bytes_def)

end
