(* ===== verification/Consumer_Scenarios.thy ===== *)
theory Consumer_Scenarios
  imports Consumer_Loop Sample
begin

text \<open>
  Runs of the handler followed forwards: where a delivery gets to when the checks pass, what uniform
  upload outcomes give, one hop through the retry queue and chains of hops, and the facts about the
  sample environment that the witnesses share.
\<close>

section \<open>Up to the upload\<close>

lemma scan_effect:
  "\<exists>g. history (snd (scan_csv_file E S p w)) = history w @ g \<and> no_ack g
    \<and> table (snd (scan_csv_file E S p w)) = table w \<and> counters (snd (scan_csv_file E S p w)) = counters w"
  by (auto simp: scan_csv_file_def bind_io_def ask_def ret_io_def lift_sum_def raise_io_def split: sum.splits)

lemma handle_reaches_scan:
  assumes "admitted E w body e" and "file_present E w e"
    and "sql_reply E (history w) (SelectKey (idempotencyKey e)) = None"
  shows "handle E (worker_consumer ch S) tag props body w =
    bind_io (scan_csv_file E S (event_path e)) (\<lambda>issues. if issues \<noteq> []
      then seq_io (map (\<lambda>i. inc_csv_rejections (issue_type i)) issues
        @ dlq_and_ack E (worker_consumer ch S) tag e ''csv_security_check_failed'')
      else bind_io (run_uploads E S e (event_path e)) (handle_results E (worker_consumer ch S) tag e))
      (add_action (IsFile (event_path e)) (add_action (Sql (SelectKey (idempotencyKey e))) w))"
proof -
  have W: "con_settings (worker_consumer ch S) = S" by (simp add: worker_consumer_def)
  have e: "from_json_bytes E body = Inr e" "assert_supported e = Inr ()" "\<not> select_key (table w) (idempotencyKey e)"
    using assms(1) by (simp_all add: admitted_def)
  show ?thesis
    unfolding handle_def Let_def e(1,2) sum.case W event_path_def
    using assms(2) [unfolded file_present_def event_path_def] assms(3) e(3)
    by (simp add: bind_io_def [of "is_done _ _"] bind_io_def [of "ask _ (IsFile _)"] is_done_cases ask_def
      del: seq_io.simps)
qed

lemma handle_reaches_upload:
  assumes "admitted E w body e" and "file_present E w e"
    and "sql_reply E (history w) (SelectKey (idempotencyKey e)) = None" and "scan_outcome E S w e = Return []"
  shows "\<exists>v g. history v = history w @ g \<and> no_ack g \<and> table v = table w
    \<and> handle E (worker_consumer ch S) tag props body w
      = bind_io (run_uploads E S e (event_path e)) (handle_results E (worker_consumer ch S) tag e) v"
proof -
  let ?w2 = "add_action (IsFile (event_path e)) (add_action (Sql (SelectKey (idempotencyKey e))) w)"
  have w2: "?w2 = w\<lparr>history := history w @ [Sql (SelectKey (idempotencyKey e)), IsFile (event_path e)]\<rparr>"
    by (simp add: add_action_def)
  have s: "fst (scan_csv_file E S (event_path e) ?w2) = Return []"
    using assms(4) unfolding scan_outcome_def w2 .
  define v where "v = snd (scan_csv_file E S (event_path e) ?w2)"
  have "scan_csv_file E S (event_path e) ?w2 = (Return [], v)" using s by (simp add: v_def prod_eq_iff)
  then have "handle E (worker_consumer ch S) tag props body w
      = bind_io (run_uploads E S e (event_path e)) (handle_results E (worker_consumer ch S) tag e) v"
    by (simp add: handle_reaches_scan [OF assms(1-3)] bind_io_def [of "scan_csv_file _ _ _"] del: seq_io.simps)
  moreover obtain g where "history v = history ?w2 @ g" "no_ack g" "table v = table ?w2"
    using scan_effect [of E S "event_path e" ?w2] unfolding v_def by blast
  ultimately show ?thesis
    by (intro exI [of _ v] exI [of _ "[Sql (SelectKey (idempotencyKey e)), IsFile (event_path e)] @ g"]) simp
qed

section \<open>Poison files\<close>

text \<open>The CSV reader raises on every delivery: a carriage return that no line feed follows.\<close>

definition poison_file :: "environ \<Rightarrow> settings \<Rightarrow> pystr \<Rightarrow> bool" where
  "poison_file E S path \<longleftrightarrow> (\<forall>h. isfile_reply E h path) \<and> (\<exists>n raw line c rest.
     (\<forall>h. getsize_reply E h path = Inr n) \<and> int n \<le> max_csv_file_size_bytes S \<and> (\<forall>h. read_reply E h path = Inr raw)
     \<and> utf8_encode (line @ 13 # c # rest) = Inr raw \<and> 0 \<notin> set raw \<and> plain line \<and> \<not> is_newline c)"

lemma poison_file_raises:
  assumes "admitted E w body e" and "\<And>h st. sql_reply E h st = None" and "poison_file E S (event_path e)"
  shows "handle E (worker_consumer ch S) tag props body w = (Raise bare_cr_error, w\<lparr>history := history w
    @ [Sql (SelectKey (idempotencyKey e)), IsFile (event_path e), GetSize (event_path e), ReadFile (event_path e)]\<rparr>)"
proof -
  obtain n raw line c rest where f: "\<And>h. getsize_reply E h (event_path e) = Inr n" "int n \<le> max_csv_file_size_bytes S"
    "\<And>h. read_reply E h (event_path e) = Inr raw" "utf8_encode (line @ 13 # c # rest) = Inr raw" "0 \<notin> set raw" "plain line"
    "\<not> is_newline c" and there: "\<And>h. isfile_reply E h (event_path e)"
    using assms(3) by (auto simp: poison_file_def)
  let ?h = "[Sql (SelectKey (idempotencyKey e)), IsFile (event_path e), GetSize (event_path e), ReadFile (event_path e)]"
  have "scan_raw raw = Inl bare_cr_error"
    using utf8_decode_encode [OF f(4)] f(5) csv_rows_bare_cr [OF f(6,7)] by (simp add: scan_raw_def scan_text_def)
  then have "scan_csv_file E S (event_path e) (add_action (IsFile (event_path e))
      (add_action (Sql (SelectKey (idempotencyKey e))) w)) = (Raise bare_cr_error, w\<lparr>history := history w @ ?h\<rparr>)"
    using f(1-3) by (simp add: scan_csv_file_def bind_io_def ask_def lift_sum_def raise_io_def add_action_def)
  then show ?thesis using handle_reaches_scan [OF assms(1)] there assms(2) by (simp add: file_present_def bind_io_def)
qed

text \<open>When every upload ends the same way, so do the results.\<close>

lemma run_uploads_uniform:
  assumes k: "0 < upload_max_concurrency S" and same: "\<And>h c. upload_reply E h c = out"
  shows "\<exists>w'. run_uploads E S e path w = (Return (map (\<lambda>d. result_of S path d out) (destinations e)), w')
    \<and> same_books w w'"
proof -
  obtain rs h w' where r: "run_uploads E S e path w = (Return rs, w')" "history w' = history w @ h" "same_books w w'"
    "upload_report S path (destinations e) (nat (upload_max_concurrency S)) h rs"
    using run_uploads_report [OF k] by blast
  obtain g where "history w' = history w @ g"
    "\<forall>c o'. wait_end c o' \<in> set g \<longrightarrow> (\<exists>f. upload_reply E f c = o')"
    using keepsD [OF answered_run_uploads r(1)] by (auto simp: answered_def)
  with r(2) same have ans: "wait_end c o' \<in> set h \<Longrightarrow> o' = out" for c o' by auto
  have "rs = map (\<lambda>d. result_of S path d out) (destinations e)"
  proof (rule nth_equalityI)
    show "length rs = length (map (\<lambda>d. result_of S path d out) (destinations e))"
      using r(4) by (simp add: upload_report_def)
    fix i
    assume "i < length rs"
    then have i: "i < length (destinations e)" using r(4) by (simp add: upload_report_def)
    then obtain o' where o': "rs ! i = result_of S path (destinations e ! i) o'"
      "set (end_actions S path (destinations e ! i) o') \<subseteq> set h"
      using r(4) by (auto simp: upload_report_def recorded_def)
    show "rs ! i = map (\<lambda>d. result_of S path d out) (destinations e) ! i"
    proof (cases "uploader_for S (destinations e ! i) path")
      case None
      then show ?thesis using o' i by (simp add: result_of_def)
    next
      case (Some c)
      then have "o' = out" using o'(2) ans by (auto simp: end_actions_def)
      then show ?thesis using o'(1) i by simp
    qed
  qed
  with r show ?thesis by blast
qed

text \<open>The upload of one destination was started for the code's client and ended well, within \<open>u\<close>.\<close>

definition stored_in :: "settings \<Rightarrow> pystr \<Rightarrow> action list \<Rightarrow> destination \<Rightarrow> bool" where
  "stored_in S path u d = (case uploader_for S d path of
      None \<Rightarrow> False
    | Some c \<Rightarrow> UploadStart c \<in> set u \<and> UploadEnd c UploadReturned \<in> set u)"

lemma started_in: "c \<in># mset (started_calls u) \<Longrightarrow> UploadStart c \<in> set u"
  by (induction u rule: started_calls.induct) auto

lemma report_stored:
  assumes rep: "upload_report S path ds k u rs" and ok: "list_all res_ok rs"
  shows "list_all (stored_in S path u) ds"
  unfolding list_all_length
proof (intro allI impI)
  fix i
  assume i: "i < length ds"
  from rep i obtain out where out: "rs ! i = result_of S path (ds ! i) out"
    "set (end_actions S path (ds ! i) out) \<subseteq> set u"
    by (auto simp: upload_report_def recorded_def)
  have "length rs = length ds" using rep by (simp add: upload_report_def)
  then have good: "res_ok (rs ! i)" using ok i by (simp add: list_all_length)
  show "stored_in S path u (ds ! i)"
  proof (cases "uploader_for S (ds ! i) path")
    case None
    then show ?thesis using good out(1) by (simp add: result_of_def unsupported_provider_def upload_failure_def)
  next
    case (Some c)
    have "out = UploadReturned"
      using good out(1) Some by (cases out) (auto simp: result_of_def upload_failure_def split: if_splits)
    moreover have "i \<in> set [0..<length ds]" using i by simp
    then have "c \<in> set (calls_of S path ds [0..<length ds])"
      using Some by (force simp: calls_of_def List.map_filter_def)
    then have "c \<in># mset (started_calls u)" using rep by (simp add: upload_report_def)
    ultimately show ?thesis using Some out(2) started_in by (simp add: stored_in_def end_actions_def)
  qed
qed

lemma stored_mono:
  assumes "uploaded S e h rs" and "list_all res_ok rs"
  shows "list_all (stored_in S (event_path e) h) (destinations e)"
proof -
  obtain a g b where h: "h = a @ g @ b"
    "upload_report S (event_path e) (destinations e) (nat (upload_max_concurrency S)) g rs"
    using assms(1) by (auto simp: uploaded_def)
  from report_stored [OF h(2) assms(2)] show ?thesis
    by (auto simp: list_all_iff stored_in_def h(1) split: option.splits)
qed

lemma good_run:
  assumes "admitted E w body e" and "file_present E w e" and "scan_outcome E S w e = Return []"
    and k: "0 < upload_max_concurrency S" and sql: "\<And>h st. sql_reply E h st = None"
    and ack: "\<And>h. ack_reply E h ch tag = None" and up: "\<And>h c. upload_reply E h c = UploadReturned"
  shows "\<exists>w'. handle E (worker_consumer ch S) tag props body w = (Return (), w')
    \<and> select_key (table w') (idempotencyKey e)"
proof -
  obtain v where v: "handle E (worker_consumer ch S) tag props body w
      = bind_io (run_uploads E S e (event_path e)) (handle_results E (worker_consumer ch S) tag e) v"
    using handle_reaches_upload [OF assms(1,2) sql assms(3)] by blast
  define rs where "rs = map (\<lambda>d. result_of S (event_path e) d UploadReturned) (destinations e)"
  obtain u where u: "run_uploads E S e (event_path e) v = (Return rs, u)"
    using run_uploads_uniform [OF k up] unfolding rs_def by blast
  have "from_json_bytes E body = Inr e" using assms(1) by (simp add: admitted_def)
  from from_json_bytes_valid [OF this] have "list_all res_ok rs"
    by (auto simp: rs_def valid_event_def list_all_iff valid_destination_def result_of_def uploader_for_def)
  then have f: "failures_of rs = []" by (simp add: failures_Nil)
  define w' where "w' = snd (handle_results E (worker_consumer ch S) tag e rs u)"
  have "handle_results E (worker_consumer ch S) tag e rs u = (Return (), w')"
    "select_key (table w') (idempotencyKey e)"
    by (auto simp: w'_def handle_results_def f Let_def bind_io_def mark_done_cases basic_ack_def call_def inc_defs
      modify_io_def ret_io_def sql ack worker_consumer_def insert_or_ignore_def select_key_iff)
  then show ?thesis using u v by (auto simp: bind_io_def)
qed

text \<open>What a delivery of a good file leaves behind.\<close>

lemma good_delivery:
  assumes "admitted E w body e" and "file_present E w e" and "scan_outcome E S w e = Return []"
    and "0 < upload_max_concurrency S"
    and "\<And>h st. sql_reply E h st = None" and "\<And>h. ack_reply E h ch tag = None"
    and "\<And>h c. upload_reply E h c = UploadReturned"
  shows "\<exists>w' h. handle E (worker_consumer ch S) tag props body w = (Return (), w') \<and> history w' = history w @ h
    \<and> publications ch h = [] \<and> list_all (stored_in S (event_path e) h) (destinations e)
    \<and> select_key (table w') (idempotencyKey e) \<and> counted ''success'' (counters w) (counters w')"
proof -
  obtain w' where w': "handle E (worker_consumer ch S) tag props body w = (Return (), w')"
      "select_key (table w') (idempotencyKey e)"
    using good_run [OF assms] by blast
  from handle_verdict [OF w'(1)] obtain v h where v: "justified E S w body h v" "carried_out E S ch props body v w h w'"
    by blast
  have new: "\<not> select_key (table w) (idempotencyKey e)" and e: "from_json_bytes E body = Inr e"
    using assms(1) by (simp_all add: admitted_def)
  have "v = Processed e" using v w'(2) new e
    by (cases v) (auto simp: carried_out_def tried_def admitted_def)
  with v stored_mono show ?thesis using w' by (auto simp: carried_out_def tried_def)
qed

section \<open>The sample environment\<close>

lemma backoff_base_2:
  assumes "c_pow E (retry_backoff_base S) n = Inr (Finite (2 powi n))" and "0 \<le> n" and "n \<le> 43"
  shows "backoff_delay_ms E S n = Inr (1000 * 2 ^ nat n)"
proof -
  have "(2 :: nat) ^ nat n \<le> 2 ^ 43" using assms(3) by (intro power_increasing) auto
  then have small: "2 ^ nat n * 1000 < (2 :: nat) ^ 53" by simp
  have "(2 :: rat) powi n * 1000 = of_nat (2 ^ nat n * 1000)" using assms(2) by (simp add: power_int_def)
  then have "fl (2 powi n * 1000) = Finite (of_nat (2 ^ nat n * 1000))" using fl_nat [OF small] by simp
  then show ?thesis using assms(1) by (simp add: backoff_delay_ms_def) (simp add: floor_eq_iff)
qed

lemma sample_pow_2:
  assumes "0 \<le> n" and "n \<le> 43"
  shows "c_pow (sample_env_of ups raw) (retry_backoff_base default_settings) n = Inr (Finite (2 powi n))"
proof -
  have "(2 :: nat) ^ nat n < 2 ^ 53" using assms(2) by (intro power_strict_increasing) auto
  from fl_nat [OF this] assms(1) show ?thesis by (simp add: default_settings_def power_int_def)
qed

lemma sample_usable: "usable (sample_env_of ups raw) default_settings"
  unfolding usable_def
proof (intro conjI allI impI)
  fix n :: int
  assume "1 \<le> n \<and> n \<le> retry_max_attempts default_settings"
  then have n: "0 \<le> n" "n \<le> 43" by (simp_all add: default_settings_def)
  then show "\<exists>ms. backoff_delay_ms (sample_env_of ups raw) default_settings n = Inr ms"
    using backoff_base_2 [OF sample_pow_2 [OF n] n] by blast
qed (simp_all add: default_settings_def)

lemma utf8_decode_ascii:
  assumes "list_all (\<lambda>c. c < 128) s"
  shows "utf8_decode (map of_nat s) = Inr s"
proof (rule utf8_decode_encode)
  have "list_all is_scalar s" using assms by (auto simp: list_all_iff is_scalar_def is_surrogate_def)
  moreover have "concat (map enc_cp s) = s" using assms by (induction s) (auto simp: enc_cp_def)
  ultimately show "utf8_encode s = Inr (map of_nat s)" by (simp add: utf8_encode_def)
qed

lemma sample_scan: "scan_raw sample_csv = Inr []"
proof -
  let ?s = "lit ''id,qty'' @ [10] @ lit ''17,4'' @ [10]"
  have "utf8_decode sample_csv = Inr ?s"
    unfolding sample_csv_def by (rule utf8_decode_ascii) (simp add: lit_def)
  moreover have "csv_rows ?s = (map (\<lambda>(l, e). plain_row l) [(lit ''id,qty'', [10]), (lit ''17,4'', [10])], None)"
    using csv_rows_plain_table [of "[(lit ''id,qty'', [10]), (lit ''17,4'', [10])]"]
    by (simp add: plain_def line_end_def lit_def field_limit_def)
  ultimately show ?thesis
    by (simp add: scan_raw_def scan_text_def plain_row_def lit_def is_formula_def formula_prefixes_def)
      (simp add: sample_csv_def lit_def)
qed

lemma sample_calm:
  assumes "\<And>x. out = UploadRaised x \<Longrightarrow> str_ok (exc_name x)"
  shows "calm (sample_env_of (\<lambda>_ _. out) raw)"
  using assms by (simp add: calm_def)

lemma sample_readable: "readable (sample_env_of ups sample_csv)"
  using sample_scan by (simp add: readable_def)

lemma sample_ordinary: "ordinary (sample_env_of ups raw)"
proof -
  have "sample_pow y n \<noteq> Inl x" for y n x by (cases y) simp_all
  then show ?thesis by (simp add: ordinary_def)
qed

lemma sample_short:
  assumes "from_json_bytes (sample_env_of ups raw) sample_message = Inr e"
    and "version_groups (schemaVersion e) = Some (a, b)"
  shows "length a \<le> 4300"
proof -
  have "e = sample_event" using assms(1) sample_message_read by simp
  then have "version_groups (lit ''1.0'') = Some (a, b)" using assms(2) by (simp add: sample_event_def)
  then show ?thesis using sample_version by auto
qed

section \<open>Hops through the retry queue\<close>

text \<open>One hop through the retry queue: a delivery of \<open>body\<close> that published \<open>body'\<close> there.\<close>

inductive retry_hop :: "environ \<Rightarrow> settings \<Rightarrow> bytes \<Rightarrow> bytes \<Rightarrow> bool" for E S where
  "handle E (worker_consumer ch S) tag props body w = (Return (), w') \<Longrightarrow> history w' = history w @ h \<Longrightarrow>
    p \<in> set (publications ch h) \<Longrightarrow> routing_key p = retry_queue_name S \<Longrightarrow> retry_hop E S body (pub_body p)"

lemma with_retry_valid:
  assumes "with_retry e a m err = Inr e'" and "valid_event P e"
  shows "valid_event P e'"
  using assms by (auto simp: with_retry_def mk_retry_info_def valid_event_def bind_sum_Inr Let_def split: if_splits)

lemma retry_hop_event:
  assumes hop: "retry_hop E S body body'" and laws: "json_laws E" and q: "retry_queue_name S \<noteq> dlq_name S"
  shows "\<exists>e e' err. from_json_bytes E body = Inr e \<and> from_json_bytes E body' = Inr e'
    \<and> next_attempt e \<le> retry_max_attempts S
    \<and> with_retry e (next_attempt e) (retry_max_attempts S) err = Inr e'"
  using hop
proof cases
  case (1 ch tag props w w' h p)
  obtain v g where v: "justified E S w body g v" "carried_out E S ch props body v w g w'"
    using handle_verdict [OF 1(2)] by blast
  then have "p \<in> set (verdict_publications E S props body v)" using 1 by (simp add: carried_out_def)
  then obtain e' ms where r: "v = Retried e' ms" and p: "pub_body p = to_json_bytes E e'"
    using 1(5) q by (cases v) (auto simp: raw_publication_def event_publication_def)
  from v(1) r obtain e rs where e: "tried E S w body g e rs" "next_attempt e \<le> retry_max_attempts S"
    "with_retry e (next_attempt e) (retry_max_attempts S) (last_error_of (failures_of rs)) = Inr e'" by auto
  then have "from_json_bytes E body = Inr e" by (simp add: tried_def admitted_def)
  moreover have "from_json_bytes E (to_json_bytes E e') = Inr e'"
    using from_to_json_bytes [OF laws] with_retry_valid [OF e(3)] from_json_bytes_valid [OF calculation] by blast
  ultimately show ?thesis using e 1(1) p by auto
qed

lemma retry_chain_attempts:
  assumes laws: "json_laws E" "retry_queue_name S \<noteq> dlq_name S"
  shows "(retry_hop E S ^^ n) body body' \<Longrightarrow> n \<noteq> 0 \<Longrightarrow> from_json_bytes E body' = Inr e' \<Longrightarrow>
    int n + 1 \<le> next_attempt e' \<and> next_attempt e' \<le> retry_max_attempts S + 1"
proof (induction n arbitrary: body' e')
  case (Suc n)
  then obtain mid where mid: "(retry_hop E S ^^ n) body mid" "retry_hop E S mid body'" by auto
  obtain e err where e: "from_json_bytes E mid = Inr e" "next_attempt e \<le> retry_max_attempts S"
    "with_retry e (next_attempt e) (retry_max_attempts S) err = Inr e'"
    using retry_hop_event [OF mid(2) laws] Suc.prems(3) by auto
  have "next_attempt e' = next_attempt e + 1"
    using e(3) by (auto simp: with_retry_def bind_sum_Inr mk_retry_info_def next_attempt_def Let_def split: if_splits)
  moreover have "int n + 1 \<le> next_attempt e"
  proof (cases "n = 0")
    case True
    have "case ev_retry e of None \<Rightarrow> True | Some r \<Rightarrow> valid_retry r"
      using from_json_bytes_valid [OF e(1)] by (simp add: valid_event_def)
    then show ?thesis using True by (auto simp: next_attempt_def valid_retry_def split: option.splits)
  next
    case False
    then show ?thesis using Suc.IH [OF mid(1) _ e(1)] by blast
  qed
  ultimately show ?case using e(2) by simp
qed simp

text \<open>A delivery whose uploads fail makes such a hop while attempts are left.\<close>

lemma failing_delivery_hops:
  assumes adm: "admitted E w body e" and present: "file_present E w e" and scan: "scan_outcome E S w e = Return []"
    and sql: "sql_reply E (history w) (SelectKey (idempotencyKey e)) = None"
    and k: "0 < upload_max_concurrency S" and same: "\<And>h c. upload_reply E h c = out"
    and bad: "\<not> list_all res_ok (map (\<lambda>d. result_of S (event_path e) d out) (destinations e))"
    and n: "next_attempt e \<le> retry_max_attempts S"
    and ret: "handle E (worker_consumer ch S) tag props body w = (Return (), w')"
  shows "\<exists>e' err. with_retry e (next_attempt e) (retry_max_attempts S) err = Inr e'
    \<and> retry_hop E S body (to_json_bytes E e')"
proof -
  let ?W = "worker_consumer ch S"
  obtain v g where v: "history v = history w @ g" "handle E ?W tag props body w
      = bind_io (run_uploads E S e (event_path e)) (handle_results E ?W tag e) v"
    using handle_reaches_upload [OF adm present sql scan] by blast
  obtain u where "run_uploads E S e (event_path e) v =
      (Return (map (\<lambda>d. result_of S (event_path e) d out) (destinations e)), u)"
    using run_uploads_uniform [OF k same] by blast
  moreover have "keeps grows (run_uploads E S e (event_path e))"
    unfolding keeps_def grows_def using keepsD [OF answered_run_uploads] unfolding answered_def by (metis prod.collapse)
  ultimately obtain f where u: "history u = history v @ f"
      "handle_results E ?W tag e (map (\<lambda>d. result_of S (event_path e) d out) (destinations e)) u = (Return (), w')"
    using ret v(2) grows_Return by (fastforce simp: bind_Return)
  from u(2) show ?thesis
  proof (cases rule: handle_results_Return)
    case (again e' ms)
    have h: "history w' = history w @ g @ f @ [Published ch (event_publication E (retry_queue_name S) e'
        (Some (show_int ms)) None), Acked ch tag]"
      using again(5) u(1) v(1) by simp
    have "retry_hop E S body (pub_body (event_publication E (retry_queue_name S) e' (Some (show_int ms)) None))"
      by (rule retry_hop.intros [OF ret h]) (simp_all add: event_publication_def)
    with again(3) show ?thesis by (auto simp: event_publication_def)
  qed (use bad n in auto)
qed

lemma sample_admitted: "admitted (sample_env_of ups raw) sample_world sample_message sample_event"
  by (simp add: admitted_def sample_message_read sample_supported sample_world_def select_key_iff)

lemma sample_outcome: "scan_outcome (sample_env_of ups sample_csv) default_settings w e = Return []"
  by (simp add: scan_outcome_def scan_csv_file_def bind_io_def ask_def default_settings_def lift_sum_def sample_scan ret_io_def)

lemma sample_fails: "\<not> list_all res_ok (map (\<lambda>d. result_of default_settings p d DeadlineExceeded) (destinations sample_event))"
  by (simp add: sample_event_def result_of_def uploader_for_def upload_failure_def)

lemma sample_hop: "\<exists>body'. retry_hop failing_env default_settings sample_message body'"
proof -
  have "total (handle failing_env (worker_consumer 0 default_settings) 7 sample_props sample_message)"
    unfolding failing_env_def
    by (rule handle_returns [OF sample_calm sample_readable sample_usable sample_short]) simp
  then obtain w' where "handle failing_env (worker_consumer 0 default_settings) 7 sample_props sample_message sample_world
      = (Return (), w')" unfolding total_def by fastforce
  from failing_delivery_hops [OF sample_admitted [of "\<lambda>_ _. DeadlineExceeded" sample_csv] _ sample_outcome _ _ _ sample_fails _
    this [unfolded failing_env_def]]
  show ?thesis
    unfolding failing_env_def by (auto simp: file_present_def default_settings_def next_attempt_def sample_event_def)
qed

lemma failing_laws: "json_laws failing_env" "retry_queue_name default_settings \<noteq> dlq_name default_settings"
  by (simp_all add: failing_env_def sample_json_laws default_settings_def)

text \<open>A world in which every file holds a bare carriage return.\<close>

definition poison_env :: environ where
  "poison_env = sample_env_of (\<lambda>_ _. UploadReturned) (map of_nat (lit ''id'' @ 13 # 65 # [10]))"

lemma poison_env_file: "poison_file poison_env default_settings path"
proof -
  have "utf8_encode (lit ''id'' @ 13 # 65 # [10]) = Inr (map of_nat (lit ''id'' @ 13 # 65 # [10]))"
    by (simp add: utf8_encode_def is_scalar_def is_surrogate_def enc_cp_def lit_def)
  then show ?thesis unfolding poison_file_def poison_env_def
    by (intro conjI exI [of _ 12] exI [of _ "map of_nat (lit ''id'' @ 13 # 65 # [10])"] exI [of _ "lit ''id''"] exI [of _ 65]
      exI [of _ "[10]"]) (simp_all add: default_settings_def plain_def lit_def field_limit_def is_newline_def)
qed

end
