(* ===== verification/Consumer_Properties.thy ===== *)
theory Consumer_Properties
  imports Consumer_Scenarios
begin

text \<open>
  The properties of the consumer. Each is stated for the consumer the worker builds
  (\<open>worker_consumer\<close>), for every delivery, every earlier history and every outside world.
\<close>

section \<open>Acknowledging\<close>

text \<open>C5. No message is lost: the handler acknowledges a delivery only as its very last call to the
  outside, once, when it returns, and only after the message was settled - handed over to the retry or
  dead-letter queue as a persistent, mandatory publication the broker confirmed, or its key is in the
  idempotency table. When the handler ends in an exception (or hangs) nothing was acknowledged, so the
  broker still holds the message.\<close>

theorem ack_only_after_settled:
  "case handle E (worker_consumer ch S) tag props body w of
     (Return _, w') \<Rightarrow> \<exists>pre. history w' = history w @ pre @ [Acked ch tag] \<and> no_ack pre \<and> settled E S body w' pre
   | (_, w') \<Rightarrow> \<exists>h. history w' = history w @ h \<and> no_ack h"
proof -
  have "wf_consumer (worker_consumer ch S)" by (simp add: wf_consumer_def worker_consumer_def)
  from exits_handle [OF this] show ?thesis by (simp add: exits_at_def worker_consumer_def)
qed


section \<open>The idempotency table\<close>

text \<open>C7. A key is recorded as done only for a delivered event that was new, whose file was there and
  passed the security scan, and after every one of its destinations was uploaded successfully - even if the
  handler fails afterwards.\<close>

theorem marked_only_after_upload:
  "let w' = snd (handle E (worker_consumer ch S) tag props body w)
   in table w' = table w \<or> (\<exists>e g u b now. admitted E w body e \<and> file_present E w e
        \<and> scan_outcome E S w e = Return []
        \<and> history w' = history w @ g @ u @ Sql (InsertKey (idempotencyKey e) (correlationId e)) # b
        \<and> list_all (stored_in S (event_path e) u) (destinations e)
        \<and> table w' = insert_or_ignore (table w) (idempotencyKey e) (correlationId e, now))"
proof (cases "table (snd (handle E (worker_consumer ch S) tag props body w)) = table w")
  case False
  from handle_marks [OF surjective_pairing False] report_stored show ?thesis
    unfolding Let_def by blast
qed simp

text \<open>A duplicate is not processed again: when the key of a well-formed, supported event is in the table, the
  handler asks the table and acknowledges, and that is all it does to the outside; the table stays as it is.\<close>

theorem duplicate_is_only_acked:
  assumes "from_json_bytes E body = Inr e" and "assert_supported e = Inr ()"
    and "select_key (table w) (idempotencyKey e)"
  shows "let w' = snd (handle E (worker_consumer ch S) tag props body w)
    in table w' = table w \<and> (\<exists>x y. new_actions w w' \<in> {
         [Sql (SelectKey (idempotencyKey e)), Acked ch tag],
         [Sql (SelectKey (idempotencyKey e)), AckFailed ch tag x],
         [SqlFailed (SelectKey (idempotencyKey e)) y]})"
  using assms
  by (auto simp: handle_def Let_def worker_consumer_def is_done_cases bind_io_def basic_ack_def call_def
      inc_defs modify_io_def ret_io_def new_actions_def split: option.splits)

theorem duplicate_is_only_acked_witness:
  "let w' = snd (handle sample_env (worker_consumer 0 default_settings) 7 sample_props
                  sample_message sample_seen)
    in table w' = table sample_seen \<and> (\<exists>x y. new_actions sample_seen w' \<in> {
         [Sql (SelectKey (idempotencyKey sample_event)), Acked 0 7],
         [Sql (SelectKey (idempotencyKey sample_event)), AckFailed 0 7 x],
         [SqlFailed (SelectKey (idempotencyKey sample_event)) y]})"
  unfolding sample_env_def
  by (rule duplicate_is_only_acked [OF sample_message_read sample_supported]) (simp add: sample_seen_def select_key_iff)

text \<open>Keys stay: over any run of the consuming loop, however it ends, rows are only appended to the table, and
  its keys stay unique.\<close>

theorem loop_only_appends_keys:
  assumes "unique_keys (table w)"
  shows "let w' = snd (consume_loop E (worker_consumer ch S) items w)
   in take (length (table w)) (table w') = table w \<and> unique_keys (table w')"
  using loop_table_grows [of E ch S items] assms by (auto simp: keeps_def table_grows_def Let_def dest: spec [of _ w])

theorem loop_only_appends_keys_witness:
  "let w' = snd (consume_loop failing_env (worker_consumer 0 default_settings)
      [(False, Deliver 1 sample_props sample_message), (False, ConsumeError validation_error)] sample_seen)
   in take (length (table sample_seen)) (table w') = table sample_seen \<and> unique_keys (table w')"
  by (rule loop_only_appends_keys) (simp add: sample_seen_def unique_keys_def)

section \<open>Progress\<close>

text \<open>C15. A delivery comes to an end: with settings under which the handler can work, and while database, broker and
  file reads answer without an exception and no file makes the CSV reader raise, the handler returns - with one
  acknowledgement - for every message body whose event, if it reads as one, has a major version of at most 4300
  digits, and whatever the uploads do.\<close>

theorem every_delivery_ends:
  assumes "calm E" and "readable E" and "usable E S"
    and "\<And>e a b. from_json_bytes E body = Inr e \<Longrightarrow> version_groups (schemaVersion e) = Some (a, b) \<Longrightarrow> length a \<le> 4300"
  shows "\<exists>w'. handle E (worker_consumer ch S) tag props body w = (Return (), w')
    \<and> acks ch (history w') = acks ch (history w) + 1"
proof -
  obtain w' where r: "handle E (worker_consumer ch S) tag props body w = (Return (), w')"
    using handle_returns [OF assms, of body] unfolding total_def by fastforce
  have "wf_consumer (worker_consumer ch S)" by (simp add: wf_consumer_def worker_consumer_def)
  from exits_handle [OF this, of E body tag props w] r show ?thesis
    by (auto simp: exits_at_def worker_consumer_def no_ack_acks)
qed

theorem every_delivery_ends_witness:
  "\<exists>w'. handle sample_env (worker_consumer 0 default_settings) 7 sample_props
      sample_message sample_world = (Return (), w')
    \<and> acks 0 (history w') = acks 0 (history sample_world) + 1"
  unfolding sample_env_def
  by (rule every_delivery_ends [OF sample_calm sample_readable sample_usable sample_short]) simp

section \<open>Retries\<close>

text \<open>C14. What comes back from the retry queue is the same event, one attempt later: every message the handler puts
  on the retry queue is again a valid event that differs from the delivered one in its retry block only, whose
  attempt is the previous one plus one and at most the configured maximum.\<close>

theorem retry_keeps_the_event:
  assumes "retry_hop E S body body'" and "json_laws E" and "retry_queue_name S \<noteq> dlq_name S"
  shows "\<exists>e n err. from_json_bytes E body = Inr e \<and> n = (case ev_retry e of None \<Rightarrow> 1 | Some r \<Rightarrow> attempt r + 1)
    \<and> n \<le> retry_max_attempts S
    \<and> from_json_bytes E body' = Inr (e\<lparr>ev_retry := Some \<lparr>attempt = n, maxAttempts = retry_max_attempts S,
        lastError = Some err\<rparr>\<rparr>)"
proof -
  obtain e e' err where e: "from_json_bytes E body = Inr e" "from_json_bytes E body' = Inr e'"
    "next_attempt e \<le> retry_max_attempts S" "with_retry e (next_attempt e) (retry_max_attempts S) err = Inr e'"
    using retry_hop_event [OF assms] by blast
  then have "e' = e\<lparr>ev_retry := Some \<lparr>attempt = next_attempt e, maxAttempts = retry_max_attempts S, lastError = Some err\<rparr>\<rparr>"
    by (auto simp: with_retry_def bind_sum_Inr mk_retry_info_def Let_def split: if_splits)
  moreover have "next_attempt e = (case ev_retry e of None \<Rightarrow> 1 | Some r \<Rightarrow> attempt r + 1)"
    by (simp add: next_attempt_def split: option.split)
  ultimately show ?thesis using e by metis
qed

theorem retry_keeps_the_event_witness:
  "\<exists>body' e n err. from_json_bytes failing_env sample_message = Inr e \<and> n = 1
    \<and> from_json_bytes failing_env body' = Inr (e\<lparr>ev_retry := Some \<lparr>attempt = n,
        maxAttempts = retry_max_attempts default_settings, lastError = Some err\<rparr>\<rparr>)"
proof -
  obtain body' where hop: "retry_hop failing_env default_settings sample_message body'" using sample_hop by blast
  have "from_json_bytes failing_env sample_message = Inr sample_event" by (simp add: failing_env_def sample_message_read)
  moreover have "ev_retry sample_event = None" by (simp add: sample_event_def)
  ultimately show ?thesis using retry_keeps_the_event [OF hop failing_laws] by auto
qed

text \<open>C12. Retries are bounded: however often uploads fail, a message passes through the retry queue at most
  \<open>RETRY_MAX_ATTEMPTS\<close> times before it is dead-lettered or done.\<close>

theorem retries_are_bounded:
  assumes "(retry_hop E S ^^ n) body body'" and "json_laws E" and "retry_queue_name S \<noteq> dlq_name S"
  shows "n \<le> nat (retry_max_attempts S)"
proof (cases n)
  case (Suc m)
  then obtain mid where "retry_hop E S mid body'" using assms(1) by auto
  then obtain e' where "from_json_bytes E body' = Inr e'" using retry_hop_event assms(2,3) by blast
  with retry_chain_attempts [OF assms(2,3,1)] Suc show ?thesis by auto
qed simp

theorem retries_are_bounded_witness: "\<exists>body'. (retry_hop failing_env default_settings ^^ 1) sample_message body' \<and> 1 \<le> nat 5"
proof -
  obtain body' where "(retry_hop failing_env default_settings ^^ 1) sample_message body'"
    using sample_hop by auto
  moreover from retries_are_bounded [OF this failing_laws] have "1 \<le> nat 5" by (simp add: default_settings_def)
  ultimately show ?thesis by blast
qed

section \<open>Success\<close>

text \<open>A good file is delivered: when the event is new, the file is there and clean, table and broker answer and
  the uploads succeed, the handler returns with every destination stored, the key recorded, the delivery counted
  as a success and nothing published to a queue.\<close>

theorem good_file_is_stored:
  assumes "admitted E w body e" and "file_present E w e" and "scan_outcome E S w e = Return []"
    and "0 < upload_max_concurrency S"
    and "\<And>h st. sql_reply E h st = None" and "\<And>h. ack_reply E h ch tag = None"
    and "\<And>h c. upload_reply E h c = UploadReturned"
  shows "\<exists>w' h. handle E (worker_consumer ch S) tag props body w = (Return (), w') \<and> history w' = history w @ h
    \<and> publications ch h = [] \<and> list_all (stored_in S (event_path e) h) (destinations e)
    \<and> select_key (table w') (idempotencyKey e) \<and> counted ''success'' (counters w) (counters w')"
  by (rule good_delivery [OF assms])

theorem good_file_is_stored_witness:
  "\<exists>w' h. handle sample_env (worker_consumer 0 default_settings) 7 sample_props sample_message sample_world = (Return (), w')
    \<and> history w' = history sample_world @ h \<and> publications 0 h = []
    \<and> list_all (stored_in default_settings (event_path sample_event) h) (destinations sample_event)
    \<and> select_key (table w') (idempotencyKey sample_event) \<and> counted ''success'' (counters sample_world) (counters w')"
  unfolding sample_env_def
  by (rule good_file_is_stored [OF sample_admitted _ sample_outcome])
    (simp_all add: file_present_def default_settings_def)

section \<open>The consuming loop\<close>

text \<open>Deliveries are isolated: while no stop is requested and the broker keeps delivering, the loop handles
  every delivery in order, each starting where the one before left the world, whatever exceptions the handlers
  end in.\<close>

theorem loop_handles_every_delivery:
  assumes "ordinary E" and "0 < upload_max_concurrency S" and "list_all going_on items"
  shows "consume_loop E (worker_consumer ch S) items w =
    (Return (), fold (after_item E (worker_consumer ch S)) items w)"
  by (rule loop_isolated [OF assms])

theorem loop_handles_every_delivery_witness:
  "consume_loop sample_env (worker_consumer 0 default_settings)
      [(False, Deliver 1 sample_props []), (False, Tick), (False, Deliver 2 sample_props sample_message)] sample_world =
    (Return (), fold (after_item sample_env (worker_consumer 0 default_settings))
      [(False, Deliver 1 sample_props []), (False, Tick), (False, Deliver 2 sample_props sample_message)] sample_world)"
  unfolding sample_env_def
  by (rule loop_handles_every_delivery [OF sample_ordinary]) (simp_all add: default_settings_def going_on_def)

text \<open>C16. The metrics agree with the broker: over any run of the loop the number of acknowledgements equals the
  number of consumed events, the dead-letter counter equals the events consumed with the result dlq, and the
  idempotency-hit counter those with the result duplicate - also when handlers fail half-way.\<close>

theorem metrics_agree_with_acks:
  assumes "ordinary E" and "0 < upload_max_concurrency S"
  shows "balanced ch w (snd (consume_loop E (worker_consumer ch S) items w))"
  using loop_balanced [OF assms, of ch items] by (simp add: keeps_def)

theorem metrics_agree_with_acks_witness:
  "balanced 0 sample_world (snd (consume_loop failing_env (worker_consumer 0 default_settings)
     [(False, Deliver 1 sample_props sample_message), (True, Tick)] sample_world))"
  unfolding failing_env_def
  by (rule metrics_agree_with_acks [OF sample_ordinary]) (simp add: default_settings_def)

text \<open>Stopping: once the stop event is seen set, the loop leaves a delivery it was handed unhandled, consumes
  nothing further, and \<open>run\<close> cancels the consumer as its last call.\<close>

theorem stop_cancels_and_returns:
  assumes "list_all going_on pre" and "ordinary E" and "0 < upload_max_concurrency S"
    and "\<And>h. cancel_reply E h ch = None" and "\<And>x. item \<noteq> ConsumeError x"
  shows "run E (worker_consumer ch S) (pre @ (True, item) # post) w =
    (Return (), add_action (CancelConsumer ch) (fold (after_item E (worker_consumer ch S)) pre w))"
proof -
  have stop: "consume_loop E (worker_consumer ch S) (pre @ (True, item) # post) w
      = consume_loop E (worker_consumer ch S) pre w"
    using assms(1)
  proof (induction pre arbitrary: w)
    case Nil
    then show ?case using assms(5) by (cases item) (auto simp: ret_io_def)
  next
    case (Cons x pre)
    obtain s i where x: "x = (s, i)" by fastforce
    with Cons show ?case
      by (cases i) (auto simp: going_on_def bind_io_def split: prod.splits outcome.splits)
  qed
  show ?thesis
    unfolding run_def bind_io_def stop loop_isolated [OF assms(2,3,1)]
    using assms(4) by (simp add: call_def worker_consumer_def)
qed

theorem stop_cancels_and_returns_witness:
  "run sample_env (worker_consumer 0 default_settings)
      ([(False, Tick)] @ (True, Deliver 1 sample_props sample_message) # []) sample_world =
    (Return (), add_action (CancelConsumer 0) (fold (after_item sample_env (worker_consumer 0 default_settings))
      [(False, Tick)] sample_world))"
  unfolding sample_env_def
  by (rule stop_cancels_and_returns [OF _ sample_ordinary])
    (simp_all add: default_settings_def going_on_def sample_env_of_def)

section \<open>Deliveries that are never settled\<close>

text \<open>A poison file: when the CSV reader raises \<open>csv.Error\<close> - a carriage return that no line feed follows, in a
  file that is valid UTF-8 and small enough - every delivery of its event ends in that exception. However often
  the broker redelivers it, nothing is acknowledged, nothing is published (so it never reaches the dead-letter
  queue) and the table stays as it is.\<close>

theorem bare_carriage_return_is_poison:
  assumes "from_json_bytes E body = Inr e" and "assert_supported e = Inr ()"
    and "\<not> select_key (table w) (idempotencyKey e)"
    and "\<And>h st. sql_reply E h st = None" and "\<And>h. isfile_reply E h (event_path e)"
    and "\<And>h. getsize_reply E h (event_path e) = Inr n" and "int n \<le> max_csv_file_size_bytes S"
    and "\<And>h. read_reply E h (event_path e) = Inr raw"
    and "utf8_encode (line @ 13 # c # rest) = Inr raw" and "0 \<notin> set raw" and "plain line" and "\<not> is_newline c"
  shows "\<exists>h w'. consume_loop E (worker_consumer ch S) (map (\<lambda>(tag, props). (False, Deliver tag props body)) ds) w
      = (Return (), w')
    \<and> history w' = history w @ h \<and> no_ack h \<and> publications ch h = [] \<and> table w' = table w \<and> counters w' = counters w"
  using assms(3)
proof (induction ds arbitrary: w)
  case Nil
  then show ?case by (simp add: ret_io_def)
next
  case (Cons x ds)
  obtain tag props where x: "x = (tag, props)" by fastforce
  let ?W = "worker_consumer ch S"
  let ?h = "[Sql (SelectKey (idempotencyKey e)), IsFile (event_path e), GetSize (event_path e), ReadFile (event_path e)]"
  define w1 where "w1 = w\<lparr>history := history w @ ?h\<rparr>"
  have "poison_file E S (event_path e)" using assms(5-12) unfolding poison_file_def by blast
  moreover have "admitted E w body e" using assms(1,2) Cons.prems by (simp add: admitted_def)
  ultimately have "handle E ?W tag props body w = (Raise bare_cr_error, w1)"
    using poison_file_raises assms(4) by (simp add: w1_def)
  then have "try_except (handle E ?W tag props body) Exception (\<lambda>_. ret_io ()) w = (Return (), w1)"
    by (simp add: try_except_def bare_cr_error_def csv_error_def ret_io_def)
  moreover obtain h w' where "consume_loop E ?W (map (\<lambda>(tag, props). (False, Deliver tag props body)) ds) w1
      = (Return (), w')" "history w' = history w1 @ h" "no_ack h" "publications ch h = []" "table w' = table w1"
      "counters w' = counters w1"
    using Cons.IH [of w1] Cons.prems by (auto simp: w1_def)
  ultimately show ?case
    by (intro exI [of _ "?h @ h"] exI [of _ w']) (simp add: x bind_io_def w1_def)
qed

theorem bare_carriage_return_is_poison_witness:
  "\<exists>h w'. consume_loop poison_env (worker_consumer 0 default_settings)
      (map (\<lambda>(tag, props). (False, Deliver tag props sample_message)) [(1, sample_props), (2, sample_props)]) sample_world
      = (Return (), w')
    \<and> history w' = history sample_world @ h \<and> no_ack h \<and> publications 0 h = [] \<and> table w' = table sample_world
    \<and> counters w' = counters sample_world"
  unfolding poison_env_def
proof (rule bare_carriage_return_is_poison [OF sample_message_read sample_supported, where n = 12])
  show "utf8_encode (lit ''id'' @ 13 # 65 # [10]) = Inr (map of_nat (lit ''id'' @ 13 # 65 # [10]))"
    by (simp add: utf8_encode_def is_scalar_def is_surrogate_def enc_cp_def lit_def)
qed (simp_all add: sample_world_def select_key_iff default_settings_def plain_def lit_def field_limit_def is_newline_def)

text \<open>C30. With \<open>RETRY_MAX_ATTEMPTS\<close> zero or negative a failed upload is neither retried nor dead-lettered: building
  the retry block for the dead-letter message violates its own constraints, and the \<open>ValidationError\<close> leaves the
  delivery unacknowledged, without a trace.\<close>

theorem no_retries_means_no_dead_letter:
  assumes "retry_max_attempts S \<le> 0" and "valid_event P e" and "\<not> list_all res_ok rs"
  shows "handle_results E (worker_consumer ch S) tag e rs w = (Raise validation_error, w)"
proof -
  have "1 \<le> next_attempt e"
    using assms(2) by (auto simp: valid_event_def next_attempt_def valid_retry_def split: option.splits)
  then have "retry_max_attempts S < next_attempt e" using assms(1) by simp
  moreover have "with_retry e a (retry_max_attempts S) err = Inl validation_error" for a err
    using assms(1) by (simp add: with_retry_def mk_retry_info_def valid_retry_def)
  moreover have "failures_of rs \<noteq> []" using assms(3) by (simp add: failures_Nil)
  ultimately show ?thesis
    by (simp add: handle_results_def Let_def worker_consumer_def lift_sum_def bind_io_def raise_io_def)
qed

theorem no_retries_means_no_dead_letter_witness:
  "handle_results sample_env (worker_consumer 0 (default_settings\<lparr>retry_max_attempts := 0\<rparr>)) 7 sample_event
     [unsupported_provider (hd (destinations sample_event))] sample_world = (Raise validation_error, sample_world)"
  by (rule no_retries_means_no_dead_letter [OF _ sample_event_valid [of undefined undefined]])
    (simp_all add: unsupported_provider_def upload_failure_def)

text \<open>With \<open>UPLOAD_MAX_CONCURRENCY\<close> zero the worker blocks for ever on the first good file: the semaphore has no
  permit, so the handler hangs before any upload starts, holding an unacknowledged delivery.\<close>

theorem zero_concurrency_hangs:
  assumes "upload_max_concurrency S = 0" and "admitted E w body e" and "file_present E w e"
    and "sql_reply E (history w) (SelectKey (idempotencyKey e)) = None" and "scan_outcome E S w e = Return []"
  shows "\<exists>w' h. handle E (worker_consumer ch S) tag props body w = (Hang, w') \<and> history w' = history w @ h \<and> no_ack h"
proof -
  obtain v g where v: "history v = history w @ g" "no_ack g" "handle E (worker_consumer ch S) tag props body w
      = bind_io (run_uploads E S e (event_path e)) (handle_results E (worker_consumer ch S) tag e) v"
    using handle_reaches_upload [OF assms(2,3,4,5)] by blast
  have "from_json_bytes E body = Inr e" using assms(2) by (simp add: admitted_def)
  from from_json_bytes_valid [OF this] have "destinations e \<noteq> []" by (simp add: valid_event_def)
  then show ?thesis using v run_uploads_no_permit [OF assms(1)] by (simp add: bind_io_def)
qed

theorem zero_concurrency_hangs_witness:
  "\<exists>w' h. handle sample_env (worker_consumer 0 (default_settings\<lparr>upload_max_concurrency := 0\<rparr>)) 7 sample_props
      sample_message sample_world = (Hang, w') \<and> history w' = history sample_world @ h \<and> no_ack h"
  unfolding sample_env_def
  by (rule zero_concurrency_hangs [OF _ sample_admitted])
    (simp_all add: file_present_def scan_outcome_def scan_csv_file_def bind_io_def ask_def default_settings_def
      lift_sum_def sample_scan ret_io_def)

text \<open>A schema version whose major number has more than 4300 digits passes validation but makes \<open>int\<close> raise in
  the version gate; the \<open>ValueError\<close> is not the exception caught there, so the delivery ends unacknowledged and
  unpublished instead of in the dead-letter queue.\<close>

theorem huge_version_escapes:
  assumes "from_json_bytes E body = Inr e" and "version_groups (schemaVersion e) = Some (major, minor)"
    and "4300 < length major"
  shows "handle E (worker_consumer ch S) tag props body w =
    (Raise (value_error ''Exceeds the limit (4300 digits) for integer string conversion''), w)"
  using assms(1) assert_supported_long [OF assms(2,3)]
  by (simp add: handle_def Let_def value_error_def raise_io_def)

definition huge_event :: transfer_event where
  "huge_event = sample_event\<lparr>schemaVersion := replicate 4301 49 @ [46, 48]\<rparr>"

lemma ones_version: "0 < n \<Longrightarrow> version_groups (replicate n 49 @ [46, 48]) = Some (replicate n 49, [48])"
  by (auto simp: version_groups_iff list_all_iff is_digit_def digit_val_def nd_zeros_def at_end_def)

lemma huge_version: "version_groups (replicate 4301 49 @ [46, 48]) = Some (replicate 4301 49, [48])"
  by (rule ones_version) simp

lemma huge_message: "from_json_bytes sample_env (to_json_bytes sample_env huge_event) = Inr huge_event"
proof -
  have "is_scalar 46" "is_scalar 48" "is_scalar 49" by (simp_all add: is_scalar_def is_surrogate_def)
  then have "str_ok (replicate 4301 49 @ [46, 48])" by (simp add: str_ok_def list_all_iff)
  from sample_valid [OF this _ _ sample_destinations, of "lit ''/watch/orders.csv''" None]
  have "valid_event sample_env (sample_event\<lparr>schemaVersion := replicate 4301 49 @ [46, 48],
      ev_source := \<lparr>src_provider = lit ''sftp'', src_path = lit ''/watch/orders.csv''\<rparr>,
      destinations := destinations sample_event, ev_retry := None\<rparr>)"
    by (simp only: sample_env_def huge_version str_ok_lit) simp
  moreover have "sample_event\<lparr>schemaVersion := v,
      ev_source := \<lparr>src_provider = lit ''sftp'', src_path = lit ''/watch/orders.csv''\<rparr>,
      destinations := destinations sample_event, ev_retry := None\<rparr> = sample_event\<lparr>schemaVersion := v\<rparr>" for v
    by (simp add: sample_event_def)
  ultimately have "valid_event sample_env huge_event" by (simp only: huge_event_def)
  then show ?thesis using from_to_json_bytes sample_json_laws unfolding sample_env_def by blast
qed

theorem huge_version_escapes_witness:
  "handle sample_env (worker_consumer 0 default_settings) 7 sample_props (to_json_bytes sample_env huge_event) sample_world =
    (Raise (value_error ''Exceeds the limit (4300 digits) for integer string conversion''), sample_world)"
proof (rule huge_version_escapes [OF huge_message])
  have "schemaVersion (sample_event\<lparr>schemaVersion := v\<rparr>) = v" for v by simp
  then show "version_groups (schemaVersion huge_event) = Some (replicate 4301 49, [48])"
    unfolding huge_event_def using huge_version by metis
qed simp

end
