(* ===== verification/Event_Schema.thy ===== *)
theory Event_Schema
  imports Schema Floats
begin

text \<open>
  The published contract, \<open>schemas/transfer-event.schema.json\<close>: the JSON Schema keywords it uses with their
  meaning in draft 2020-12, and the document itself as a value, definition by definition in the order of the file.
  \<open>format\<close>, \<open>description\<close> and \<open>examples\<close> are annotations and decide nothing. The lemmas relate it to the
  pydantic models of \<open>worker/src/schema.py\<close>, which say they mirror it.
\<close>

section \<open>Keywords\<close>

datatype json_type = T_object | T_array | T_string | T_integer

text \<open>The patterns are rows of character classes between \<open>^\<close> and \<open>$\<close>, each once, \<open>+\<close> or \<open>{n}\<close>. In ECMA-262
  \<open>$\<close> matches at the end only.\<close>

datatype quantifier = Once | Repeated | Exactly nat

type_synonym row_pattern = "(pystr \<times> quantifier) list"

function matches :: "row_pattern \<Rightarrow> pystr \<Rightarrow> bool" where
  "matches [] s \<longleftrightarrow> s = []"
| "matches ((cs, Once) # ps) [] \<longleftrightarrow> False"
| "matches ((cs, Once) # ps) (c # s) \<longleftrightarrow> c \<in> set cs \<and> matches ps s"
| "matches ((cs, Repeated) # ps) [] \<longleftrightarrow> False"
| "matches ((cs, Repeated) # ps) (c # s) \<longleftrightarrow> c \<in> set cs \<and> (matches ps s \<or> matches ((cs, Repeated) # ps) s)"
| "matches ((cs, Exactly n) # ps) s \<longleftrightarrow> n \<le> length s \<and> list_all (\<lambda>c. c \<in> set cs) (take n s) \<and> matches ps (drop n s)"
  by pat_completeness auto
termination by (relation "measures [\<lambda>(ps, s). length ps, \<lambda>(ps, s). length s]") auto

datatype schema = Schema "keyword list"
  and keyword = Type json_type | Enum "string list" | Pattern row_pattern | Minimum int | MinItems nat | Items schema
    | Required "string list" | Properties "(string \<times> schema) list" | AdditionalProperties bool

text \<open>The value of a number; an integer is any number without fractional part.\<close>

fun json_number :: "json \<Rightarrow> rat option" where
  "json_number (JInt n) = Some (of_int n)"
| "json_number (JNum t) = (let (neg, u) = split_sign t; is_e = (\<lambda>c. c = 101 \<or> c = 69)
     in case (float_decimal (takeWhile (Not \<circ> is_e) u), float_exponent (dropWhile (Not \<circ> is_e) u)) of
         (Some (a, b), Some e) \<Rightarrow> Some ((if neg then - 1 else 1) * of_nat (digits_value 10 (a @ b)) * 10 powi (e - int (length b)))
       | _ \<Rightarrow> None)"
| "json_number _ = None"

fun has_type :: "json_type \<Rightarrow> json \<Rightarrow> bool" where
  "has_type T_object j \<longleftrightarrow> json_obj j \<noteq> None"
| "has_type T_array j \<longleftrightarrow> json_arr j \<noteq> None"
| "has_type T_string j \<longleftrightarrow> json_str j \<noteq> None"
| "has_type T_integer j \<longleftrightarrow> (case json_number j of None \<Rightarrow> False | Some r \<Rightarrow> snd (quotient_of r) = 1)"

fun names_of :: "keyword \<Rightarrow> string list" where
  "names_of (Properties ps) = map fst ps"
| "names_of _ = []"

text \<open>A keyword about another type of value holds; \<open>additionalProperties\<close> looks at its neighbour \<open>properties\<close>.\<close>

fun accepts :: "schema \<Rightarrow> json \<Rightarrow> bool"
  and holds :: "string list \<Rightarrow> keyword \<Rightarrow> json \<Rightarrow> bool" where
  "accepts (Schema ks) j \<longleftrightarrow> list_all (\<lambda>k. holds (concat (map names_of ks)) k j) ks"
| "holds ns (Type t) j \<longleftrightarrow> has_type t j"
| "holds ns (Enum vs) j \<longleftrightarrow> (case json_str j of None \<Rightarrow> False | Some s \<Rightarrow> List.member (map lit vs) s)"
| "holds ns (Pattern p) j \<longleftrightarrow> (case json_str j of None \<Rightarrow> True | Some s \<Rightarrow> matches p s)"
| "holds ns (Minimum m) j \<longleftrightarrow> (case json_number j of None \<Rightarrow> True | Some r \<Rightarrow> of_int m \<le> r)"
| "holds ns (MinItems n) j \<longleftrightarrow> (case json_arr j of None \<Rightarrow> True | Some js \<Rightarrow> n \<le> length js)"
| "holds ns (Items s) j \<longleftrightarrow> (case json_arr j of None \<Rightarrow> True | Some js \<Rightarrow> list_all (accepts s) js)"
| "holds ns (Required rs) j \<longleftrightarrow> (case json_obj j of None \<Rightarrow> True | Some kvs \<Rightarrow> list_all (\<lambda>n. obj_get kvs n \<noteq> None) rs)"
| "holds ns (Properties ps) j \<longleftrightarrow> (case json_obj j of None \<Rightarrow> True
     | Some kvs \<Rightarrow> list_all (\<lambda>(n, s). case obj_get kvs n of None \<Rightarrow> True | Some v \<Rightarrow> accepts s v) ps)"
| "holds ns (AdditionalProperties b) j \<longleftrightarrow> (case json_obj j of None \<Rightarrow> True | Some kvs \<Rightarrow> b \<or> keys_ok kvs ns)"

section \<open>The document\<close>

definition digit_class :: pystr where
  "digit_class = lit ''0123456789''"

definition hex_class :: pystr where
  "hex_class = lit ''abcdef0123456789''"

definition version_pattern :: row_pattern where
  "version_pattern = [(digit_class, Repeated), (lit ''.'', Once), (digit_class, Repeated)]"

definition sha256_pattern :: row_pattern where
  "sha256_pattern = [(hex_class, Exactly 64)]"

definition key_pattern :: row_pattern where
  "key_pattern = map (\<lambda>c. (lit [c], Once)) ''sha256:'' @ sha256_pattern"

definition string_schema :: schema where
  "string_schema = Schema [Type T_string]"

definition source_schema :: schema where
  "source_schema = Schema [Type T_object, AdditionalProperties False, Required [''provider'', ''path''],
     Properties [(''provider'', Schema [Type T_string, Enum [''sftp'']]), (''path'', string_schema)]]"

definition file_schema :: schema where
  "file_schema = Schema [Type T_object, AdditionalProperties False, Required [''name'', ''sizeBytes'', ''checksumSha256''],
     Properties [(''name'', string_schema), (''sizeBytes'', Schema [Type T_integer, Minimum 0]),
       (''checksumSha256'', Schema [Type T_string, Pattern sha256_pattern]), (''contentType'', string_schema)]]"

definition destination_schema :: schema where
  "destination_schema = Schema [Type T_object, AdditionalProperties False, Required [''provider'', ''bucket'', ''key''],
     Properties [(''provider'', Schema [Type T_string, Enum [''aws-s3'', ''gcp-gcs'']]), (''bucket'', string_schema),
       (''key'', string_schema), (''region'', string_schema)]]"

definition retry_schema :: schema where
  "retry_schema = Schema [Type T_object, AdditionalProperties False,
     Properties [(''attempt'', Schema [Type T_integer, Minimum 1]), (''maxAttempts'', Schema [Type T_integer, Minimum 1]),
       (''lastError'', string_schema)]]"

definition event_schema :: schema where
  "event_schema = Schema [Type T_object, AdditionalProperties False,
     Required [''schemaVersion'', ''eventType'', ''eventId'', ''correlationId'', ''idempotencyKey'', ''occurredAt'',
       ''source'', ''file'', ''destinations''],
     Properties [
       (''schemaVersion'', Schema [Type T_string, Pattern version_pattern]),
       (''eventType'', Schema [Type T_string, Enum [''file.transfer.requested'']]),
       (''eventId'', string_schema),
       (''correlationId'', string_schema),
       (''idempotencyKey'', Schema [Type T_string, Pattern key_pattern]),
       (''occurredAt'', string_schema),
       (''source'', source_schema),
       (''file'', file_schema),
       (''destinations'', Schema [Type T_array, MinItems 1, Items destination_schema]),
       (''retry'', retry_schema)]]"

section \<open>Patterns and validators\<close>

text \<open>The pydantic validators accept what the patterns match, and besides a line feed at the end and digits of
  other scripts; on printable ASCII text they agree.\<close>

definition plain_text :: "pystr \<Rightarrow> bool" where
  "plain_text s \<longleftrightarrow> list_all (\<lambda>c. 32 \<le> c \<and> c < 127) s"

lemma plain_text_simps [simp]: "plain_text []" "plain_text (c # s) \<longleftrightarrow> 32 \<le> c \<and> c < 127 \<and> plain_text s"
    "plain_text (a @ b) \<longleftrightarrow> plain_text a \<and> plain_text b"
  by (simp_all add: plain_text_def)

lemma hex_plain: "list_all is_hex_lower h \<Longrightarrow> plain_text h"
  by (auto simp: plain_text_def list_all_iff is_hex_lower_def)

lemma classes: "c \<in> set digit_class \<longleftrightarrow> 48 \<le> c \<and> c < 58" "c \<in> set hex_class \<longleftrightarrow> is_hex_lower c"
  by (simp_all add: digit_class_def hex_class_def lit_def is_hex_lower_def) presburger+

lemma ascii_digit: "is_digit c \<and> c < 127 \<longleftrightarrow> 48 \<le> c \<and> c < 58"
proof -
  have "is_digit c \<longleftrightarrow> (\<exists>z \<in> set nd_zeros. z \<le> c \<and> c < z + 10)"
    by (auto simp: is_digit_def digit_val_def find_None_iff)
  moreover have "set nd_zeros = insert 48 (set (tl nd_zeros))" "\<forall>z \<in> set (tl nd_zeros). 127 \<le> z"
    by (simp_all add: nd_zeros_def)
  ultimately show ?thesis by auto
qed

lemma matches_repeated: "matches ((cs, Repeated) # ps) s \<longleftrightarrow>
    (\<exists>a b. s = a @ b \<and> a \<noteq> [] \<and> list_all (\<lambda>c. c \<in> set cs) a \<and> matches ps b)"
proof (induction s)
  case (Cons c s)
  show ?case
  proof
    assume "matches ((cs, Repeated) # ps) (c # s)"
    then consider "c \<in> set cs" "matches ps s" | a b where "c \<in> set cs" "s = a @ b" "list_all (\<lambda>c. c \<in> set cs) a" "matches ps b"
      using Cons.IH by auto
    then show "\<exists>a b. c # s = a @ b \<and> a \<noteq> [] \<and> list_all (\<lambda>c. c \<in> set cs) a \<and> matches ps b"
    proof cases
      case 1
      then show ?thesis by (intro exI [of _ "[c]"] exI [of _ s]) simp
    next
      case (2 a b)
      then show ?thesis by (intro exI [of _ "c # a"] exI [of _ b]) simp
    qed
  next
    assume "\<exists>a b. c # s = a @ b \<and> a \<noteq> [] \<and> list_all (\<lambda>c. c \<in> set cs) a \<and> matches ps b"
    then obtain a b where a: "c # s = a @ b" "a \<noteq> []" "list_all (\<lambda>c. c \<in> set cs) a" "matches ps b" by blast
    then obtain a' where "a = c # a'" "s = a' @ b" by (cases a) auto
    with a Cons.IH show "matches ((cs, Repeated) # ps) (c # s)" by (cases "a' = []") auto
  qed
qed simp

lemma matches_sha256: "matches sha256_pattern s \<longleftrightarrow> sha256_re s \<and> plain_text s"
proof -
  have "matches sha256_pattern s \<longleftrightarrow> length s = 64 \<and> list_all is_hex_lower s"
    by (auto simp: sha256_pattern_def classes)
  then show ?thesis by (auto simp: sha256_re_iff at_end_iff hex_plain)
qed

lemma matches_word: "matches (map (\<lambda>c. (lit [c], Once)) w @ ps) s \<longleftrightarrow> (\<exists>t. s = lit w @ t \<and> matches ps t)"
proof (induction w arbitrary: s)
  case (Cons c w)
  then show ?case by (cases s) (auto simp: lit_def)
qed simp

lemma matches_key: "matches key_pattern s \<longleftrightarrow> idempotency_re s \<and> plain_text s"
proof -
  have "plain_text (lit ''sha256:'')" by (simp add: lit_def)
  then show ?thesis unfolding key_pattern_def matches_word matches_sha256 idempotency_re_iff by auto
qed

lemma matches_version: "matches version_pattern s \<longleftrightarrow> version_groups s \<noteq> None \<and> plain_text s"
proof -
  have d: "list_all (\<lambda>c. c \<in> set digit_class) a \<longleftrightarrow> list_all is_digit a \<and> plain_text a" for a
    using ascii_digit classes(1) by (fastforce simp: list_all_iff plain_text_def)
  have "matches version_pattern s \<longleftrightarrow> (\<exists>a b. s = a @ [46] @ b \<and> a \<noteq> [] \<and> b \<noteq> [] \<and>
      list_all is_digit a \<and> plain_text a \<and> list_all is_digit b \<and> plain_text b)"
  proof -
    have "matches [(lit ''.'', Once), (digit_class, Repeated)] t \<longleftrightarrow>
        (\<exists>b. t = 46 # b \<and> b \<noteq> [] \<and> list_all is_digit b \<and> plain_text b)" for t
      by (cases t) (auto simp: lit_def matches_repeated d)
    then show ?thesis by (auto simp: version_pattern_def matches_repeated d)
  qed
  also have "\<dots> \<longleftrightarrow> (\<exists>a b t. s = a @ [46] @ b @ t \<and> a \<noteq> [] \<and> b \<noteq> [] \<and> list_all is_digit a \<and> list_all is_digit b
      \<and> at_end t \<and> plain_text s)"
  proof (intro iffI; elim exE conjE)
    fix a b
    assume "s = a @ [46] @ b" "a \<noteq> []" "b \<noteq> []" "list_all is_digit a" "plain_text a" "list_all is_digit b" "plain_text b"
    then show "\<exists>a b t. s = a @ [46] @ b @ t \<and> a \<noteq> [] \<and> b \<noteq> [] \<and> list_all is_digit a \<and> list_all is_digit b
        \<and> at_end t \<and> plain_text s"
      by (intro exI [of _ a] exI [of _ b] exI [of _ "[]"]) (simp add: at_end_iff)
  next
    fix a b t
    assume "s = a @ [46] @ b @ t" "a \<noteq> []" "b \<noteq> []" "list_all is_digit a" "list_all is_digit b" "at_end t" "plain_text s"
    then show "\<exists>a b. s = a @ [46] @ b \<and> a \<noteq> [] \<and> b \<noteq> [] \<and>
        list_all is_digit a \<and> plain_text a \<and> list_all is_digit b \<and> plain_text b"
      by (intro exI [of _ a] exI [of _ b]) (auto simp: at_end_iff)
  qed
  finally show ?thesis by (auto simp: version_groups_iff)
qed

section \<open>Objects\<close>

lemma type_simps [simp]: "has_type T_integer (JInt n)" "json_number (JInt n) = Some (of_int n)"
  by simp_all

lemma accepts_string: "accepts string_schema j \<longleftrightarrow> (\<exists>s. j = JStr s)"
  by (cases j) (simp_all add: string_schema_def)

lemma accepts_enum: "accepts (Schema [Type T_string, Enum vs]) j \<longleftrightarrow> (\<exists>s. j = JStr s \<and> List.member (map lit vs) s)"
  by (cases j) simp_all

lemma accepts_pattern: "accepts (Schema [Type T_string, Pattern p]) j \<longleftrightarrow> (\<exists>s. j = JStr s \<and> matches p s)"
  by (cases j) simp_all

lemma accepts_minimum: "accepts (Schema [Type T_integer, Minimum m]) j \<longleftrightarrow>
    (\<exists>r. json_number j = Some r \<and> snd (quotient_of r) = 1 \<and> of_int m \<le> r)"
  by (auto split: option.splits)

lemma accepts_object: "accepts (Schema [Type T_object, AdditionalProperties False, Required rs, Properties ps]) j \<longleftrightarrow>
    (\<exists>kvs. j = JObj kvs \<and> keys_ok kvs (map fst ps) \<and> list_all (\<lambda>n. obj_get kvs n \<noteq> None) rs
      \<and> list_all (\<lambda>(n, s). case obj_get kvs n of None \<Rightarrow> True | Some v \<Rightarrow> accepts s v) ps)"
  by (cases j) simp_all

lemma required_members:
  assumes "set rs \<subseteq> set (map fst ps)"
  shows "list_all (\<lambda>n. g n \<noteq> None) rs \<and> list_all (\<lambda>(n, s). case g n of None \<Rightarrow> True | Some v \<Rightarrow> Q s v) ps \<longleftrightarrow>
    list_all (\<lambda>(n, s). if List.member rs n then \<exists>v. g n = Some v \<and> Q s v else \<forall>v. g n = Some v \<longrightarrow> Q s v) ps"
    (is "?l \<longleftrightarrow> list_all ?r ps")
proof
  assume l: ?l
  have "?r (n, s)" if "(n, s) \<in> set ps" for n s
    using l that by (cases "g n") (fastforce simp: list_all_iff)+
  then show "list_all ?r ps" by (auto simp: list_all_iff)
next
  assume r: "list_all ?r ps"
  have "g n \<noteq> None" if n: "n \<in> set rs" for n
  proof -
    obtain s where "(n, s) \<in> set ps" using assms n by fastforce
    with r have "?r (n, s)" by (simp only: list_all_iff)
    then show ?thesis using n by auto
  qed
  moreover have "case g n of None \<Rightarrow> True | Some v \<Rightarrow> Q s v" if "(n, s) \<in> set ps" for n s
  proof -
    have "?r (n, s)" using r that by (simp only: list_all_iff)
    then show ?thesis by (auto split: if_splits option.splits)
  qed
  ultimately show ?l by (auto simp: list_all_iff)
qed

lemma accepts_members: "set rs \<subseteq> set (map fst ps) \<Longrightarrow>
    accepts (Schema [Type T_object, AdditionalProperties False, Required rs, Properties ps]) j \<longleftrightarrow>
    (\<exists>kvs. j = JObj kvs \<and> keys_ok kvs (map fst ps) \<and> list_all (\<lambda>(n, s). if List.member rs n
      then \<exists>v. obj_get kvs n = Some v \<and> accepts s v else \<forall>v. obj_get kvs n = Some v \<longrightarrow> accepts s v) ps)"
  unfolding accepts_object by (simp only: required_members)

lemma accepts_open_object: "accepts (Schema [Type T_object, AdditionalProperties False, Properties ps]) j \<longleftrightarrow>
    (\<exists>kvs. j = JObj kvs \<and> keys_ok kvs (map fst ps)
      \<and> list_all (\<lambda>(n, s). case obj_get kvs n of None \<Rightarrow> True | Some v \<Rightarrow> accepts s v) ps)"
  by (cases j) simp_all

lemma accepts_array: "accepts (Schema [Type T_array, MinItems n, Items s]) j \<longleftrightarrow>
    (\<exists>js. j = JArr js \<and> n \<le> length js \<and> list_all (accepts s) js)"
  by (cases j) simp_all

lemmas accepts_rules = accepts_string accepts_enum accepts_pattern accepts_minimum accepts_object accepts_open_object accepts_array

declare accepts.simps [simp del] holds.simps [simp del]

section \<open>What the models write\<close>

lemma accepts_source: "accepts source_schema (json_of_source s) \<longleftrightarrow> src_provider s = lit ''sftp''"
  by (simp add: source_schema_def accepts_rules json_of_source_def keys_ok_def obj_get_def)

lemma number_int [simp]: "snd (quotient_of (of_int n)) = 1"
  by (simp add: quotient_of_int)

lemma null_rejected [simp]: "accepts string_schema (json_opt JStr x) \<longleftrightarrow> x \<noteq> None" "accepts retry_schema JNull \<longleftrightarrow> False"
  by (cases x; simp add: accepts_string json_opt_def) (simp add: retry_schema_def accepts_open_object)

lemma accepts_file: "accepts file_schema (json_of_file f) \<longleftrightarrow>
    0 \<le> sizeBytes f \<and> matches sha256_pattern (checksumSha256 f) \<and> contentType f \<noteq> None"
  by (simp add: file_schema_def accepts_object accepts_minimum accepts_pattern json_of_file_def keys_ok_def obj_get_def)
    (simp add: accepts_string)

lemma accepts_destination: "accepts destination_schema (json_of_destination d) \<longleftrightarrow>
    List.member [lit ''aws-s3'', lit ''gcp-gcs''] (dst_provider d) \<and> dst_region d \<noteq> None"
  by (simp add: destination_schema_def accepts_object accepts_enum json_of_destination_def keys_ok_def obj_get_def)
    (simp add: accepts_string)

lemma accepts_retry: "accepts retry_schema (json_of_retry r) \<longleftrightarrow> 1 \<le> attempt r \<and> 1 \<le> maxAttempts r \<and> lastError r \<noteq> None"
  by (simp add: retry_schema_def accepts_open_object accepts_minimum json_of_retry_def keys_ok_def obj_get_def)

text \<open>A valid event meets the schema exactly if its texts are plain and no optional member is null.\<close>

definition plain_shapes :: "transfer_event \<Rightarrow> bool" where
  "plain_shapes e \<longleftrightarrow> plain_text (schemaVersion e) \<and> plain_text (idempotencyKey e) \<and> plain_text (checksumSha256 (ev_file e))"

definition no_nulls :: "transfer_event \<Rightarrow> bool" where
  "no_nulls e \<longleftrightarrow> contentType (ev_file e) \<noteq> None \<and> list_all (\<lambda>d. dst_region d \<noteq> None) (destinations e)
     \<and> (case ev_retry e of None \<Rightarrow> False | Some r \<Rightarrow> lastError r \<noteq> None)"

lemma accepts_retry_opt: "accepts retry_schema (json_opt json_of_retry x) \<longleftrightarrow>
    (case x of None \<Rightarrow> False | Some r \<Rightarrow> 1 \<le> attempt r \<and> 1 \<le> maxAttempts r \<and> lastError r \<noteq> None)"
  by (cases x) (simp_all add: json_opt_def accepts_retry)

lemma accepts_written:
  assumes "valid_event P e"
  shows "accepts event_schema (json_of_event e) \<longleftrightarrow> plain_shapes e \<and> no_nulls e"
proof -
  have "accepts event_schema (json_of_event e) \<longleftrightarrow> matches version_pattern (schemaVersion e)
    \<and> eventType e = lit ''file.transfer.requested'' \<and> matches key_pattern (idempotencyKey e)
    \<and> accepts source_schema (json_of_source (ev_source e)) \<and> accepts file_schema (json_of_file (ev_file e))
    \<and> 1 \<le> length (destinations e) \<and> list_all (\<lambda>d. accepts destination_schema (json_of_destination d)) (destinations e)
    \<and> accepts retry_schema (json_opt json_of_retry (ev_retry e))"
    by (simp add: event_schema_def accepts_object accepts_enum accepts_pattern accepts_array json_of_event_def keys_ok_def
      obj_get_def list.pred_map comp_def) (simp add: accepts_string)
  also have "\<dots> \<longleftrightarrow> plain_shapes e \<and> no_nulls e"
    using assms
    by (cases "ev_retry e") (auto simp: valid_event_def matches_version matches_key matches_sha256 accepts_source accepts_file
      accepts_destination accepts_retry_opt plain_shapes_def no_nulls_def valid_source_def valid_file_def valid_retry_def
      list_all_iff valid_destination_def Suc_le_eq)
  finally show ?thesis .
qed

section \<open>Without null members\<close>

text \<open>\<open>model_dump_json(exclude_none=True)\<close> would write this document.\<close>

fun without_nulls :: "json \<Rightarrow> json" where
  "without_nulls (JObj kvs) = JObj (map (\<lambda>(k, j). (k, without_nulls j)) (filter (\<lambda>(k, j). j \<noteq> JNull) kvs))"
| "without_nulls (JArr js) = JArr (map without_nulls js)"
| "without_nulls j = j"

lemma opt_null [simp]: "json_opt JStr x = JNull \<longleftrightarrow> x = None" "json_opt JStr None = JNull" "json_opt JStr (Some s) = JStr s"
    "json_opt json_of_retry y = JNull \<longleftrightarrow> y = None" "json_opt json_of_retry None = JNull"
    "json_opt json_of_retry (Some r) = json_of_retry r"
  by (cases x; simp add: json_opt_def) (cases y; simp add: json_opt_def json_of_retry_def)+

lemma pruned_source: "accepts source_schema (without_nulls (json_of_source s)) \<longleftrightarrow> src_provider s = lit ''sftp''"
  using accepts_source by (simp add: json_of_source_def)

lemma pruned_file: "accepts file_schema (without_nulls (json_of_file f)) \<longleftrightarrow>
    0 \<le> sizeBytes f \<and> matches sha256_pattern (checksumSha256 f)"
  by (cases "contentType f")
    (simp_all add: file_schema_def accepts_object accepts_minimum accepts_pattern accepts_string json_of_file_def keys_ok_def
      obj_get_def)

lemma pruned_destination: "accepts destination_schema (without_nulls (json_of_destination d)) \<longleftrightarrow>
    List.member [lit ''aws-s3'', lit ''gcp-gcs''] (dst_provider d)"
  by (cases "dst_region d")
    (simp_all add: destination_schema_def accepts_object accepts_enum accepts_string json_of_destination_def keys_ok_def
      obj_get_def)

lemma pruned_retry: "accepts retry_schema (without_nulls (json_of_retry r)) \<longleftrightarrow> 1 \<le> attempt r \<and> 1 \<le> maxAttempts r"
  by (cases "lastError r")
    (simp_all add: retry_schema_def accepts_open_object accepts_minimum accepts_string json_of_retry_def keys_ok_def obj_get_def)

lemma not_null [simp]: "json_of_source s \<noteq> JNull" "json_of_file f \<noteq> JNull" "json_of_retry r \<noteq> JNull"
  by (simp_all add: json_of_source_def json_of_file_def json_of_retry_def)

lemma accepts_pruned:
  assumes "valid_event P e"
  shows "accepts event_schema (without_nulls (json_of_event e)) \<longleftrightarrow> plain_shapes e"
proof -
  have "accepts event_schema (without_nulls (json_of_event e)) \<longleftrightarrow> matches version_pattern (schemaVersion e)
    \<and> eventType e = lit ''file.transfer.requested'' \<and> matches key_pattern (idempotencyKey e)
    \<and> accepts source_schema (without_nulls (json_of_source (ev_source e)))
    \<and> accepts file_schema (without_nulls (json_of_file (ev_file e)))
    \<and> 1 \<le> length (destinations e)
    \<and> list_all (\<lambda>d. accepts destination_schema (without_nulls (json_of_destination d))) (destinations e)
    \<and> (case ev_retry e of None \<Rightarrow> True | Some r \<Rightarrow> accepts retry_schema (without_nulls (json_of_retry r)))"
    by (cases "ev_retry e") (simp_all add: event_schema_def accepts_object accepts_enum accepts_pattern accepts_array accepts_string
      json_of_event_def keys_ok_def obj_get_def list.pred_map comp_def)
  also have "\<dots> \<longleftrightarrow> plain_shapes e"
    using assms
    by (cases "ev_retry e") (auto simp: valid_event_def matches_version matches_key matches_sha256 pruned_source pruned_file
      pruned_destination pruned_retry plain_shapes_def valid_source_def valid_file_def valid_retry_def list_all_iff
      valid_destination_def Suc_le_eq)
  finally show ?thesis .
qed

section \<open>What the schema accepts is read\<close>

text \<open>Beyond the schema: the formats it only annotates, and a retry block with both numbers.\<close>

definition retry_complete :: "json \<Rightarrow> bool" where
  "retry_complete j \<longleftrightarrow> (case j of JObj kvs \<Rightarrow> (case obj_get kvs ''retry'' of
      Some (JObj rs) \<Rightarrow> obj_get rs ''attempt'' \<noteq> None \<and> obj_get rs ''maxAttempts'' \<noteq> None | _ \<Rightarrow> True) | _ \<Rightarrow> True)"

definition formats_hold :: "'z pydantic_scheme \<Rightarrow> json \<Rightarrow> bool" where
  "formats_hold P j \<longleftrightarrow> (case j of JObj kvs \<Rightarrow>
      (\<forall>k \<in> {''eventId'', ''correlationId''}. \<forall>s. obj_get kvs k = Some (JStr s) \<longrightarrow> uuid_ok s)
    \<and> (\<forall>s. obj_get kvs ''occurredAt'' = Some (JStr s) \<longrightarrow> occurred_at_ok P s) | _ \<Rightarrow> True)"

lemma obj_get_plain: "json_plain (JObj kvs) \<Longrightarrow> obj_get kvs k = Some j \<Longrightarrow> json_plain j"
  by (auto simp: obj_get_def list_all_iff dest!: map_of_SomeD)

lemma plain_number: "json_plain j \<Longrightarrow> json_number j = Some r \<longleftrightarrow> (\<exists>n. j = JInt n \<and> r = of_int n)"
  by (cases j) auto

lemma read_source:
  assumes "accepts source_schema j" and "json_plain j"
  obtains s where "source_of_json j = Some s" "valid_source s"
proof -
  from assms(1) obtain kvs p q where j: "j = JObj kvs" "keys_ok kvs [''provider'', ''path'']" "obj_get kvs ''path'' = Some (JStr q)"
    "obj_get kvs ''provider'' = Some (JStr p)" "p = lit ''sftp''"
    by (auto simp: source_schema_def accepts_members accepts_enum accepts_string)
  moreover have "str_ok q" using obj_get_plain j(3) assms(2) j(1) by (fastforce simp: str_ok_def)
  ultimately show ?thesis
    by (intro that [of "\<lparr>src_provider = p, src_path = q\<rparr>"]) (simp_all add: source_of_json_def guard_opt_def valid_source_def)
qed

lemma read_file:
  assumes laws: "json_laws P" and "accepts file_schema j" and "json_plain j"
  obtains f where "file_of_json P j = Some f" "valid_file f"
proof -
  from assms(2) obtain kvs a b c where j: "j = JObj kvs" "keys_ok kvs [''name'', ''sizeBytes'', ''checksumSha256'', ''contentType'']"
    "obj_get kvs ''name'' = Some (JStr a)" "obj_get kvs ''sizeBytes'' = Some b" "obj_get kvs ''checksumSha256'' = Some (JStr c)"
    "accepts (Schema [Type T_integer, Minimum 0]) b" "matches sha256_pattern c"
    "\<forall>t. obj_get kvs ''contentType'' = Some t \<longrightarrow> (\<exists>x. t = JStr x)"
    by (auto simp: file_schema_def accepts_members accepts_pattern accepts_string)
  have p: "obj_get kvs k = Some v \<Longrightarrow> json_plain v" for k v using obj_get_plain assms(3) j(1) by blast
  then obtain n where n: "b = JInt n" "0 \<le> n" using j(4,6) plain_number [of b] by (auto simp: accepts_minimum)
  obtain t where t: "opt_field json_str (obj_get kvs ''contentType'') = Some t" "opt_str_ok t"
    using j(8) p [of "''contentType''"]
    by (cases "obj_get kvs ''contentType''") (fastforce simp: opt_field_def opt_str_ok_def str_ok_def)+
  have "str_ok a" "str_ok c" using p [OF j(3)] p [OF j(5)] by (simp_all add: str_ok_def)
  then show ?thesis
    using j n t laws
    by (intro that [of "\<lparr>file_name = a, sizeBytes = n, checksumSha256 = c, contentType = t\<rparr>"])
      (simp_all add: file_of_json_def guard_opt_def valid_file_def matches_sha256 json_laws_def)
qed

lemma read_destination:
  assumes "accepts destination_schema j" and "json_plain j"
  obtains d where "destination_of_json j = Some d" "valid_destination d"
proof -
  from assms(1) obtain kvs a b c where j: "j = JObj kvs" "keys_ok kvs [''provider'', ''bucket'', ''key'', ''region'']"
    "obj_get kvs ''provider'' = Some (JStr a)" "List.member [lit ''aws-s3'', lit ''gcp-gcs''] a"
    "obj_get kvs ''bucket'' = Some (JStr b)" "obj_get kvs ''key'' = Some (JStr c)"
    "\<forall>t. obj_get kvs ''region'' = Some t \<longrightarrow> (\<exists>x. t = JStr x)"
    by (auto simp: destination_schema_def accepts_members accepts_enum accepts_string)
  have p: "obj_get kvs k = Some v \<Longrightarrow> json_plain v" for k v using obj_get_plain assms(2) j(1) by blast
  obtain t where t: "opt_field json_str (obj_get kvs ''region'') = Some t" "opt_str_ok t"
    using j(7) p [of "''region''"]
    by (cases "obj_get kvs ''region''") (fastforce simp: opt_field_def opt_str_ok_def str_ok_def)+
  have "str_ok b" "str_ok c" using p [OF j(5)] p [OF j(6)] by (simp_all add: str_ok_def)
  then show ?thesis
    using j t by (intro that [of "\<lparr>dst_provider = a, dst_bucket = b, dst_key = c, dst_region = t\<rparr>"])
      (simp_all add: destination_of_json_def guard_opt_def valid_destination_def)
qed

lemma read_retry:
  assumes laws: "json_laws P" and "accepts retry_schema (JObj kvs)" and "json_plain (JObj kvs)"
    and "obj_get kvs ''attempt'' \<noteq> None" "obj_get kvs ''maxAttempts'' \<noteq> None"
  obtains r where "retry_of_json P (JObj kvs) = Some r" "valid_retry r"
proof -
  from assms(2,4,5) obtain a b where j: "keys_ok kvs [''attempt'', ''maxAttempts'', ''lastError'']"
    "obj_get kvs ''attempt'' = Some a" "obj_get kvs ''maxAttempts'' = Some b"
    "accepts (Schema [Type T_integer, Minimum 1]) a" "accepts (Schema [Type T_integer, Minimum 1]) b"
    "\<forall>t. obj_get kvs ''lastError'' = Some t \<longrightarrow> (\<exists>x. t = JStr x)"
    by (auto simp: retry_schema_def accepts_open_object accepts_string split: option.splits)
  have p: "obj_get kvs k = Some v \<Longrightarrow> json_plain v" for k v using obj_get_plain assms(3) by blast
  obtain m n where n: "a = JInt m" "1 \<le> m" "b = JInt n" "1 \<le> n"
    using j p plain_number [of a] plain_number [of b] by (auto simp: accepts_minimum)
  obtain t where t: "opt_field json_str (obj_get kvs ''lastError'') = Some t" "opt_str_ok t"
    using j(6) p [of "''lastError''"]
    by (cases "obj_get kvs ''lastError''") (fastforce simp: opt_field_def opt_str_ok_def str_ok_def)+
  show ?thesis
    using j n t laws by (intro that [of "\<lparr>attempt = m, maxAttempts = n, lastError = t\<rparr>"])
      (simp_all add: retry_of_json_def guard_opt_def valid_retry_def json_laws_def)
qed

lemma map_opt_all: "(\<And>x. x \<in> set xs \<Longrightarrow> \<exists>y. f x = Some y \<and> P y) \<Longrightarrow> \<exists>ys. map_opt f xs = Some ys \<and> list_all P ys \<and> length ys = length xs"
proof (induction xs)
  case (Cons x xs)
  then obtain y ys where "f x = Some y" "P y" "map_opt f xs = Some ys" "list_all P ys" "length ys = length xs" by fastforce
  then show ?case by auto
qed simp

lemma read_event:
  assumes laws: "json_laws P" and acc: "accepts event_schema j" and plain: "json_plain j"
    and formats: "formats_hold P j" and retry: "retry_complete j"
  obtains e where "event_of_json P j = Some e" "valid_event P e"
proof -
  from acc obtain kvs v i c k w s f ds where j: "j = JObj kvs" "keys_ok kvs [''schemaVersion'', ''eventType'', ''eventId'',
      ''correlationId'', ''idempotencyKey'', ''occurredAt'', ''source'', ''file'', ''destinations'', ''retry'']"
    "obj_get kvs ''schemaVersion'' = Some (JStr v)" "matches version_pattern v"
    "obj_get kvs ''eventType'' = Some (JStr (lit ''file.transfer.requested''))"
    "obj_get kvs ''eventId'' = Some (JStr i)" "obj_get kvs ''correlationId'' = Some (JStr c)"
    "obj_get kvs ''idempotencyKey'' = Some (JStr k)" "matches key_pattern k" "obj_get kvs ''occurredAt'' = Some (JStr w)"
    "obj_get kvs ''source'' = Some s" "accepts source_schema s" "obj_get kvs ''file'' = Some f" "accepts file_schema f"
    "obj_get kvs ''destinations'' = Some (JArr ds)" "1 \<le> length ds" "list_all (accepts destination_schema) ds"
    "\<forall>r. obj_get kvs ''retry'' = Some r \<longrightarrow> accepts retry_schema r"
    by (auto simp: event_schema_def accepts_members accepts_pattern accepts_string accepts_enum accepts_array)
  have p: "obj_get kvs k = Some v \<Longrightarrow> json_plain v" for k v using obj_get_plain plain j(1) by blast
  obtain s' where s': "source_of_json s = Some s'" "valid_source s'" using read_source [OF j(12) p [OF j(11)]] by blast
  obtain f' where f': "file_of_json P f = Some f'" "valid_file f'" using read_file [OF laws j(14) p [OF j(13)]] by blast
  have "\<exists>d'. destination_of_json d = Some d' \<and> valid_destination d'" if "d \<in> set ds" for d
  proof -
    have "accepts destination_schema d" "json_plain d" using that j(17) p [OF j(15)] by (auto simp: list_all_iff)
    then show ?thesis using read_destination by blast
  qed
  then obtain ds' where ds': "map_opt destination_of_json ds = Some ds'" "list_all valid_destination ds'" "ds' \<noteq> []"
    using map_opt_all [of ds destination_of_json valid_destination] j(16) by fastforce
  obtain r' where r': "opt_field (retry_of_json P) (obj_get kvs ''retry'') = Some r'"
    "case r' of None \<Rightarrow> True | Some r \<Rightarrow> valid_retry r"
  proof (cases "obj_get kvs ''retry''")
    case (Some r)
    then obtain rs where rs: "r = JObj rs" "accepts retry_schema (JObj rs)" "json_plain (JObj rs)"
      using j(18) p [OF Some] by (auto simp: retry_schema_def accepts_open_object)
    moreover have "obj_get rs ''attempt'' \<noteq> None" "obj_get rs ''maxAttempts'' \<noteq> None"
      using retry Some rs(1) j(1) by (simp_all add: retry_complete_def)
    ultimately obtain y where "retry_of_json P (JObj rs) = Some y" "valid_retry y" using read_retry [OF laws] by blast
    then show ?thesis using Some rs(1) by (intro that [of "Some y"]) (simp_all add: opt_field_def)
  qed (use that [of None] in \<open>simp add: opt_field_def\<close>)
  have "uuid_ok i" "uuid_ok c" "occurred_at_ok P w"
    using formats j(1,6,7,10) by (simp_all add: formats_hold_def)
  moreover have "str_ok v" "str_ok i" "str_ok c" "str_ok k" "str_ok w"
    using p [OF j(3)] p [OF j(6)] p [OF j(7)] p [OF j(8)] p [OF j(10)] by (simp_all add: str_ok_def)
  ultimately show ?thesis
    using j s' f' ds' r'
    by (intro that [of "\<lparr>schemaVersion = v, eventType = lit ''file.transfer.requested'', eventId = i, correlationId = c,
        idempotencyKey = k, occurredAt = w, ev_source = s', ev_file = f', destinations = ds', ev_retry = r'\<rparr>"])
      (simp_all add: event_of_json_def guard_opt_def valid_event_def matches_version matches_key)
qed

end
