(* ===== verification/Component_Properties.thy ===== *)
theory Component_Properties
  imports Consumer_Scenarios Event_Schema
begin

text \<open>
  The properties of the components below the consumer: event schema, CSV scan, idempotency table,
  configuration, broker topology and uploader.
\<close>

section \<open>Event schema\<close>

text \<open>C33. Serialising is lossless: what \<open>to_json_bytes\<close> writes for a valid event, \<open>from_json_bytes\<close> reads back and
  validates as the same event, field by field.\<close>

theorem event_json_roundtrip:
  assumes "json_laws P" and "valid_event P e"
  shows "from_json_bytes P (to_json_bytes P e) = Inr e"
  by (rule from_to_json_bytes [OF assms])

theorem event_json_roundtrip_witness:
  "from_json_bytes sample_env (to_json_bytes sample_env sample_event) = Inr sample_event"
  unfolding sample_env_def by (rule event_json_roundtrip [OF sample_json_laws sample_event_valid])

text \<open>C35. What validation lets through: an accepted message has version MAJOR.MINOR in digits, a key of the prefix
  sha256: and 64 lower-case hex digits, a checksum of 64 such digits, a non-negative size, at least one
  destination, and only destinations the uploader supports. Each of the three texts may end in one line feed
  more, since the dollar sign of the patterns matches before it.\<close>

theorem accepted_events_are_well_formed:
  assumes "from_json_bytes P bs = Inr e"
  shows "(\<exists>a b t. schemaVersion e = a @ lit ''.'' @ b @ t \<and> a \<noteq> [] \<and> b \<noteq> [] \<and> list_all is_digit (a @ b) \<and> t \<in> {[], [10]})
    \<and> (\<exists>h t. idempotencyKey e = lit ''sha256:'' @ h @ t \<and> length h = 64 \<and> list_all is_hex_lower h \<and> t \<in> {[], [10]})
    \<and> (\<exists>h t. checksumSha256 (ev_file e) = h @ t \<and> length h = 64 \<and> list_all is_hex_lower h \<and> t \<in> {[], [10]})
    \<and> 0 \<le> sizeBytes (ev_file e) \<and> destinations e \<noteq> []
    \<and> list_all (\<lambda>d. uploader_for S d path \<noteq> None) (destinations e)"
proof -
  have v: "valid_event P e" using assms by (rule from_json_bytes_valid)
  have dot: "lit ''.'' = [46]" by (simp add: lit_def)
  have "\<exists>a b t. schemaVersion e = a @ lit ''.'' @ b @ t \<and> a \<noteq> [] \<and> b \<noteq> [] \<and> list_all is_digit (a @ b) \<and> t \<in> {[], [10]}"
    using v by (auto simp: valid_event_def version_groups_iff at_end_iff dot)
  moreover have "\<exists>h t. idempotencyKey e = lit ''sha256:'' @ h @ t \<and> length h = 64 \<and> list_all is_hex_lower h \<and> t \<in> {[], [10]}"
    using v unfolding valid_event_def idempotency_re_iff sha256_re_iff at_end_iff by blast
  moreover have "\<exists>h t. checksumSha256 (ev_file e) = h @ t \<and> length h = 64 \<and> list_all is_hex_lower h \<and> t \<in> {[], [10]}"
    using v unfolding valid_event_def valid_file_def sha256_re_iff at_end_iff by blast
  moreover have "0 \<le> sizeBytes (ev_file e)" "destinations e \<noteq> []" "list_all valid_destination (destinations e)"
    using v by (simp_all add: valid_event_def valid_file_def)
  moreover from this(3) have "list_all (\<lambda>d. uploader_for S d path \<noteq> None) (destinations e)"
    by (auto simp: list_all_iff valid_destination_def uploader_for_def)
  ultimately show ?thesis by blast
qed

theorem accepted_events_are_well_formed_witness:
  "(\<exists>h t. idempotencyKey sample_event = lit ''sha256:'' @ h @ t \<and> length h = 64 \<and> list_all is_hex_lower h \<and> t \<in> {[], [10]})
    \<and> list_all (\<lambda>d. uploader_for default_settings d [] \<noteq> None) (destinations sample_event)"
  using accepted_events_are_well_formed [OF sample_message_read] by blast

text \<open>The key of an event is not unique: with a line feed appended to its idempotency key a valid event stays valid,
  and since the table compares keys as text the copy is not recognised as a duplicate of the original.\<close>

theorem newline_key_escapes_deduplication:
  assumes "valid_event P e" and "idempotency_re (take 71 (idempotencyKey e))"
    and "idempotencyKey e = take 71 (idempotencyKey e)"
  shows "valid_event P (e\<lparr>idempotencyKey := idempotencyKey e @ [10]\<rparr>)
    \<and> select_key (insert_or_ignore [] (idempotencyKey e) v) (idempotencyKey e)
    \<and> \<not> select_key (insert_or_ignore [] (idempotencyKey e) v) (idempotencyKey e @ [10])"
proof -
  have len: "length (idempotencyKey e) \<le> 71" using assms(3) by (metis length_take min.cobounded2)
  then obtain h where h: "idempotencyKey e = lit ''sha256:'' @ h" "length h = 64" "list_all is_hex_lower h"
    using assms(2,3) by (auto simp: idempotency_re_iff sha256_re_iff)
  then have "idempotency_re (idempotencyKey e @ [10])"
    by (auto simp: idempotency_re_iff sha256_re_iff at_end_iff)
  moreover have "is_scalar 10" by (simp add: is_scalar_def is_surrogate_def)
  ultimately have "valid_event P (e\<lparr>idempotencyKey := idempotencyKey e @ [10]\<rparr>)"
    using assms(1) by (simp add: valid_event_def str_ok_def)
  then show ?thesis by (simp add: insert_or_ignore_def select_key_iff)
qed

theorem newline_key_escapes_deduplication_witness:
  "valid_event sample_env (sample_event\<lparr>idempotencyKey := idempotencyKey sample_event @ [10]\<rparr>)
    \<and> select_key (insert_or_ignore [] (idempotencyKey sample_event) ([], [])) (idempotencyKey sample_event)
    \<and> \<not> select_key (insert_or_ignore [] (idempotencyKey sample_event) ([], [])) (idempotencyKey sample_event @ [10])"
proof -
  have "take 71 (idempotencyKey sample_event) = idempotencyKey sample_event"
    by (rule take_all) (simp add: sample_event_def)
  moreover have "idempotency_re (idempotencyKey sample_event)"
    using sample_event_valid by (simp add: valid_event_def)
  ultimately show ?thesis
    unfolding sample_env_def
    by (intro newline_key_escapes_deduplication [OF sample_event_valid]) simp_all
qed

section \<open>The published schema\<close>

definition meets_schema :: "'z pydantic_scheme \<Rightarrow> bytes \<Rightarrow> bool" where
  "meets_schema P bs \<longleftrightarrow> (\<exists>j. json_loads P bs = Some j \<and> accepts event_schema j)"

lemma written_document:
  assumes "json_laws P" and "valid_event P e"
  shows "json_loads P (to_json_bytes P e) = Some (json_of_event e)"
  using assms plain_event [OF assms(2)] by (simp add: json_laws_def to_json_bytes_def)

text \<open>C11. The models and the published JSON Schema, writing: what \<open>to_json_bytes\<close> writes for a valid event meets
  \<open>schemas/transfer-event.schema.json\<close> exactly if no optional member is null and version, key and checksum are
  printable ASCII; without its null members the document meets it exactly under the second condition.\<close>

theorem written_event_meets_schema:
  assumes "json_laws P" and "valid_event P e"
  shows "(meets_schema P (to_json_bytes P e) \<longleftrightarrow> plain_shapes e \<and> no_nulls e)
    \<and> (accepts event_schema (without_nulls (json_of_event e)) \<longleftrightarrow> plain_shapes e)"
  using accepts_written [OF assms(2)] accepts_pruned [OF assms(2)] written_document [OF assms] by (simp add: meets_schema_def)

lemma sample_shapes: "plain_shapes sample_event" "\<not> no_nulls sample_event"
  by (simp_all add: plain_shapes_def no_nulls_def sample_event_def)
    (simp_all add: plain_text_def lit_def list_all_iff [of _ "replicate _ _"])

theorem written_event_meets_schema_witness:
  "\<not> meets_schema sample_env (to_json_bytes sample_env sample_event)
    \<and> accepts event_schema (without_nulls (json_of_event sample_event))"
  unfolding sample_env_def using written_event_meets_schema [OF sample_json_laws sample_event_valid] sample_shapes by blast

text \<open>The models and the published JSON Schema, reading: every document that meets the schema, whose identifiers
  and time have the formats the schema names and whose retry block, if any, has both numbers, is accepted by
  \<open>from_json_bytes\<close>.\<close>

theorem schema_documents_are_read:
  assumes "json_laws P" and "json_loads P bs = Some j" and "accepts event_schema j" and "json_plain j"
    and "formats_hold P j" and "retry_complete j"
  shows "\<exists>e. from_json_bytes P bs = Inr e"
proof -
  obtain e where "event_of_json P j = Some e" "valid_event P e" using read_event [OF assms(1,3-6)] by blast
  then show ?thesis using assms(2) by (simp add: from_json_bytes_def mk_transfer_event_def)
qed

theorem schema_documents_are_read_witness:
  "\<exists>e. from_json_bytes sample_env (enc_json (without_nulls (json_of_event sample_event))) = Inr e"
proof -
  let ?j = "without_nulls (json_of_event sample_event)"
  have plain: "json_plain ?j"
    by (simp add: json_of_event_def json_of_source_def json_of_file_def json_of_destination_def sample_event_def json_opt_def)
      (simp add: list_all_iff is_scalar_def is_surrogate_def)
  have "json_laws sample_env" unfolding sample_env_def by (rule sample_json_laws)
  moreover from this have "json_loads sample_env (enc_json ?j) = Some ?j"
    using plain unfolding json_laws_def by (simp add: sample_env_def)
  moreover have "accepts event_schema ?j" using accepts_pruned [OF sample_event_valid] sample_shapes(1) by blast
  moreover have "formats_hold sample_env ?j"
    using sample_uuids sample_time
    by (simp add: formats_hold_def json_of_event_def obj_get_def sample_event_def json_opt_def sample_env_def)
  moreover have "retry_complete ?j"
    by (simp add: retry_complete_def json_of_event_def obj_get_def sample_event_def json_opt_def)
  ultimately show ?thesis using plain by (intro schema_documents_are_read)
qed

section \<open>CSV scan\<close>

text \<open>C34. The scan finds exactly the formula cells: for every table, written with quoted cells whatever they contain,
  the issues are those of the cells that begin with a formula prefix, each with its row and column counted
  from one.\<close>

theorem scan_reports_exactly_the_formula_cells:
  assumes "\<forall>row \<in> set rows. \<forall>c \<in> set row. length c \<le> field_limit"
    and "utf8_encode (quote_table rows) = Inr raw" and "0 \<notin> set raw"
  shows "\<exists>issues. scan_raw raw = Inr issues \<and> (\<forall>x. x \<in> set issues \<longleftrightarrow>
    (\<exists>i < length rows. \<exists>j < length (rows ! i). is_formula (rows ! i ! j) \<and> x = formula_issue (i + 1) (j + 1)))"
  using assms(3) utf8_decode_encode [OF assms(2)] csv_rows_quote_table [OF assms(1)]
  by (simp add: scan_raw_def scan_text_def in_scan_rows)

theorem scan_reports_exactly_the_formula_cells_witness:
  "\<exists>issues. scan_raw (map of_nat (quote_table [[lit ''id''], [lit ''=1+1'']])) = Inr issues \<and> (\<forall>x. x \<in> set issues \<longleftrightarrow>
    (\<exists>i < length [[lit ''id''], [lit ''=1+1'']]. \<exists>j < length ([[lit ''id''], [lit ''=1+1'']] ! i).
      is_formula ([[lit ''id''], [lit ''=1+1'']] ! i ! j) \<and> x = formula_issue (i + 1) (j + 1)))"
proof (rule scan_reports_exactly_the_formula_cells)
  show "utf8_encode (quote_table [[lit ''id''], [lit ''=1+1'']])
      = Inr (map of_nat (quote_table [[lit ''id''], [lit ''=1+1'']]))"
    by (simp add: quote_table_def quote_row_def quote_cell_def lit_def utf8_encode_def is_scalar_def is_surrogate_def enc_cp_def)
qed (simp_all add: quote_table_def quote_row_def quote_cell_def lit_def field_limit_def)

text \<open>What passes the scan: a file gets no issue exactly if it is not too large, holds no NUL byte, is valid UTF-8,
  is read by the CSV reader to its end, and no cell of any row starts with a formula prefix.\<close>

theorem scan_passes_iff_clean:
  "fst (scan_csv_file E S path w) = Return [] \<longleftrightarrow> (\<exists>n raw text rows.
     getsize_reply E (history w) path = Inr n \<and> int n \<le> max_csv_file_size_bytes S
     \<and> read_reply E (history w @ [GetSize path]) path = Inr raw \<and> 0 \<notin> set raw
     \<and> utf8_encode text = Inr raw \<and> csv_rows text = (rows, None)
     \<and> list_all (list_all (\<lambda>c. \<not> is_formula c)) rows)"
proof -
  have raw: "scan_raw raw = Inr [] \<longleftrightarrow> 0 \<notin> set raw \<and> (\<exists>text rows. utf8_encode text = Inr raw \<and> csv_rows text = (rows, None)
      \<and> list_all (list_all (\<lambda>c. \<not> is_formula c)) rows)" for raw
  proof (cases "utf8_decode raw")
    case (Inl x)
    then have "utf8_encode s \<noteq> Inr raw" for s using utf8_decode_encode by force
    with Inl show ?thesis by (simp add: scan_raw_def)
  next
    case (Inr t)
    then have "utf8_encode t = Inr raw" by (rule utf8_encode_decode)
    moreover have "s = t" if "utf8_encode s = Inr raw" for s
      using utf8_decode_encode [OF that] Inr by simp
    ultimately have "(\<exists>text rows. utf8_encode text = Inr raw \<and> csv_rows text = (rows, None)
        \<and> list_all (list_all (\<lambda>c. \<not> is_formula c)) rows) \<longleftrightarrow>
        (\<exists>rows. csv_rows t = (rows, None) \<and> list_all (list_all (\<lambda>c. \<not> is_formula c)) rows)" by blast
    then show ?thesis using Inr
      by (cases "csv_rows t"; cases "snd (csv_rows t)")
        (auto simp: scan_raw_def scan_text_def scan_rows_Nil_iff list_all_iff)
  qed
  have "fst (scan_csv_file E S path w) = Return [] \<longleftrightarrow> (\<exists>n raw. getsize_reply E (history w) path = Inr n
      \<and> int n \<le> max_csv_file_size_bytes S \<and> read_reply E (history w @ [GetSize path]) path = Inr raw \<and> scan_raw raw = Inr [])"
    by (auto simp: scan_csv_file_def bind_io_def ask_def ret_io_def lift_sum_def raise_io_def split: sum.splits)
  then show ?thesis unfolding raw by blast
qed

section \<open>Idempotency table\<close>

text \<open>The first mark wins: after any sequence of marks exactly the marked keys and those already there are done, and
  a key keeps the correlation id and time of its first mark.\<close>

theorem marks_keep_the_first:
  assumes "unique_keys t"
  shows "(\<forall>k'. select_key (fold (\<lambda>(k, v) t. insert_or_ignore t k v) kvs t) k' \<longleftrightarrow> k' \<in> fst ` set kvs \<or> select_key t k')
    \<and> (\<forall>k' v. row_value t k' = Some v \<longrightarrow> row_value (fold (\<lambda>(k, v) t. insert_or_ignore t k v) kvs t) k' = Some v)
    \<and> unique_keys (fold (\<lambda>(k, v) t. insert_or_ignore t k v) kvs t)"
  using sqlite.done_marks [OF assms] sqlite.value_marks_kept [OF assms] sqlite.invar_marks [OF assms] by blast

theorem marks_keep_the_first_witness:
  "select_key (fold (\<lambda>(k, v) t. insert_or_ignore t k v) [([1], ([2], [3])), ([1], ([4], [5]))] []) [1]
    \<and> unique_keys (fold (\<lambda>(k, v) t. insert_or_ignore t k v) [([1], ([2], [3])), ([1], ([4], [5]))] [])"
  using marks_keep_the_first [of "[]" "[([1], ([2], [3])), ([1], ([4], [5]))]"] by (simp add: unique_keys_def)

section \<open>Configuration\<close>

lemma cfg_int_default: "env (lit name) = None \<Longrightarrow> length (show_nat (nat \<bar>d\<bar>)) \<le> 4300 \<Longrightarrow> cfg_int env name d = Inr d"
  by (simp add: cfg_int_def py_int_show_int)

lemma cfg_int_set:
  "env (lit name) = Some (show_int n) \<Longrightarrow> length (show_nat (nat \<bar>n\<bar>)) \<le> 4300 \<Longrightarrow> cfg_int env name d = Inr n"
  by (simp add: cfg_int_def py_int_show_int)

text \<open>Configuration is read as written: with no variable set \<open>from_env\<close> gives exactly the documented defaults, and
  setting the three worker limits to any numbers of at most 4300 digits gives the defaults with just these
  changed - zero and negative limits are accepted as they are.\<close>

theorem environment_is_read_as_written:
  assumes "length (show_nat (nat \<bar>c\<bar>)) \<le> 4300" and "length (show_nat (nat \<bar>r\<bar>)) \<le> 4300" and "length (show_nat (nat \<bar>m\<bar>)) \<le> 4300"
  shows "from_env (\<lambda>_. None) = Inr default_settings
    \<and> from_env [lit ''UPLOAD_MAX_CONCURRENCY'' \<mapsto> show_int c, lit ''RETRY_MAX_ATTEMPTS'' \<mapsto> show_int r,
        lit ''MAX_CSV_FILE_SIZE_BYTES'' \<mapsto> show_int m]
      = Inr (default_settings\<lparr>upload_max_concurrency := c, retry_max_attempts := r, max_csv_file_size_bytes := m\<rparr>)"
proof -
  have d: "length (show_nat 5672) \<le> 4300" "length (show_nat 8080) \<le> 4300" "length (show_nat 2) \<le> 4300"
    "length (show_nat 5) \<le> 4300" "length (show_nat 10000000) \<le> 4300"
    by (simp_all add: show_nat.simps)
  show ?thesis
    unfolding from_env_def Let_def
    by (simp add: cfg_int_default cfg_int_set assms d cfg_str_def cfg_opt_str_def cfg_float_def)
      (simp add: default_settings_def d cfg_int_default)
qed

theorem environment_is_read_as_written_witness:
  "from_env (\<lambda>_. None) = Inr default_settings
    \<and> from_env [lit ''UPLOAD_MAX_CONCURRENCY'' \<mapsto> show_int 0, lit ''RETRY_MAX_ATTEMPTS'' \<mapsto> show_int (- 1),
        lit ''MAX_CSV_FILE_SIZE_BYTES'' \<mapsto> show_int 7]
      = Inr (default_settings\<lparr>upload_max_concurrency := 0, retry_max_attempts := - 1, max_csv_file_size_bytes := 7\<rparr>)"
  by (rule environment_is_read_as_written) (simp_all add: show_nat.simps)

text \<open>A malformed number stops the start: \<open>from_env\<close> gives settings exactly if each of the eight numeric variables
  that is set reads as a number, and otherwise raises \<open>ValueError\<close>.\<close>

theorem malformed_numbers_stop_the_start:
  "(\<exists>S. from_env env = Inr S) = (list_all (\<lambda>(n, d). \<exists>x. cfg_int env n d = Inr x)
      [(''RABBITMQ_PORT'', 5672), (''UPLOAD_MAX_CONCURRENCY'', 2), (''RETRY_MAX_ATTEMPTS'', 5),
       (''MAX_CSV_FILE_SIZE_BYTES'', 10000000), (''HEALTH_PORT'', 8080)]
    \<and> list_all (\<lambda>(n, d). \<exists>x. cfg_float env n d = Inr x)
      [(''STABLE_CHECK_INTERVAL_S'', Finite 1), (''RETRY_BACKOFF_BASE'', Finite 2), (''UPLOAD_TIMEOUT_S'', Finite 30)])
   \<and> (case from_env env of Inl x \<Rightarrow> isinstance x ValueError | Inr _ \<Rightarrow> True)"
proof -
  have i: "cfg_int env n d = Inl x \<Longrightarrow> isinstance x ValueError" for n d x
    by (auto simp: cfg_int_def value_error_def dest!: py_int_error split: option.splits)
  have f: "cfg_float env n d = Inl x \<Longrightarrow> isinstance x ValueError" for n d x
    by (auto simp: cfg_float_def py_float_def Let_def value_error_def split: option.splits if_splits prod.splits)
  have "(\<exists>S. from_env env = Inr S) = (list_all (\<lambda>(n, d). \<exists>x. cfg_int env n d = Inr x)
      [(''RABBITMQ_PORT'', 5672), (''UPLOAD_MAX_CONCURRENCY'', 2), (''RETRY_MAX_ATTEMPTS'', 5),
       (''MAX_CSV_FILE_SIZE_BYTES'', 10000000), (''HEALTH_PORT'', 8080)]
    \<and> list_all (\<lambda>(n, d). \<exists>x. cfg_float env n d = Inr x)
      [(''STABLE_CHECK_INTERVAL_S'', Finite 1), (''RETRY_BACKOFF_BASE'', Finite 2), (''UPLOAD_TIMEOUT_S'', Finite 30)])"
    by (auto simp: from_env_def Let_def default_settings_def bind_sum_Inr)
  moreover have "from_env env = Inl x \<Longrightarrow> isinstance x ValueError" for x
    by (auto simp: from_env_def Let_def bind_sum_Inl dest: i f)
  ultimately show ?thesis by (simp split: sum.split)
qed

text \<open>The broker URL is ambiguous: user, password and host are inserted without percent-encoding, so a password
  with an at-sign gives the URL of another password and another host.\<close>

theorem broker_url_is_ambiguous:
  "rabbitmq_url (S\<lparr>rabbitmq_pass := p @ lit ''@'' @ x, rabbitmq_host := h\<rparr>)
    = rabbitmq_url (S\<lparr>rabbitmq_pass := p, rabbitmq_host := x @ lit ''@'' @ h\<rparr>)"
  by (simp add: rabbitmq_url_def)

lemma hex_upper_inj: "a < 16 \<Longrightarrow> b < 16 \<Longrightarrow> hex_upper a = hex_upper b \<Longrightarrow> a = b"
  by (auto simp: hex_upper_def split: if_splits)

lemma unreserved_not_percent: "\<not> is_unreserved 37"
  by (simp add: is_unreserved_def lit_def)

lemma quote_byte_prefix: "quote_byte a @ s = quote_byte b @ t \<Longrightarrow> a = b \<and> s = t"
proof -
  assume eq: "quote_byte a @ s = quote_byte b @ t"
  have bound: "unat a < 256" "unat b < 256" using unat_byte by auto
  show ?thesis
  proof (cases "is_unreserved (unat a) \<or> is_unreserved (unat b)")
    case True
    then show ?thesis using eq unreserved_not_percent
      by (auto simp: quote_byte_def unsigned_word_eqI split: if_splits)
  next
    case False
    with eq have "hex_upper (unat a div 16) = hex_upper (unat b div 16)" "hex_upper (unat a mod 16) = hex_upper (unat b mod 16)"
      and st: "s = t" by (auto simp: quote_byte_def)
    then have "unat a div 16 = unat b div 16" "unat a mod 16 = unat b mod 16"
      using bound by (auto intro!: hex_upper_inj)
    then have "unat a = unat b" by (metis div_mult_mod_eq)
    then show ?thesis using st by (simp add: unsigned_word_eqI)
  qed
qed

lemma concat_quote_inj: "concat (map quote_byte as) = concat (map quote_byte bs) \<Longrightarrow> as = bs"
proof (induction as arbitrary: bs)
  case Nil
  then show ?case by (cases bs) (auto simp: quote_byte_def split: if_splits)
next
  case (Cons a as)
  then obtain b bs' where bs: "bs = b # bs'" by (cases bs) (auto simp: quote_byte_def split: if_splits)
  with Cons.prems have "a = b \<and> concat (map quote_byte as) = concat (map quote_byte bs')"
    by (intro quote_byte_prefix) simp
  with Cons.IH bs show ?case by simp
qed

text \<open>The virtual host is encoded safely: the quoted text has only unreserved characters and percent signs, and
  different virtual hosts have different quoted texts.\<close>

theorem quoting_is_safe_and_injective:
  assumes "url_quote s = Inr q"
  shows "list_all (\<lambda>c. is_unreserved c \<or> c = 37) q \<and> (\<forall>t. url_quote t = Inr q \<longleftrightarrow> t = s)"
proof -
  obtain bs where bs: "utf8_encode s = Inr bs" "q = concat (map quote_byte bs)"
    using assms by (auto simp: url_quote_def bind_sum_Inr)
  have hex: "is_unreserved (hex_upper n)" if "n < 16" for n
    using that by (auto simp: hex_upper_def is_unreserved_def)
  have "list_all (\<lambda>c. is_unreserved c \<or> c = 37) (quote_byte b)" for b
  proof -
    have "unat b < 256" by (rule unat_byte)
    then show ?thesis using hex [of "unat b div 16"] hex [of "unat b mod 16"] by (simp add: quote_byte_def)
  qed
  then have "list_all (\<lambda>c. is_unreserved c \<or> c = 37) q" by (auto simp: bs(2) list_all_iff)
  moreover have "t = s" if "url_quote t = Inr q" for t
  proof -
    obtain cs where cs: "utf8_encode t = Inr cs" "q = concat (map quote_byte cs)"
      using \<open>url_quote t = Inr q\<close> by (auto simp: url_quote_def bind_sum_Inr)
    then have "cs = bs" using bs concat_quote_inj by metis
    with cs(1) bs(1) utf8_decode_encode show ?thesis by (metis sum.inject(2))
  qed
  ultimately show ?thesis using assms by blast
qed

theorem quoting_is_safe_and_injective_witness:
  "list_all (\<lambda>c. is_unreserved c \<or> c = 37) [37, 50, 70] \<and> (\<forall>t. url_quote t = Inr [37, 50, 70] \<longleftrightarrow> t = lit ''/'')"
  by (rule quoting_is_safe_and_injective)
    (simp add: url_quote_def utf8_encode_def lit_def is_scalar_def is_surrogate_def enc_cp_def quote_byte_def
      is_unreserved_def hex_upper_def)

section \<open>Broker\<close>

text \<open>Setting up a connection declares the whole topology before anything is published: a successful set-up opens one
  connection and channel, declares the three durable queues in order - the retry queue dead-letters through the
  default exchange to the main queue, the other two have no arguments - and then turns on publisher confirms; a
  failed one raises and has published nothing.\<close>

theorem setup_declares_the_topology:
  "case connect_and_setup E S w of
     (Return (conn, ch, pb), w') \<Rightarrow> pb = \<lparr>pub_channel = ch, pub_settings = S\<rparr> \<and> ch = conn
       \<and> new_actions w w' = [Connect (connection_params S), OpenChannel,
           Declare ch \<lparr>decl_queue = queue_name S, durable = True, arguments = []\<rparr>,
           Declare ch \<lparr>decl_queue = retry_queue_name S, durable = True, arguments =
             [(lit ''x-dead-letter-exchange'', lit []), (lit ''x-dead-letter-routing-key'', queue_name S)]\<rparr>,
           Declare ch \<lparr>decl_queue = dlq_name S, durable = True, arguments = []\<rparr>,
           ConfirmDelivery ch]
   | (Raise x, w') \<Rightarrow> publications any_channel (new_actions w w') = []
   | (Hang, w') \<Rightarrow> False"
  by (auto simp: connect_and_setup_def connect_def open_channel_def declare_topology_def queue_declare_def
      mk_publisher_def call_def bind_io_def get_io_def ret_io_def main_queue_def retry_queue_def
      dead_letter_queue_def new_actions_def split: option.split)

section \<open>Uploads\<close>

text \<open>C31. The upload phase does every destination once: with at least one permit it always comes back, with one result
  per destination in their order, each the result its own recorded outcome calls for. Every SDK call is started once, and
  the wait for it ends once, by the call or by its deadline. \<open>UPLOAD_MAX_CONCURRENCY\<close> bounds the calls that are waited for;
  the calls that run at the same time are at most as many more as deadlines have passed, and those still running are
  joined at the end, together and before the handler goes on. Nothing else is done to the outside.\<close>

theorem every_destination_is_uploaded_once:
  assumes "0 < upload_max_concurrency S"
  shows "\<exists>rs h w'. run_uploads E S e path w = (Return rs, w') \<and> history w' = history w @ h
    \<and> length rs = length (destinations e)
    \<and> (\<forall>i < length rs. \<exists>out. rs ! i = result_of S path (destinations e ! i) out
        \<and> set (end_actions S path (destinations e ! i) out) \<subseteq> set h)
    \<and> mset (started_calls h) = mset (List.map_filter (\<lambda>d. uploader_for S d path) (destinations e))
    \<and> mset (ended_calls h) + mset (timed_out_calls h) = mset (started_calls h)
    \<and> (\<forall>p s. h = p @ s \<longrightarrow> int (length (started_calls p))
        \<le> int (length (ended_calls p)) + int (length (timed_out_calls p)) + upload_max_concurrency S)
    \<and> (\<exists>g b. h = g @ (if timed_out_calls g = [] then [] else [JoinThreads (timed_out_calls g) b])
        \<and> (\<forall>x \<in> set g. (\<exists>c. x = UploadStart c) \<or> (\<exists>c out. x = wait_end c out)))"
proof -
  let ?ds = "destinations e"
  obtain rs h w' where r: "run_uploads E S e path w = (Return rs, w')" "history w' = history w @ h"
    "upload_report S path ?ds (nat (upload_max_concurrency S)) h rs"
    using run_uploads_report [OF assms] by blast
  note u = r(3) [unfolded upload_report_def recorded_def awaited_calls_def joined_def]
  have "calls_of S path ?ds [0..<length ?ds] = List.map_filter (\<lambda>d. uploader_for S d path) (map ((!) ?ds) [0..<length ?ds])"
    by (simp add: calls_of_def List.map_filter_def comp_def filter_map)
  then have calls: "calls_of S path ?ds [0..<length ?ds] = List.map_filter (\<lambda>d. uploader_for S d path) ?ds"
    by (simp add: map_nth)
  have "int (length (started_calls p)) \<le> int (length (ended_calls p)) + int (length (timed_out_calls p)) + upload_max_concurrency S"
    if "h = p @ s" for p s
  proof -
    have "length (started_calls p) \<le> size (mset (ended_calls p) + mset (timed_out_calls p)) + nat (upload_max_concurrency S)"
      using u that by blast
    then show ?thesis using assms by simp
  qed
  then show ?thesis using r(1,2) u calls by (intro exI [of _ rs] exI [of _ h] exI [of _ w']) auto
qed

text \<open>One permit and two deadlines that pass: the second SDK call starts while the first still runs, and both are joined.\<close>

lemma two_calls_with_one_permit:
  "history (snd (run_uploads failing_env (default_settings\<lparr>upload_max_concurrency := 1\<rparr>) sample_event [1] sample_world))
    = (let c = S3Upload (s3_endpoint_url default_settings) (s3_region default_settings) (lit ''wms'') (lit ''k'') [1];
           d = GcsUpload (gcp_project default_settings) (gcs_client_endpoint default_settings) (lit ''wms'') (lit ''k'') [1]
       in [UploadStart c, UploadTimeout c, UploadStart d, UploadTimeout d, JoinThreads [c, d] True])"
  by (simp add: run_uploads_def asyncio_run_def upload_all_def sample_event_def drive.simps upt_rec start_one_def finish_one_def
    uploader_for_def upload_to_s3_def upload_to_gcs_def failing_env_def sample_env_of_def bind_io_def io_defs ret_io_def inc_defs
    sample_world_def new_actions_def join_actions_def Let_def gcs_client_endpoint_def)

theorem every_destination_is_uploaded_once_witness:
  "\<exists>rs h w'. run_uploads failing_env default_settings sample_event [1] sample_world = (Return rs, w')
    \<and> length rs = 2 \<and> mset (ended_calls h) + mset (timed_out_calls h) = mset (started_calls h)"
proof -
  have "0 < upload_max_concurrency default_settings" by (simp add: default_settings_def)
  from every_destination_is_uploaded_once [OF this, of failing_env sample_event "[1]" sample_world]
  show ?thesis by (auto simp: sample_event_def)
qed

text \<open>A destination's region is never used: whatever region an event names, the S3 upload goes through a client for
  the region of the worker's own settings.\<close>

lemma destination_region_is_ignored:
  "uploader_for S (d\<lparr>dst_provider := lit ''aws-s3'', dst_region := r\<rparr>) path =
    Some (S3Upload (s3_endpoint_url S) (s3_region S) (dst_bucket d) (dst_key d) path)"
  by (simp add: uploader_for_def upload_to_s3_def)

section \<open>Backoff\<close>

text \<open>Retry delays double: with base 2 (and exact powers of it) the delay before attempt \<open>n\<close> is \<open>1000 * 2^n\<close>
  milliseconds for every attempt up to 43, and it is what the retry message carries as its expiration.\<close>

theorem retry_delay_doubles:
  assumes "c_pow E (retry_backoff_base S) n = Inr (Finite (2 powi n))" and "0 \<le> n" and "n \<le> 43"
  shows "\<exists>ms. backoff_delay_ms E S n = Inr ms \<and> ms = 1000 * 2 ^ nat n
    \<and> expiration (pub_props (event_publication E q e (Some (show_int ms)) None)) = Some (show_nat (1000 * 2 ^ nat n))"
proof -
  have "nat (1000 * 2 ^ nat n) = 1000 * 2 ^ nat n" by (simp add: nat_mult_distrib nat_power_eq)
  then show ?thesis using backoff_base_2 [OF assms] by (simp add: event_publication_def show_int_def)
qed

theorem retry_delay_doubles_witness:
  "\<exists>ms. backoff_delay_ms sample_env default_settings 5 = Inr ms \<and> ms = 1000 * 2 ^ nat 5
    \<and> expiration (pub_props (event_publication sample_env (lit ''q'') sample_event (Some (show_int ms)) None))
      = Some (show_nat (1000 * 2 ^ nat 5))"
  unfolding sample_env_def by (rule retry_delay_doubles [OF sample_pow_2]) simp_all

end
