(* ===== verification/Utils.thy ===== *)
theory Utils
  imports World
begin

text \<open>
  Helpers, \<open>worker/src/utils.py\<close>: the streamed SHA-256 of a file, the timestamp and UUID
  texts, and the idempotency key. The hash object of \<open>hashlib\<close> is modelled as it works, with
  a chaining state, the bytes that do not fill a block yet, and the length so far
  (\<open>sha_context\<close>); \<open>sha_stream\<close> proves that feeding it any division of a message into
  chunks gives the digest of the whole message.
\<close>

section \<open>The hash object\<close>

record sha_context =
  ctx_state :: sha_state
  ctx_tail :: bytes
  ctx_length :: nat

definition sha_new :: sha_context where
  "sha_new = \<lparr>ctx_state = sha_init sha_h0, ctx_tail = [], ctx_length = 0\<rparr>"

definition sha_update :: "sha_context \<Rightarrow> bytes \<Rightarrow> sha_context" where
  "sha_update c bs = (let data = ctx_tail c @ bs; n = length data div 64 * 64 in
     \<lparr>ctx_state = foldl sha_block (ctx_state c) (chunks 64 (take n data)),
      ctx_tail = drop n data,
      ctx_length = ctx_length c + length bs\<rparr>)"

definition sha_digest :: "sha_context \<Rightarrow> bytes" where
  "sha_digest c = concat (map (\<lambda>w. be_bytes 4 (unat w)) (sha_out (foldl sha_block (ctx_state c)
     (chunks 64 (ctx_tail c @ [0x80] @ replicate ((119 - ctx_length c mod 64) mod 64) 0 @ be_bytes 8 (8 * ctx_length c))))))"

definition hexdigest :: "sha_context \<Rightarrow> pystr" where
  "hexdigest c = hex_of (sha_digest c)"

lemma chunks_append: "0 < n \<Longrightarrow> n dvd length a \<Longrightarrow> chunks n (a @ b) = chunks n a @ chunks n b"
proof (induction "length a" arbitrary: a rule: less_induct)
  case less
  show ?case
  proof (cases "a = []")
    case True
    then show ?thesis by (simp add: chunks.simps [of n "[]"])
  next
    case False
    then have len: "n \<le> length a" using less.prems by (simp add: dvd_imp_le)
    have "chunks n (drop n a @ b) = chunks n (drop n a) @ chunks n b"
      using less.prems len by (intro less.hyps) (simp_all add: False dvd_diff_nat)
    moreover have "chunks n (a @ b) = take n a # chunks n (drop n a @ b)"
      using False len less.prems by (subst chunks.simps) simp
    moreover have "chunks n a = take n a # chunks n (drop n a)"
      using False less.prems by (subst chunks.simps) simp
    ultimately show ?thesis by simp
  qed
qed

text \<open>The hash object stands for the message it was fed.\<close>

definition hashes :: "sha_context \<Rightarrow> bytes \<Rightarrow> bool" where
  "hashes c m \<longleftrightarrow> (\<exists>full. m = full @ ctx_tail c \<and> 64 dvd length full
     \<and> ctx_state c = foldl sha_block (sha_init sha_h0) (chunks 64 full) \<and> ctx_length c = length m)"

lemma hashes_new: "hashes sha_new []"
  by (simp add: hashes_def sha_new_def chunks.simps)

lemma hashes_update:
  assumes "hashes c m"
  shows "hashes (sha_update c bs) (m @ bs)"
proof -
  obtain full where f: "m = full @ ctx_tail c" "64 dvd length full"
    "ctx_state c = foldl sha_block (sha_init sha_h0) (chunks 64 full)" "ctx_length c = length m"
    using assms by (auto simp: hashes_def)
  define d n where "d = ctx_tail c @ bs" and "n = length d div 64 * 64"
  have "64 dvd length (take n d)" by (simp add: n_def min_absorb2)
  then have "64 dvd length (full @ take n d)" using f(2) by simp
  moreover have "chunks 64 (full @ take n d) = chunks 64 full @ chunks 64 (take n d)"
    using f(2) by (intro chunks_append) simp_all
  moreover have "sha_update c bs = \<lparr>ctx_state = foldl sha_block (ctx_state c) (chunks 64 (take n d)),
      ctx_tail = drop n d, ctx_length = ctx_length c + length bs\<rparr>"
    by (simp add: sha_update_def Let_def d_def n_def)
  moreover have "m @ bs = (full @ take n d) @ drop n d"
    unfolding append_assoc append_take_drop_id by (simp add: f(1) d_def)
  moreover have "length m + length bs = length full + length d" by (simp add: f(1) d_def)
  ultimately show ?thesis
    unfolding hashes_def using f(3,4) by (intro exI [of _ "full @ take n d"]) simp
qed

lemma hashes_digest:
  assumes "hashes c m"
  shows "sha_digest c = sha256 m"
proof -
  obtain full where f: "m = full @ ctx_tail c" "64 dvd length full"
    "ctx_state c = foldl sha_block (sha_init sha_h0) (chunks 64 full)" "ctx_length c = length m"
    using assms by (auto simp: hashes_def)
  define t where "t = ctx_tail c @ [0x80] @ replicate ((119 - length m mod 64) mod 64) 0 @ be_bytes 8 (8 * length m)"
  have "sha_pad m = full @ t" using f(1) by (simp add: sha_pad_def t_def)
  then have "chunks 64 (sha_pad m) = chunks 64 full @ chunks 64 t"
    using chunks_append [of 64 full t] f(2) by simp
  then show ?thesis by (simp add: sha256_def sha_digest_def f(3,4) t_def)
qed

lemma sha_stream: "sha_digest (foldl sha_update sha_new bss) = sha256 (concat bss)"
proof -
  have "hashes (foldl sha_update c bss) (m @ concat bss)" if "hashes c m" for c m
    using that
  proof (induction bss arbitrary: c m)
    case (Cons bs bss)
    from Cons.IH [OF hashes_update [OF Cons.prems, of bs]] show ?case by simp
  qed simp
  from this [OF hashes_new] show ?thesis by (simp add: hashes_digest)
qed

section \<open>The helpers\<close>

definition chunk_size :: nat where
  "chunk_size = 1024 * 1024"

text \<open>\<open>iter(lambda: fh.read(n), b"")\<close> ends at the first empty read.\<close>

definition sha256_file :: "environ \<Rightarrow> pystr \<Rightarrow> (world, pystr) io" where
  "sha256_file E path = bind_io (ask (\<lambda>h. chunks_reply E h path) (ReadChunks path)) (\<lambda>reads.
     ret_io (hexdigest (foldl sha_update sha_new (takeWhile (\<lambda>c. c \<noteq> []) reads))))"

definition show_pad :: "nat \<Rightarrow> nat \<Rightarrow> pystr" where
  "show_pad k n = replicate (k - length (show_nat n)) 48 @ show_nat n"

definition iso_text :: "timestamp \<Rightarrow> pystr" where
  "iso_text t = show_pad 4 (ts_year t) @ lit ''-'' @ show_pad 2 (ts_month t) @ lit ''-'' @ show_pad 2 (ts_day t)
     @ lit ''T'' @ show_pad 2 (ts_hour t) @ lit '':'' @ show_pad 2 (ts_minute t) @ lit '':'' @ show_pad 2 (ts_second t)"

definition utcnow_iso :: "environ \<Rightarrow> (world, pystr) io" where
  "utcnow_iso E = bind_io (ask (\<lambda>h. Inr (clock_reply E h)) ReadClock) (\<lambda>t. ret_io (iso_text t @ lit ''Z''))"

text \<open>\<open>str(uuid.uuid4())\<close>: 16 random bytes with the version and variant bits set.\<close>

definition uuid_text :: "bytes \<Rightarrow> pystr" where
  "uuid_text bs =
     (let bs = bs[6 := (bs ! 6 AND 0x0f) OR 0x40, 8 := (bs ! 8 AND 0x3f) OR 0x80];
          h = hex_of bs
      in take 8 h @ [45] @ take 4 (drop 8 h) @ [45] @ take 4 (drop 12 h) @ [45] @ take 4 (drop 16 h) @ [45] @ drop 20 h)"

definition new_uuid :: "environ \<Rightarrow> (world, pystr) io" where
  "new_uuid E = bind_io (ask (\<lambda>h. Inr (urandom_reply E h)) Urandom) (\<lambda>bs. ret_io (uuid_text bs))"

text \<open>The text under the HMAC: \<open>f"{source_path}|{size_bytes}|{checksum_sha256}"\<close>\<close>

definition key_message :: "pystr \<Rightarrow> int \<Rightarrow> pystr \<Rightarrow> pystr" where
  "key_message source_path size_bytes checksum = source_path @ [124] @ show_int size_bytes @ [124] @ checksum"

definition compute_idempotency_key :: "pystr \<Rightarrow> pystr \<Rightarrow> int \<Rightarrow> pystr \<Rightarrow> exn + pystr" where
  "compute_idempotency_key secret source_path size_bytes checksum =
     bind_sum (utf8_encode (key_message source_path size_bytes checksum)) (\<lambda>m.
     bind_sum (utf8_encode secret) (\<lambda>k.
     Inr (lit ''sha256:'' @ hex_of (hmac_sha256 k m))))"

section \<open>Lemmas\<close>

lemma idempotency_key_shape:
  assumes "compute_idempotency_key secret path n checksum = Inr k"
  shows "idempotency_re k" and "length k = 71" and "str_ok k"
proof -
  obtain bs where k: "k = lit ''sha256:'' @ hex_of bs" "length bs = 32"
    using assms by (auto simp: compute_idempotency_key_def bind_sum_Inr)
  then have h: "length (hex_of bs) = 64" "list_all is_hex_lower (hex_of bs)"
    by (simp_all add: hex_of_lower)
  then show "idempotency_re k"
    unfolding k(1) idempotency_re_iff sha256_re_iff at_end_iff by (intro exI [of _ "hex_of bs"] conjI exI [of _ "[]"]) auto
  show "length k = 71" using h k by simp
  have "is_scalar c" if "is_hex_lower c" for c
    using that by (auto simp: is_hex_lower_def is_scalar_def is_surrogate_def)
  then have "list_all is_scalar (hex_of bs)" using h(2) by (auto simp: list_all_iff)
  then show "str_ok k" unfolding k(1) str_ok_def list_all_append by simp
qed

text \<open>What \<open>uuid.UUID\<close> makes of a generated text: 32 hexadecimal digits.\<close>

lemma replace_absent:
  assumes "x \<notin> set s"
  shows "replace_str (x # old) new s = s"
  using assms
proof (induction s)
  case (Cons c s)
  then show ?case by (subst replace_str.simps) (auto simp: starts_with_def)
qed (simp add: replace_str.simps)

lemma replace_char: "replace_str [x] new s = concat (map (\<lambda>c. if c = x then new else [c]) s)"
proof (induction s)
  case (Cons c s)
  then show ?case by (subst replace_str.simps) (simp add: starts_with_def)
qed (simp add: replace_str.simps)

lemma hex_base_digit: "is_hex_lower c \<Longrightarrow> \<exists>d < 16. base_digit c = Some d"
proof -
  assume "is_hex_lower c"
  then consider (dec) "48 \<le> c" "c < 58" | (alpha) "97 \<le> c" "c \<le> 102" by (auto simp: is_hex_lower_def)
  then show ?thesis
  proof cases
    case dec
    then have "c = 48 + (c - 48)" "c - 48 < 10" by simp_all
    then show ?thesis using base_digit_ascii [of "c - 48"] by (intro exI [of _ "c - 48"]) simp
  next
    case alpha
    then have "digit_val c = None" by (simp add: digit_val_def nd_zeros_def)
    then show ?thesis using alpha by (simp add: base_digit_def)
  qed
qed

lemma scan_hex: "list_all is_hex_lower s \<Longrightarrow> s \<noteq> [] \<or> prev \<Longrightarrow>
    \<exists>ds. scan_digits 16 prev s = Some ds \<and> length ds = length s \<and> list_all (\<lambda>d. d < 16) ds"
proof (induction s arbitrary: prev)
  case (Cons c s)
  then obtain d where d: "d < 16" "base_digit c = Some d" using hex_base_digit by auto
  moreover obtain ds where "scan_digits 16 True s = Some ds" "length ds = length s" "list_all (\<lambda>d. d < 16) ds"
    using Cons by force
  moreover have "c \<noteq> 95" using Cons.prems(1) by (auto simp: is_hex_lower_def)
  ultimately show ?case by simp
qed simp

lemma digits_value_bound: "list_all (\<lambda>d. d < b) ds \<Longrightarrow> digits_value b ds < b ^ length ds"
proof (induction ds rule: rev_induct)
  case (snoc d ds)
  then have "digits_value b ds * b + d < Suc (digits_value b ds) * b" by simp
  also have "\<dots> \<le> b ^ length ds * b" using snoc by (intro mult_le_mono1) (simp add: Suc_le_eq)
  finally show ?case by (simp add: digits_value_def mult.commute)
qed (simp add: digits_value_def)

lemma py_int_hex:
  assumes "list_all is_hex_lower s" and "s \<noteq> []"
  shows "\<exists>n. py_int 16 s = Inr n \<and> 0 \<le> n \<and> n < 16 ^ length s"
proof -
  have h: "is_hex_lower c" if "c \<in> set s" for c using that assms(1) by (simp add: list_all_iff)
  then have "\<not> is_space c" if "c \<in> set s" for c using that by (force simp: is_hex_lower_def is_space_def)
  then have strip: "strip_where is_space s = s" by (rule strip_where_id)
  obtain c cs where s: "s = c # cs" using assms(2) by (cases s) auto
  then have "is_hex_lower c" using h by simp
  then have sign: "split_sign s = (False, s)" by (auto simp: s split_sign_def is_hex_lower_def)
  have "88 \<notin> set s" "120 \<notin> set s" using h [of 88] h [of 120] by (auto simp: is_hex_lower_def)
  then have no: "\<not> starts_with (lit ''0x'') s" "\<not> starts_with (lit ''0X'') s"
    by (auto simp: starts_with_iff lit_def)
  obtain ds where ds: "scan_digits 16 False s = Some ds" "length ds = length s" "list_all (\<lambda>d. d < 16) ds"
    using scan_hex [OF assms(1), of False] assms(2) by auto
  then have "py_int 16 s = Inr (int (digits_value 16 ds))" by (simp add: py_int_def strip sign no)
  moreover have "int (digits_value 16 ds) < int (16 ^ length s)"
    using digits_value_bound [OF ds(3)] ds(2) by (simp only: of_nat_less_iff)
  ultimately show ?thesis by simp
qed

lemma uuid_text_ok:
  assumes "length bs = 16"
  shows "uuid_ok (uuid_text bs)" and "str_ok (uuid_text bs)"
proof -
  obtain h where u: "uuid_text bs = take 8 h @ [45] @ take 4 (drop 8 h) @ [45] @ take 4 (drop 12 h) @ [45] @ take 4 (drop 16 h) @ [45] @ drop 20 h"
    and len: "length h = 32" and hex: "list_all is_hex_lower h"
    using assms by (simp add: uuid_text_def Let_def hex_of_lower)
  have h: "c = 45 \<or> is_hex_lower c" if "c \<in> set (uuid_text bs)" for c
    using that hex by (auto simp: u list_all_iff dest!: in_set_takeD in_set_dropD)
  have absent: "x \<notin> set (uuid_text bs)" if "x \<in> {117, 123, 125}" for x
    using that h [of x] by (auto simp: is_hex_lower_def)
  have prefix: "replace_str (lit ''urn:'') [] (uuid_text bs) = uuid_text bs" "replace_str (lit ''uuid:'') [] (uuid_text bs) = uuid_text bs"
    by (simp_all add: lit_def replace_absent absent)
  have strip: "strip_where (\<lambda>c. c = 123 \<or> c = 125) (uuid_text bs) = uuid_text bs"
    by (rule strip_where_id) (use absent in auto)
  have keep: "concat (map (\<lambda>c. if c = 45 then [] else [c]) s) = s" if "set s \<subseteq> set h" for s
    using that hex by (induction s) (auto simp: list_all_iff is_hex_lower_def)
  have parts: "take 8 h @ take 4 (drop 8 h) @ take 4 (drop 12 h) @ take 4 (drop 16 h) @ drop 20 h = h"
  proof -
    have "take n (drop m h) @ drop (m + n) h = drop m h" for m n by (metis append_take_drop_id drop_drop add.commute)
    from this [of 4 8] this [of 4 12] this [of 4 16] show ?thesis by simp
  qed
  have "replace_str (lit ''-'') [] (uuid_text bs) = h"
    using parts
    by (simp add: lit_def replace_char u keep set_take_subset set_drop_subset subset_trans [OF set_take_subset set_drop_subset])
  moreover obtain n where "py_int 16 h = Inr n" "0 \<le> n" "n < 16 ^ 32"
    using py_int_hex [OF hex] len by fastforce
  ultimately show "uuid_ok (uuid_text bs)" by (simp add: uuid_ok_def prefix strip len)
  have "is_scalar c" if "c \<in> set (uuid_text bs)" for c
    using h [OF that] by (auto simp: is_hex_lower_def is_scalar_def is_surrogate_def)
  then show "str_ok (uuid_text bs)" by (simp add: str_ok_def list_all_iff)
qed

text \<open>Validation of a timestamp sees the text with the offset written out.\<close>

lemma show_pad_ascii: "c \<in> set (show_pad k n) \<Longrightarrow> 48 \<le> c \<and> c < 58"
  using show_nat_ascii [of c n] by (auto simp: show_pad_def)

lemma iso_text_chars: "c \<in> set (iso_text t) \<Longrightarrow> c < 90"
  using show_pad_ascii by (fastforce simp: iso_text_def lit_def)

lemma iso_text_zulu:
  "str_ok (iso_text t @ lit ''Z'')"
  "replace_str (lit ''Z'') (lit ''+00:00'') (iso_text t @ lit ''Z'') = iso_text t @ lit ''+00:00''"
proof -
  have lt: "c < 90" if "c \<in> set (iso_text t)" for c using that by (rule iso_text_chars)
  have "is_scalar c" if "c \<in> set (iso_text t)" for c
    using lt [OF that] by (simp add: is_scalar_def is_surrogate_def)
  then show "str_ok (iso_text t @ lit ''Z'')" by (simp add: str_ok_def list_all_iff [of _ "iso_text t"])
  have "concat (map (\<lambda>c. if c = 90 then new else [c]) s) = s" if "\<forall>c \<in> set s. c < 90" for s new :: pystr
    using that by (induction s) auto
  then have "concat (map (\<lambda>c. if c = 90 then lit ''+00:00'' else [c]) (iso_text t)) = iso_text t" using lt by blast
  moreover have "lit ''Z'' = [90]" by (simp add: lit_def)
  ultimately show "replace_str (lit ''Z'') (lit ''+00:00'') (iso_text t @ lit ''Z'') = iso_text t @ lit ''+00:00''"
    by (simp add: replace_char)
qed

lemma compute_key_scalar:
  assumes "str_ok secret" and "str_ok path" and "list_all is_hex_lower checksum"
  shows "\<exists>m k. utf8_encode (key_message path n checksum) = Inr m \<and> utf8_encode secret = Inr k
    \<and> compute_idempotency_key secret path n checksum = Inr (lit ''sha256:'' @ hex_of (hmac_sha256 k m))"
proof -
  have "is_scalar c" if "c \<in> set (show_int n)" for c
    using that by (auto simp: show_int_def is_scalar_def is_surrogate_def dest!: show_nat_ascii split: if_splits)
  moreover have "is_scalar c" if "is_hex_lower c" for c
    using that by (auto simp: is_hex_lower_def is_scalar_def is_surrogate_def)
  moreover have "is_scalar 124" by (simp add: is_scalar_def is_surrogate_def)
  ultimately have "list_all is_scalar (key_message path n checksum)"
    using assms by (auto simp: key_message_def str_ok_def list_all_iff)
  moreover have "list_all is_scalar secret" using assms(1) by (simp add: str_ok_def)
  ultimately show ?thesis by (simp add: compute_idempotency_key_def utf8_encode_def)
qed

text \<open>The message determines the path, the size and the checksum: nothing after the path has a bar.\<close>

lemma last_bar:
  fixes a b x y :: pystr
  assumes "a @ [124] @ x = b @ [124] @ y" and "124 \<notin> set x" and "124 \<notin> set y"
  shows "a = b \<and> x = y"
proof -
  have rev: "rev x @ 124 # rev a = rev y @ 124 # rev b" using arg_cong [OF assms(1), of rev] by simp
  have tw: "takeWhile (\<lambda>c. c \<noteq> 124) (rev s @ 124 # t) = rev s" if "124 \<notin> set s" for s t :: pystr
    using that by (intro takeWhile_append_stop) auto
  have "rev x = rev y" using arg_cong [OF rev, of "takeWhile (\<lambda>c. c \<noteq> 124)"] tw assms(2,3) by simp
  with assms(1) show ?thesis by simp
qed

lemma show_int_inj: "show_int a = show_int b \<Longrightarrow> 0 \<le> a \<Longrightarrow> 0 \<le> b \<Longrightarrow> a = b"
  by (auto simp: show_int_def dest!: show_nat_inj split: if_splits)

lemma show_int_no_bar: "124 \<notin> set (show_int n)"
  using show_nat_ascii [of 124] by (auto simp: show_int_def)

lemma hex_no_bar: "list_all is_hex_lower s \<Longrightarrow> 124 \<notin> set s"
  by (auto simp: list_all_iff is_hex_lower_def)

lemma key_message_inj:
  assumes "key_message p n s = key_message p' n' s'" and "0 \<le> n" and "0 \<le> n'"
    and "list_all is_hex_lower s" and "list_all is_hex_lower s'"
  shows "p = p' \<and> n = n' \<and> s = s'"
proof -
  have a: "p @ [124] @ show_int n = p' @ [124] @ show_int n' \<and> s = s'"
    using assms(1,4,5) by (intro last_bar) (simp_all add: key_message_def hex_no_bar)
  then have "p = p' \<and> show_int n = show_int n'" by (intro last_bar) (simp_all add: show_int_no_bar)
  then show ?thesis using a assms(2,3) show_int_inj by blast
qed

end
