(* ===== verification/Paths.thy ===== *)
theory Paths
  imports World "HOL-Library.Sublist"
begin

text \<open>
  The functions of \<open>os.path\<close> that the watcher uses, as CPython's \<open>posixpath\<close> has them:
  \<open>basename\<close>, \<open>splitext\<close>, \<open>normpath\<close>, \<open>abspath\<close> (which asks for the working
  directory) and \<open>relpath\<close>. The lemmas show what they do on paths without dots, empty
  parts and doubled slashes: the relative path of a file below a directory is the list of parts
  that lead to it.
\<close>

section \<open>The functions\<close>

definition basename :: "pystr \<Rightarrow> pystr" where
  "basename p = rev (takeWhile (\<lambda>c. c \<noteq> 47) (rev p))"

text \<open>The last dot of the base name splits, unless only dots come before it.\<close>

definition splitext :: "pystr \<Rightarrow> pystr \<times> pystr" where
  "splitext p =
     (let b = basename p; ext = rev (takeWhile (\<lambda>c. c \<noteq> 46) (rev b)); stem = take (length b - length ext - 1) b
      in if List.member b 46 \<and> list_ex (\<lambda>c. c \<noteq> 46) stem
         then (take (length p - length ext - 1) p, 46 # ext) else (p, []))"

definition curdir :: pystr where
  "curdir = [46]"

definition pardir :: pystr where
  "pardir = [46, 46]"

text \<open>Two leading slashes stay, three or more count as one.\<close>

definition initial_slashes :: "pystr \<Rightarrow> nat" where
  "initial_slashes p =
     (if starts_with [47, 47] p \<and> \<not> starts_with [47, 47, 47] p then 2 else if starts_with [47] p then 1 else 0)"

text \<open>The loop of \<open>normpath\<close>; \<open>st\<close> is \<open>new_comps\<close> with its last element first.\<close>

fun norm_comps :: "bool \<Rightarrow> pystr list \<Rightarrow> pystr list \<Rightarrow> pystr list" where
  "norm_comps slash [] st = rev st"
| "norm_comps slash (c # cs) st =
     (if c = [] \<or> c = curdir then norm_comps slash cs st
      else if c \<noteq> pardir \<or> (\<not> slash \<and> st = []) \<or> (st \<noteq> [] \<and> hd st = pardir) then norm_comps slash cs (c # st)
      else norm_comps slash cs (tl st))"

definition normpath :: "pystr \<Rightarrow> pystr" where
  "normpath p =
     (if p = [] then curdir
      else let k = initial_slashes p;
               q = replicate k 47 @ join_str [47] (norm_comps (k \<noteq> 0) (split_on 47 p) [])
           in if q = [] then curdir else q)"

definition path_join :: "pystr \<Rightarrow> pystr \<Rightarrow> pystr" where
  "path_join a b = (if starts_with [47] b then b else if a = [] \<or> ends_with [47] a then a @ b else a @ [47] @ b)"

definition abspath :: "environ \<Rightarrow> pystr \<Rightarrow> (world, pystr) io" where
  "abspath E p =
     (if starts_with [47] p then ret_io (normpath p)
      else bind_io (ask (cwd_reply E) GetCwd) (\<lambda>cwd. ret_io (normpath (path_join cwd p))))"

definition path_parts :: "pystr \<Rightarrow> pystr list" where
  "path_parts p = filter (\<lambda>x. x \<noteq> []) (split_on 47 p)"

definition relative_parts :: "pystr list \<Rightarrow> pystr list \<Rightarrow> pystr" where
  "relative_parts start_list path_list =
     (let i = length (longest_common_prefix start_list path_list);
          rel_list = replicate (length start_list - i) pardir @ drop i path_list
      in if rel_list = [] then curdir else join_str [47] rel_list)"

definition relpath :: "environ \<Rightarrow> pystr \<Rightarrow> pystr \<Rightarrow> (world, pystr) io" where
  "relpath E path start =
     (if path = [] then raise_io (value_error ''no path specified'')
      else bind_io (abspath E start) (\<lambda>s. bind_io (abspath E path) (\<lambda>p.
        ret_io (relative_parts (path_parts s) (path_parts p)))))"

section \<open>Plain paths\<close>

text \<open>A part that \<open>normpath\<close> leaves alone.\<close>

definition plain_part :: "pystr \<Rightarrow> bool" where
  "plain_part c \<longleftrightarrow> c \<noteq> [] \<and> c \<noteq> curdir \<and> c \<noteq> pardir \<and> \<not> List.member c 47"

definition root_path :: "pystr list \<Rightarrow> pystr" where
  "root_path cs = 47 # join_str [47] cs"

lemma plain_partD: "plain_part c \<Longrightarrow> c \<noteq> [] \<and> 47 \<notin> set c"
  by (simp add: plain_part_def)

lemma split_on_no: "sep \<notin> set s \<Longrightarrow> split_on sep s = [s]"
  by (induction s) auto

lemma split_on_append: "sep \<notin> set s \<Longrightarrow> split_on sep (s @ sep # t) = s # split_on sep t"
  by (induction s) auto

lemma split_on_join: "xs \<noteq> [] \<Longrightarrow> \<forall>x \<in> set xs. sep \<notin> set x \<Longrightarrow> split_on sep (join_str [sep] xs) = xs"
  by (induction "[sep]" xs rule: join_str.induct) (simp_all add: split_on_no split_on_append)

lemma split_root: "list_all plain_part cs \<Longrightarrow> split_on 47 (root_path cs) = [] # (if cs = [] then [[]] else cs)"
  using split_on_join [of cs 47] by (auto simp: root_path_def list_all_iff plain_partD)

lemma path_parts_root: "list_all plain_part cs \<Longrightarrow> path_parts (root_path cs) = cs"
  by (auto simp: path_parts_def split_root list_all_iff filter_id_conv dest: plain_partD)

lemma norm_comps_plain: "list_all plain_part cs \<Longrightarrow> norm_comps slash cs st = rev st @ cs"
  by (induction cs arbitrary: st) (simp_all add: plain_part_def)

lemma initial_slashes_root:
  assumes "list_all plain_part cs"
  shows "initial_slashes (root_path cs) = 1"
proof (cases cs)
  case Nil
  then show ?thesis by (simp add: initial_slashes_def root_path_def starts_with_def)
next
  case (Cons c ds)
  then have "c \<noteq> []" "47 \<notin> set c" using assms by (simp_all add: plain_partD)
  then obtain x r where "c = x # r" "x \<noteq> 47" by (cases c) auto
  then show ?thesis using Cons by (cases ds) (auto simp: initial_slashes_def root_path_def starts_with_def)
qed

lemma normpath_root: "list_all plain_part cs \<Longrightarrow> normpath (root_path cs) = root_path cs"
  unfolding normpath_def
  by (simp add: initial_slashes_root split_root norm_comps_plain) (auto simp: root_path_def norm_comps_plain)

lemma abspath_root: "list_all plain_part cs \<Longrightarrow> abspath E (root_path cs) = ret_io (root_path cs)"
  using normpath_root [of cs] by (simp add: abspath_def) (simp add: root_path_def starts_with_def)

lemma common_prefix_append: "longest_common_prefix xs (xs @ ys) = xs"
  by (induction xs) (cases ys; simp)+

text \<open>A file below a directory: its relative path is the way down from there.\<close>

lemma relpath_below:
  assumes "list_all plain_part ds" and "list_all plain_part cs" and "cs \<noteq> []"
  shows "relpath E (root_path (ds @ cs)) (root_path ds) = ret_io (join_str [47] cs)"
proof -
  have "root_path (ds @ cs) \<noteq> []" by (simp add: root_path_def)
  then show ?thesis
    using assms by (simp add: relpath_def abspath_root path_parts_root relative_parts_def common_prefix_append)
qed

lemma join_str_snoc: "join_str sep (xs @ [x]) = (if xs = [] then x else join_str sep xs @ sep @ x)"
  by (induction sep xs rule: join_str.induct) simp_all

lemma basename_root:
  assumes "list_all plain_part cs" and "plain_part n"
  shows "basename (root_path (cs @ [n])) = n"
proof -
  obtain d where "root_path (cs @ [n]) = d @ 47 # n"
  proof
    show "root_path (cs @ [n]) = (if cs = [] then [] else 47 # join_str [47] cs) @ 47 # n"
      by (simp add: root_path_def join_str_snoc)
  qed
  moreover have "takeWhile (\<lambda>c. c \<noteq> 47) (rev n @ 47 # rev d) = rev n"
    using assms(2) by (intro takeWhile_append_stop) (auto dest: plain_partD)
  ultimately show ?thesis by (simp add: basename_def)
qed

text \<open>Different files below one directory have different relative paths.\<close>

lemma join_parts_inj:
  assumes "list_all plain_part cs" "list_all plain_part ds" "join_str [47] cs = join_str [47] ds"
  shows "cs = ds"
  using path_parts_root [OF assms(1)] path_parts_root [OF assms(2)] assms(3) by (simp add: root_path_def)

end
