(* ===== verification/Json_Text.thy ===== *)
theory Json_Text
  imports Schema
begin

text \<open>
  \<open>json.dumps\<close> of the standard library with its default settings (\<open>ensure_ascii\<close>, separators
  comma-space and colon-space), which the log formatter and the readiness page use. The main lemma:
  its text is printable ASCII, whatever the strings are, so it never holds a line break.
\<close>

section \<open>The writer\<close>

definition hex4 :: "nat \<Rightarrow> pystr" where
  "hex4 n = map hex_char [n div 4096 mod 16, n div 256 mod 16, n div 16 mod 16, n mod 16]"

definition u_escape :: "nat \<Rightarrow> pystr" where
  "u_escape n = [92, 117] @ hex4 n"

text \<open>Characters beyond the basic plane become a surrogate pair.\<close>

definition json_char :: "nat \<Rightarrow> pystr" where
  "json_char c =
     (if c = 34 then [92, 34] else if c = 92 then [92, 92]
      else if c = 10 then [92, 110] else if c = 13 then [92, 114] else if c = 9 then [92, 116]
      else if c = 12 then [92, 102] else if c = 8 then [92, 98]
      else if 32 \<le> c \<and> c \<le> 126 then [c]
      else if c < 0x10000 then u_escape c
      else u_escape (0xd800 + (c - 0x10000) div 0x400) @ u_escape (0xdc00 + (c - 0x10000) mod 0x400))"

definition json_string :: "pystr \<Rightarrow> pystr" where
  "json_string s = [34] @ concat (map json_char s) @ [34]"

fun dumps :: "json \<Rightarrow> pystr" where
  "dumps JNull = lit ''null''"
| "dumps (JBool b) = (if b then lit ''true'' else lit ''false'')"
| "dumps (JInt n) = show_int n"
| "dumps (JNum t) = t"
| "dumps (JStr s) = json_string s"
| "dumps (JArr js) = [91] @ join_str (lit '', '') (map dumps js) @ [93]"
| "dumps (JObj kvs) = [123] @ join_str (lit '', '') (map (\<lambda>(k, j). json_string k @ lit '': '' @ dumps j) kvs) @ [125]"

section \<open>One printable line\<close>

definition printable :: "pystr \<Rightarrow> bool" where
  "printable s \<longleftrightarrow> list_all (\<lambda>c. 32 \<le> c \<and> c \<le> 126) s"

text \<open>Numbers are written by \<open>float.__repr__\<close>, which is printable.\<close>

fun printable_numbers :: "json \<Rightarrow> bool" where
  "printable_numbers (JNum t) \<longleftrightarrow> printable t"
| "printable_numbers (JArr js) \<longleftrightarrow> list_all printable_numbers js"
| "printable_numbers (JObj kvs) \<longleftrightarrow> list_all (\<lambda>(k, j). printable_numbers j) kvs"
| "printable_numbers _ \<longleftrightarrow> True"

lemma printable_append [simp]: "printable (a @ b) \<longleftrightarrow> printable a \<and> printable b"
  by (simp add: printable_def)

lemma printable_Cons [simp]: "printable (c # s) \<longleftrightarrow> 32 \<le> c \<and> c \<le> 126 \<and> printable s"
  by (simp add: printable_def)

lemma printable_Nil [simp]: "printable []"
  by (simp add: printable_def)

lemma printable_join: "printable sep \<Longrightarrow> (\<And>x. x \<in> set xs \<Longrightarrow> printable x) \<Longrightarrow> printable (join_str sep xs)"
  by (induction sep xs rule: join_str.induct) auto

lemma printable_hex4: "printable (hex4 n)"
proof -
  have "32 \<le> hex_char d \<and> hex_char d \<le> 126" if "d < 16" for d
    using that by (simp add: hex_char_def)
  then show ?thesis by (simp add: hex4_def)
qed

lemma printable_json_char: "printable (json_char c)"
  by (simp add: json_char_def u_escape_def printable_hex4)

lemma printable_json_string: "printable (json_string s)"
proof -
  have "printable (concat (map json_char s))" by (induction s) (simp_all add: printable_json_char)
  then show ?thesis by (simp add: json_string_def)
qed

lemma printable_show_int: "printable (show_int n)"
  using show_nat_ascii by (force simp: show_int_def printable_def list_all_iff)

lemma printable_dumps: "printable_numbers j \<Longrightarrow> printable (dumps j)"
proof (induction j rule: dumps.induct)
  case (6 js)
  then show ?case by (auto simp: list_all_iff lit_def intro!: printable_join)
next
  case (7 kvs)
  have "printable (dumps j)" if "(k, j) \<in> set kvs" for k j
    using 7 that by (fastforce simp: list_all_iff)
  then show ?case by (auto simp: lit_def printable_json_string intro!: printable_join)
qed (simp_all add: lit_def printable_show_int printable_json_string)

end
