(* ===== verification/Health.thy ===== *)
theory Health
  imports World Json_Text "HOL-Library.AList"
begin

text \<open>
  The health endpoint, \<open>worker/src/health.py\<close>: the readiness flags (a dictionary, updated in
  place) and the four answers of \<open>do_GET\<close>; and \<open>render\<close> of \<open>worker/src/metrics.py\<close>. The text
  format and its content type belong to \<open>prometheus_client\<close> and are parameters.
\<close>

section \<open>ReadinessState\<close>

type_synonym status = "(pystr \<times> bool) list"

definition new_readiness :: "pystr list \<Rightarrow> status" where
  "new_readiness components = fold (\<lambda>n st. AList.update n False st) components []"

definition set_ready :: "pystr \<Rightarrow> bool \<Rightarrow> (world, unit) io" where
  "set_ready c r = modify_io (\<lambda>w. w\<lparr>readiness := AList.update c r (readiness w)\<rparr>)"

definition all_ready :: "status \<Rightarrow> bool" where
  "all_ready st \<longleftrightarrow> list_all snd st"

definition detail :: "status \<Rightarrow> json" where
  "detail st = JObj (map (\<lambda>(n, b). (n, JBool b)) st)"

section \<open>The metrics page\<close>

record prometheus =
  generate_latest :: "registry \<Rightarrow> pystr"
  CONTENT_TYPE_LATEST :: pystr

definition render :: "prometheus \<Rightarrow> world \<Rightarrow> pystr \<times> pystr" where
  "render L w = (generate_latest L (counters w), CONTENT_TYPE_LATEST L)"

section \<open>The request handler\<close>

record response =
  resp_status :: nat
  resp_headers :: "(pystr \<times> pystr) list"
  resp_body :: pystr

text \<open>\<open>_respond\<close>; the bodies of the worker's own answers are ASCII.\<close>

definition respond :: "nat \<Rightarrow> pystr \<Rightarrow> pystr \<Rightarrow> response" where
  "respond status body ctype = \<lparr>resp_status = status,
     resp_headers = [(lit ''Content-Type'', ctype), (lit ''Content-Length'', show_nat (length body))],
     resp_body = body\<rparr>"

definition application_json :: pystr where
  "application_json = lit ''application/json''"

text \<open>A JSON text of one key and one value, as the code's byte literals write them.\<close>

definition json_pair :: "string \<Rightarrow> string \<Rightarrow> pystr" where
  "json_pair k v = [123, 34] @ lit k @ [34, 58, 34] @ lit v @ [34, 125]"

definition not_ready_body :: "status \<Rightarrow> pystr" where
  "not_ready_body st = dumps (JObj [(lit ''status'', JStr (lit ''not_ready'')), (lit ''components'', detail st)])"

definition do_GET :: "prometheus \<Rightarrow> world \<Rightarrow> pystr \<Rightarrow> response" where
  "do_GET L w path =
     (if path = lit ''/health'' then respond 200 (json_pair ''status'' ''ok'') application_json
      else if path = lit ''/ready'' then
        (if all_ready (readiness w) then respond 200 (json_pair ''status'' ''ready'') application_json
         else respond 503 (not_ready_body (readiness w)) application_json)
      else if path = lit ''/metrics'' then (case render L w of (body, ctype) \<Rightarrow> respond 200 body ctype)
      else respond 404 (json_pair ''error'' ''not_found'') application_json)"

section \<open>Readiness over time\<close>

lemma new_readiness_get: "map_of (new_readiness names) n = (if n \<in> set names then Some False else None)"
proof -
  have "map_of (fold (\<lambda>n st. AList.update n False st) names st) n = (if n \<in> set names then Some False else map_of st n)" for st
    by (induction names arbitrary: st) (auto simp: update_conv')
  then show ?thesis by (simp add: new_readiness_def)
qed

lemma distinct_new_readiness: "distinct (map fst (new_readiness names))"
proof -
  have "distinct (map fst st) \<Longrightarrow> distinct (map fst (fold (\<lambda>n st. AList.update n False st) names st))" for st :: status
    by (induction names arbitrary: st) (simp_all add: distinct_update)
  then show ?thesis by (simp add: new_readiness_def)
qed

lemma all_ready_iff: "distinct (map fst st) \<Longrightarrow> all_ready st \<longleftrightarrow> (\<forall>n b. map_of st n = Some b \<longrightarrow> b)"
  by (auto simp: all_ready_def list_all_iff) (metis (full_types))

lemma updates_get:
  "map_of (fold (\<lambda>(n, b) st. AList.update n b st) reports st) n
    = (case map_of (rev reports) n of Some b \<Rightarrow> Some b | None \<Rightarrow> map_of st n)"
  by (induction reports arbitrary: st) (auto simp: update_conv' map_add_def split: option.splits)

lemma distinct_updates:
  "distinct (map fst st) \<Longrightarrow> distinct (map fst (fold (\<lambda>(n, b) st. AList.update n b st) reports (st :: status)))"
  by (induction reports arbitrary: st) (auto simp: distinct_update)

text \<open>Ready means: every component is registered as ready by its last report.\<close>

lemma ready_last_reports:
  "all_ready (fold (\<lambda>(n, b) st. AList.update n b st) reports (new_readiness names))
    \<longleftrightarrow> (\<forall>n \<in> set names \<union> fst ` set reports. map_of (rev reports) n = Some True)"
proof -
  have get: "map_of (fold (\<lambda>(n, b) st. AList.update n b st) reports (new_readiness names)) n
      = (if n \<in> fst ` set reports then map_of (rev reports) n else if n \<in> set names then Some False else None)" for n
    using map_of_eq_None_iff [of "rev reports" n] by (auto simp: updates_get new_readiness_get split: option.splits)
  have some: "n \<in> fst ` set reports \<longleftrightarrow> (\<exists>b. map_of (rev reports) n = Some b)" for n
    using map_of_eq_None_iff [of "rev reports" n] by auto
  show ?thesis
    unfolding all_ready_iff [OF distinct_updates [OF distinct_new_readiness]] get
  proof (intro iffI allI ballI impI)
    fix n assume "\<forall>n b. (if n \<in> fst ` set reports then map_of (rev reports) n else if n \<in> set names then Some False else None) = Some b \<longrightarrow> b"
      and "n \<in> set names \<union> fst ` set reports"
    then show "map_of (rev reports) n = Some True" using some [of n] by (auto split: if_splits)
  next
    fix n b assume "\<forall>n \<in> set names \<union> fst ` set reports. map_of (rev reports) n = Some True"
      and "(if n \<in> fst ` set reports then map_of (rev reports) n else if n \<in> set names then Some False else None) = Some b"
    then show b using some [of n] by (auto split: if_splits)
  qed
qed

end
