(* ===== verification/Watcher.thy ===== *)
theory Watcher
  imports Utils Paths Publisher Health
begin

text \<open>
  The watcher, \<open>worker/src/watcher.py\<close>: the queue that the file-system callbacks fill, the
  event built for a finished file, publishing with one reconnect, and the loop with its
  \<open>finally\<close> block. The loop rebinds the local variables \<open>connection\<close> and
  \<open>publisher\<close>; the \<open>finally\<close> block closes the connection they hold at that moment, so
  \<open>watch_loop\<close> returns it together with the exception that ended the loop, if any.
\<close>

section \<open>Building the event\<close>

text \<open>\<open>_CONTENT_TYPES\<close>\<close>

definition content_types :: "(pystr \<times> pystr) list" where
  "content_types = [(lit ''.csv'', lit ''text/csv''), (lit ''.json'', lit ''application/json''),
     (lit ''.txt'', lit ''text/plain'')]"

text \<open>
  \<open>ext.lower()\<close> as far as it can give a key of the table: the lower case of a character
  beyond ASCII is none of its letters.
\<close>

definition guess_content_type :: "pystr \<Rightarrow> pystr" where
  "guess_content_type filename =
     (case map_of content_types (lower_ascii (snd (splitext filename))) of
        Some t \<Rightarrow> t | None \<Rightarrow> lit ''application/octet-stream'')"

definition event_for ::
  "settings \<Rightarrow> pystr \<Rightarrow> nat \<Rightarrow> pystr \<Rightarrow> pystr \<Rightarrow> pystr \<Rightarrow> pystr \<Rightarrow> pystr \<Rightarrow> pystr \<Rightarrow> transfer_event" where
  "event_for S path size_bytes checksum relative_key key event_id correlation_id now = \<lparr>
     schemaVersion = lit ''1.0'',
     eventType = lit ''file.transfer.requested'',
     eventId = event_id,
     correlationId = correlation_id,
     idempotencyKey = key,
     occurredAt = now,
     ev_source = \<lparr>src_provider = lit ''sftp'', src_path = path\<rparr>,
     ev_file = \<lparr>file_name = basename path, sizeBytes = int size_bytes, checksumSha256 = checksum,
       contentType = Some (guess_content_type path)\<rparr>,
     destinations = [
       \<lparr>dst_provider = lit ''aws-s3'', dst_bucket = s3_bucket S, dst_key = relative_key, dst_region = Some (s3_region S)\<rparr>,
       \<lparr>dst_provider = lit ''gcp-gcs'', dst_bucket = gcs_bucket S, dst_key = relative_key, dst_region = None\<rparr>],
     ev_retry = None\<rparr>"

definition build_event :: "environ \<Rightarrow> settings \<Rightarrow> pystr \<Rightarrow> (world, transfer_event) io" where
  "build_event E S path =
     bind_io (ask (\<lambda>h. getsize_reply E h path) (GetSize path)) (\<lambda>size_bytes.
     bind_io (sha256_file E path) (\<lambda>checksum.
     bind_io (relpath E path (watch_dir S)) (\<lambda>relative_key.
     bind_io (lift_sum (compute_idempotency_key (correlation_secret S) path (int size_bytes) checksum)) (\<lambda>key.
     bind_io (new_uuid E) (\<lambda>event_id.
     bind_io (new_uuid E) (\<lambda>correlation_id.
     bind_io (utcnow_iso E) (\<lambda>now.
     lift_sum (mk_transfer_event E
       (event_for S path size_bytes checksum relative_key key event_id correlation_id now)))))))))"

section \<open>The file-system callbacks\<close>

datatype fs_event = Closed bool pystr | Moved bool pystr pystr

text \<open>The first argument of each is \<open>event.is_directory\<close>.\<close>

fun on_event :: "pystr list \<Rightarrow> fs_event \<Rightarrow> pystr list" where
  "on_event q (Closed is_directory src) = (if is_directory then q else q @ [src])"
| "on_event q (Moved is_directory src dest) = (if is_directory then q else q @ [dest])"

section \<open>Publishing with one reconnect\<close>

definition close_connection :: "environ \<Rightarrow> nat \<Rightarrow> (world, unit) io" where
  "close_connection E c = call (\<lambda>h. close_reply E h c) (CloseConnection c) (CloseConnectionFailed c)"

text \<open>\<open>with contextlib.suppress(Exception): connection.close()\<close>\<close>

definition close_quietly :: "environ \<Rightarrow> nat \<Rightarrow> (world, unit) io" where
  "close_quietly E c = try_except (close_connection E c) Exception (\<lambda>_. ret_io ())"

definition reconnect :: "environ \<Rightarrow> nat \<Rightarrow> settings \<Rightarrow> (world, nat \<times> publisher) io" where
  "reconnect E conn S = bind_io (close_quietly E conn) (\<lambda>_.
     bind_io (connect_and_setup E S) (\<lambda>(conn', ch, pb'). ret_io (conn', pb')))"

definition publish_counted :: "environ \<Rightarrow> publisher \<Rightarrow> transfer_event \<Rightarrow> (world, unit) io" where
  "publish_counted E pb e = seq_io [publish_event E pb e, inc_published]"

definition publish_with_reconnect ::
  "environ \<Rightarrow> nat \<Rightarrow> publisher \<Rightarrow> transfer_event \<Rightarrow> settings \<Rightarrow> (world, nat \<times> publisher) io" where
  "publish_with_reconnect E conn pb e S =
     try_except (bind_io (publish_counted E pb e) (\<lambda>_. ret_io (conn, pb))) AMQPError (\<lambda>_.
       bind_io (reconnect E conn S) (\<lambda>(conn', pb').
       bind_io (try_except (publish_counted E pb' e) Exception (\<lambda>_. ret_io ())) (\<lambda>_.
       ret_io (conn', pb'))))"

definition service_idle_connection ::
  "environ \<Rightarrow> nat \<Rightarrow> publisher \<Rightarrow> settings \<Rightarrow> (world, nat \<times> publisher) io" where
  "service_idle_connection E conn pb S =
     try_except (bind_io (call (\<lambda>h. process_reply E h conn) (ProcessData conn) (ProcessDataFailed conn)) (\<lambda>_. ret_io (conn, pb)))
       AMQPError (\<lambda>_. reconnect E conn S)"

section \<open>The loop\<close>

text \<open>What \<open>file_queue.get(timeout=...)\<close> gives: a path, or \<open>queue.Empty\<close>.\<close>

datatype watch_item = QueueTimeout | Detected pystr

definition watch_step :: "environ \<Rightarrow> settings \<Rightarrow> nat \<Rightarrow> publisher \<Rightarrow> watch_item \<Rightarrow> (world, nat \<times> publisher) io" where
  "watch_step E S conn pb item = (case item of
      QueueTimeout \<Rightarrow> service_idle_connection E conn pb S
    | Detected path \<Rightarrow>
        bind_io (ask (\<lambda>h. Inr (isfile_reply E h path)) (IsFile path)) (\<lambda>exists.
        if \<not> exists then ret_io (conn, pb)
        else bind_io (try_except (bind_io (build_event E S path) (\<lambda>e. ret_io (Some e))) Exception (\<lambda>_. ret_io None)) (\<lambda>built.
        case built of None \<Rightarrow> ret_io (conn, pb)
        | Some e \<Rightarrow> publish_with_reconnect E conn pb e S)))"

text \<open>The exception of a computation as a value.\<close>

definition attempt_io :: "('s, 'a) io \<Rightarrow> ('s, exn + 'a) io" where
  "attempt_io m s = (case m s of
      (Return x, s') \<Rightarrow> (Return (Inr x), s')
    | (Raise e, s') \<Rightarrow> (Return (Inl e), s')
    | (Hang, s') \<Rightarrow> (Hang, s'))"

text \<open>The stop event is set after the last item.\<close>

fun watch_loop :: "environ \<Rightarrow> settings \<Rightarrow> watch_item list \<Rightarrow> nat \<Rightarrow> publisher \<Rightarrow> (world, exn option \<times> nat) io" where
  "watch_loop E S [] conn pb = ret_io (None, conn)"
| "watch_loop E S (item # items) conn pb =
     bind_io (attempt_io (watch_step E S conn pb item)) (\<lambda>r. case r of
        Inl x \<Rightarrow> ret_io (Some x, conn)
      | Inr (conn', pb') \<Rightarrow> watch_loop E S items conn' pb')"

definition watcher_finally :: "environ \<Rightarrow> nat \<Rightarrow> (world, unit) io" where
  "watcher_finally E conn = seq_io [
     set_ready (lit ''watcher'') False,
     modify_io (add_action ObserverStop),
     modify_io (add_action ObserverJoin),
     close_quietly E conn]"

definition observer_start :: "environ \<Rightarrow> settings \<Rightarrow> (world, unit) io" where
  "observer_start E S = call (\<lambda>h. observer_reply E h (watch_dir S)) (ObserverStart (watch_dir S)) (ObserverStartFailed (watch_dir S))"

definition run_watcher :: "environ \<Rightarrow> settings \<Rightarrow> watch_item list \<Rightarrow> (world, unit) io" where
  "run_watcher E S items =
     bind_io (connect_and_setup E S) (\<lambda>(conn, ch, pb).
     bind_io (set_ready (lit ''watcher'') True) (\<lambda>_.
     bind_io (observer_start E S) (\<lambda>_.
     bind_io (watch_loop E S items conn pb) (\<lambda>(pending, conn').
     bind_io (watcher_finally E conn') (\<lambda>_.
     case pending of None \<Rightarrow> ret_io () | Some x \<Rightarrow> raise_io x)))))"

end
