(* ===== verification/Watcher_Lemmas.thy ===== *)
theory Watcher_Lemmas
  imports Watcher Consumer_Progress
begin

text \<open>
  Runs of the watcher. \<open>build_event_runs\<close> follows the construction of an event for a file below
  the watched directory, \<open>loop_publishes\<close> the loop while the broker answers; for every outside
  world, \<open>run_watcher_books\<close> ties the metric to the messages and \<open>run_watcher_cleanup\<close>
  gives the state the \<open>finally\<close> block leaves behind.
\<close>

section \<open>The event of a file\<close>

text \<open>What the operating system and the standard library promise: 16 random bytes, readable timestamps.\<close>

definition sound_host :: "environ \<Rightarrow> bool" where
  "sound_host E \<longleftrightarrow> (\<forall>h. length (urandom_reply E h) = 16)
     \<and> (\<forall>h. fromisoformat_ok E (iso_text (clock_reply E h) @ lit ''+00:00''))"

text \<open>The file has this size and content, however it is divided into reads.\<close>

definition file_facts :: "environ \<Rightarrow> pystr \<Rightarrow> nat \<Rightarrow> bytes \<Rightarrow> bool" where
  "file_facts E path n content \<longleftrightarrow> (\<forall>h. getsize_reply E h path = Inr n)
     \<and> (\<forall>h. \<exists>reads. chunks_reply E h path = Inr reads \<and> concat (takeWhile (\<lambda>c. c \<noteq> []) reads) = content)"

definition settings_ok :: "settings \<Rightarrow> bool" where
  "settings_ok S \<longleftrightarrow> str_ok (correlation_secret S) \<and> str_ok (s3_bucket S) \<and> str_ok (gcs_bucket S) \<and> str_ok (s3_region S)"

text \<open>The file lies below the watched directory, \<open>cs\<close> being the way down.\<close>

definition located :: "settings \<Rightarrow> pystr \<Rightarrow> pystr list \<Rightarrow> bool" where
  "located S path cs \<longleftrightarrow> (\<exists>ds. watch_dir S = root_path ds \<and> path = root_path (ds @ cs)
     \<and> list_all plain_part (ds @ cs) \<and> list_all str_ok (ds @ cs) \<and> cs \<noteq> [])"

definition describes :: "settings \<Rightarrow> pystr \<Rightarrow> nat \<Rightarrow> bytes \<Rightarrow> pystr \<Rightarrow> transfer_event \<Rightarrow> bool" where
  "describes S path n content rel e \<longleftrightarrow> (\<exists>key event_id correlation_id now.
     e = event_for S path n (hex_of (sha256 content)) rel key event_id correlation_id now
   \<and> compute_idempotency_key (correlation_secret S) path (int n) (hex_of (sha256 content)) = Inr key)"

text \<open>Actions that neither publish nor acknowledge.\<close>

definition quiet_hosts :: "action list \<Rightarrow> bool" where
  "quiet_hosts h \<longleftrightarrow> (\<forall>a \<in> set h. case a of Published _ _ \<Rightarrow> False | Acked _ _ \<Rightarrow> False | _ \<Rightarrow> True)"

lemma quiet_hosts_simps [simp]: "quiet_hosts []" "quiet_hosts (g @ h) \<longleftrightarrow> quiet_hosts g \<and> quiet_hosts h"
    "quiet_hosts (a # h) \<longleftrightarrow> (case a of Published _ _ \<Rightarrow> False | Acked _ _ \<Rightarrow> False | _ \<Rightarrow> True) \<and> quiet_hosts h"
  by (auto simp: quiet_hosts_def)

lemma quiet_publications: "quiet_hosts h \<Longrightarrow> publications ch h = []"
  by (induction h) (auto split: action.splits)

definition extend :: "action list \<Rightarrow> world \<Rightarrow> world" where
  "extend h w = w\<lparr>history := history w @ h\<rparr>"

lemma extend_simps [simp]: "history (extend h w) = history w @ h" "table (extend h w) = table w"
    "counters (extend h w) = counters w" "readiness (extend h w) = readiness w" "extend [] w = w"
    "extend g (extend h w) = extend (h @ g) w"
  by (simp_all add: extend_def)

lemma add_extend: "add_action a w = extend [a] w"
  by (simp add: add_action_def extend_def)

lemma ask_runs: "reply (history w) = Inr x \<Longrightarrow> ask reply a w = (Return x, extend [a] w)"
  by (simp add: ask_def add_extend)

lemma call_runs: "reply (history w) = None \<Longrightarrow> call reply ok bad w = (Return (), extend [ok] w)"
  by (simp add: call_def add_extend)

lemma bind_runs: "m w = (Return x, w1) \<Longrightarrow> bind_io m f w = f x w1"
  by (simp add: bind_io_def)

lemma sha256_file_runs:
  assumes "file_facts E path n content"
  shows "sha256_file E path w = (Return (hex_of (sha256 content)), extend [ReadChunks path] w)"
proof -
  obtain reads where r: "chunks_reply E (history w) path = Inr reads" "concat (takeWhile (\<lambda>c. c \<noteq> []) reads) = content"
    using assms by (auto simp: file_facts_def)
  have "ask (\<lambda>h. chunks_reply E h path) (ReadChunks path) w = (Return reads, extend [ReadChunks path] w)"
    by (rule ask_runs) (rule r(1))
  then show ?thesis by (simp add: sha256_file_def bind_runs ret_io_def hexdigest_def sha_stream r(2))
qed

lemma located_relpath:
  assumes "located S path cs"
  shows "relpath E path (watch_dir S) = ret_io (join_str [47] cs)" "str_ok path" "str_ok (join_str [47] cs)"
    "str_ok (basename path)"
proof -
  obtain ds where d: "watch_dir S = root_path ds" "path = root_path (ds @ cs)" "list_all plain_part (ds @ cs)"
    "list_all str_ok (ds @ cs)" "cs \<noteq> []"
    using assms by (auto simp: located_def)
  then show "relpath E path (watch_dir S) = ret_io (join_str [47] cs)" by (simp add: relpath_below)
  have slash: "str_ok [47]" "is_scalar 47" by (simp_all add: str_ok_def is_scalar_def is_surrogate_def)
  then show "str_ok (join_str [47] cs)" using d(4) by (intro str_ok_join) (simp_all add: list_all_iff)
  have "str_ok (join_str [47] (ds @ cs))" using d(4) slash by (intro str_ok_join) (auto simp: list_all_iff)
  then show ok: "str_ok path" using slash by (simp add: d(2) root_path_def str_ok_def)
  show "str_ok (basename path)"
    using ok by (auto simp: str_ok_def basename_def list_all_iff dest: set_takeWhileD)
qed

lemma located_unique:
  assumes "located S path cs" and "located S path cs'"
  shows "cs = cs'"
proof -
  obtain ds ds' where a: "watch_dir S = root_path ds" "path = root_path (ds @ cs)" "list_all plain_part (ds @ cs)"
    "watch_dir S = root_path ds'" "path = root_path (ds' @ cs')" "list_all plain_part (ds' @ cs')"
    using assms unfolding located_def by blast
  have parts: "xs = ys" if "root_path xs = root_path ys" "list_all plain_part xs" "list_all plain_part ys" for xs ys
    by (rule trans [OF trans [OF path_parts_root [OF that(2), symmetric] arg_cong [OF that(1), of path_parts]] path_parts_root [OF that(3)]])
  have "list_all plain_part ds" "list_all plain_part ds'" using a(3,6) by simp_all
  then have "ds = ds'" by (rule parts [OF trans [OF a(1) [symmetric] a(4)]])
  moreover have "ds @ cs = ds' @ cs'" by (rule parts [OF trans [OF a(2) [symmetric] a(5)] a(3,6)])
  ultimately show ?thesis by simp
qed

lemma content_type_ok: "str_ok (guess_content_type path)"
proof -
  have "str_ok t" if "map_of content_types k = Some t" for k t
    using map_of_SomeD [OF that] by (auto simp: content_types_def)
  then show ?thesis by (auto simp: guess_content_type_def split: option.split)
qed

lemma version_1_0: "version_groups (lit ''1.0'') = Some ([49], [48])"
  by (auto simp: version_groups_iff lit_def is_digit_def digit_val_def nd_zeros_def at_end_def)

lemma event_for_supported: "assert_supported (event_for S path n checksum rel key i c now) = Inr ()"
proof -
  have "py_int 10 [49] = Inr 1" using py_int_show_int [of 1] by (simp add: show_int_def show_nat.simps)
  then show ?thesis
    using version_1_0 by (simp add: assert_supported_def schema_major_def event_for_def SUPPORTED_SCHEMA_MAJOR_def)
qed

lemma event_for_valid:
  assumes S: "settings_ok S" and path: "str_ok path" "str_ok (basename path)" and rel: "str_ok rel"
    and key: "compute_idempotency_key secret path m checksum = Inr key"
    and ids: "uuid_ok i" "str_ok i" "uuid_ok c" "str_ok c"
    and now: "occurred_at_ok E now" "str_ok now" and sum: "list_all is_hex_lower checksum" "length checksum = 64"
  shows "valid_event E (event_for S path n checksum rel key i c now)"
proof -
  have "str_ok checksum"
    using sum(1) by (auto simp: str_ok_def list_all_iff is_hex_lower_def is_scalar_def is_surrogate_def)
  moreover have "sha256_re checksum" using sum by (simp add: sha256_re_def at_end_def)
  ultimately show ?thesis
    using assms idempotency_key_shape [OF key] version_1_0 content_type_ok
    by (simp add: valid_event_def event_for_def valid_source_def valid_file_def valid_destination_def opt_str_ok_def
      settings_ok_def)
qed

lemma build_event_runs:
  assumes host: "sound_host E" and facts: "file_facts E path n content" and S: "settings_ok S"
    and loc: "located S path cs"
  shows "\<exists>e h. build_event E S path w = (Return e, extend h w) \<and> quiet_hosts h
    \<and> describes S path n content (join_str [47] cs) e \<and> valid_event E e \<and> assert_supported e = Inr ()"
proof -
  let ?sum = "hex_of (sha256 content)" and ?rel = "join_str [47] cs"
  have hex: "list_all is_hex_lower ?sum" "length ?sum = 64" by (simp_all add: hex_of_lower)
  have secret: "str_ok (correlation_secret S)" using S by (simp add: settings_ok_def)
  obtain key where key: "compute_idempotency_key (correlation_secret S) path (int n) ?sum = Inr key"
    using compute_key_scalar [OF secret located_relpath(2) [OF loc] hex(1)] by blast
  have size: "ask (\<lambda>h. getsize_reply E h path) (GetSize path) w = (Return n, extend [GetSize path] w)" for w
    using facts by (intro ask_runs) (simp add: file_facts_def)
  have uuid: "new_uuid E w = (Return (uuid_text (urandom_reply E (history w))), extend [Urandom] w)" for w
    by (simp add: new_uuid_def bind_runs [OF ask_runs] ret_io_def)
  have clock: "utcnow_iso E w = (Return (iso_text (clock_reply E (history w)) @ lit ''Z''), extend [ReadClock] w)" for w
    by (simp add: utcnow_iso_def bind_runs [OF ask_runs] ret_io_def)
  define e where "e = event_for S path n ?sum ?rel key (uuid_text (urandom_reply E (history w @ [GetSize path, ReadChunks path])))
     (uuid_text (urandom_reply E (history w @ [GetSize path, ReadChunks path, Urandom])))
     (iso_text (clock_reply E (history w @ [GetSize path, ReadChunks path, Urandom, Urandom])) @ lit ''Z'')"
  have "occurred_at_ok E (iso_text (clock_reply E h) @ lit ''Z'')" for h
    using host by (simp add: occurred_at_ok_def iso_text_zulu sound_host_def)
  then have v: "valid_event E e"
    unfolding e_def using host S key hex iso_text_zulu
    by (intro event_for_valid located_relpath [OF loc]) (auto simp: sound_host_def uuid_text_ok)
  have "build_event E S path w = (Return e, extend [GetSize path, ReadChunks path, Urandom, Urandom, ReadClock] w)"
    using v
    by (simp add: build_event_def bind_runs [OF size] bind_runs [OF sha256_file_runs [OF facts]] located_relpath(1) [OF loc]
      key lift_sum_def bind_runs [OF uuid] bind_runs [OF clock] mk_transfer_event_def e_def ret_io_def)
  moreover have "describes S path n content ?rel e" using key unfolding describes_def e_def by blast
  ultimately show ?thesis using v event_for_supported unfolding e_def by fastforce
qed

section \<open>Runs while the broker answers\<close>

definition calm_broker :: "environ \<Rightarrow> bool" where
  "calm_broker E \<longleftrightarrow> (\<forall>h. connect_reply E h = None) \<and> (\<forall>h. channel_reply E h = None)
     \<and> (\<forall>h ch q. declare_reply E h ch q = None) \<and> (\<forall>h ch. confirm_reply E h ch = None)
     \<and> (\<forall>h ch p. publish_reply E h ch p = None) \<and> (\<forall>h c. process_reply E h c = None)
     \<and> (\<forall>h c. close_reply E h c = None) \<and> (\<forall>h d. observer_reply E h d = None)"

definition watcher_publisher :: "nat \<Rightarrow> settings \<Rightarrow> publisher" where
  "watcher_publisher ch S = \<lparr>pub_channel = ch, pub_settings = S\<rparr>"

definition event_message :: "environ \<Rightarrow> settings \<Rightarrow> transfer_event \<Rightarrow> publication" where
  "event_message E S e = event_publication E (queue_name S) e None None"

definition counted_published :: "nat \<Rightarrow> world \<Rightarrow> world" where
  "counted_published n w = w\<lparr>counters := (counters w)\<lparr>EVENTS_PUBLISHED_TOTAL := EVENTS_PUBLISHED_TOTAL (counters w) + n\<rparr>\<rparr>"

text \<open>A watched regular file, and the event that belongs to it.\<close>

definition watchable :: "environ \<Rightarrow> settings \<Rightarrow> pystr \<Rightarrow> bool" where
  "watchable E S path \<longleftrightarrow> (\<exists>cs n content. located S path cs \<and> file_facts E path n content)
     \<and> (\<forall>h. isfile_reply E h path)"

definition event_of_file :: "environ \<Rightarrow> settings \<Rightarrow> pystr \<Rightarrow> transfer_event \<Rightarrow> bool" where
  "event_of_file E S path e \<longleftrightarrow> valid_event E e \<and> assert_supported e = Inr ()
     \<and> (\<exists>cs n content. located S path cs \<and> file_facts E path n content \<and> describes S path n content (join_str [47] cs) e)"

fun detected :: "watch_item list \<Rightarrow> pystr list" where
  "detected [] = []"
| "detected (QueueTimeout # items) = detected items"
| "detected (Detected path # items) = path # detected items"

lemma published_extend: "counted_published n (extend h w) = extend h (counted_published n w)"
  by (simp add: counted_published_def extend_def)

lemma published_simps [simp]: "counted_published n (counted_published m w) = counted_published (m + n) w"
    "counted_published 0 w = w" "history (counted_published n w) = history w" "readiness (counted_published n w) = readiness w"
  by (simp_all add: counted_published_def add.assoc)

definition setup_actions :: "nat \<Rightarrow> settings \<Rightarrow> action list" where
  "setup_actions ch S = [Connect (connection_params S), OpenChannel, Declare ch (main_queue S), Declare ch (retry_queue S),
     Declare ch (dead_letter_queue S), ConfirmDelivery ch]"

lemma setup_quiet: "quiet_hosts (setup_actions ch S)"
  by (simp add: setup_actions_def)

lemma setup_runs:
  assumes "calm_broker E"
  shows "connect_and_setup E S w = (Return (length (history w), length (history w), watcher_publisher (length (history w)) S),
    extend (setup_actions (length (history w)) S) w)"
  using assms
  by (simp add: setup_actions_def calm_broker_def connect_and_setup_def connect_def open_channel_def declare_topology_def queue_declare_def
      mk_publisher_def call_def bind_io_def get_io_def ret_io_def add_extend watcher_publisher_def)

lemma publish_runs:
  assumes "calm_broker E"
  shows "publish_with_reconnect E conn (watcher_publisher ch S) e S w =
    (Return (conn, watcher_publisher ch S), counted_published 1 (extend [Published ch (event_message E S e)] w))"
  using assms
  by (simp add: calm_broker_def publish_with_reconnect_def publish_counted_def publish_event_def publish_def
      basic_publish_def call_def bind_io_def try_except_def inc_published_def modify_io_def ret_io_def add_extend
      watcher_publisher_def event_message_def counted_published_def)

lemma step_publishes:
  assumes c: "calm_broker E" and host: "sound_host E" and S: "settings_ok S" and p: "watchable E S path"
  shows "\<exists>e h. watch_step E S conn (watcher_publisher ch S) (Detected path) w =
      (Return (conn, watcher_publisher ch S), counted_published 1 (extend (h @ [Published ch (event_message E S e)]) w))
    \<and> quiet_hosts h \<and> event_of_file E S path e"
proof -
  obtain cs n content where f: "located S path cs" "file_facts E path n content" and there: "\<And>h. isfile_reply E h path"
    using p by (auto simp: watchable_def)
  let ?w1 = "extend [IsFile path] w"
  obtain e h where e: "build_event E S path ?w1 = (Return e, extend h ?w1)" "quiet_hosts h"
    "describes S path n content (join_str [47] cs) e" "valid_event E e" "assert_supported e = Inr ()"
    using build_event_runs [OF host f(2) S f(1)] by blast
  have "ask (\<lambda>h. Inr (isfile_reply E h path)) (IsFile path) w = (Return True, ?w1)"
    by (rule ask_runs) (simp add: there)
  then have "watch_step E S conn (watcher_publisher ch S) (Detected path) w =
      (Return (conn, watcher_publisher ch S), counted_published 1 (extend ((IsFile path # h) @ [Published ch (event_message E S e)]) w))"
    using e(1)
    by (simp add: watch_step_def bind_runs try_except_def [of "bind_io (build_event _ _ _) _"] ret_io_def publish_runs [OF c])
  moreover have "event_of_file E S path e" using e f by (auto simp: event_of_file_def)
  ultimately show ?thesis using e(2) by (intro exI [of _ e] exI [of _ "IsFile path # h"]) simp
qed

lemma loop_publishes:
  assumes c: "calm_broker E" and host: "sound_host E" and S: "settings_ok S"
    and p: "\<forall>path \<in> set (detected items). watchable E S path"
  shows "\<exists>es h. watch_loop E S items conn (watcher_publisher ch S) w =
      (Return (None, conn), counted_published (length es) (extend h w))
    \<and> list_all2 (event_of_file E S) (detected items) es \<and> publications ch h = map (event_message E S) es"
  using p
proof (induction items arbitrary: w)
  case Nil
  show ?case by (intro exI [of _ "[]"]) (simp add: ret_io_def)
next
  case (Cons item items)
  show ?case
  proof (cases item)
    case QueueTimeout
    have "watch_step E S conn (watcher_publisher ch S) item w = (Return (conn, watcher_publisher ch S), extend [ProcessData conn] w)"
      using c by (simp add: QueueTimeout watch_step_def service_idle_connection_def calm_broker_def call_def bind_io_def
        try_except_def ret_io_def add_extend)
    moreover obtain es h where "watch_loop E S items conn (watcher_publisher ch S) (extend [ProcessData conn] w) =
        (Return (None, conn), counted_published (length es) (extend h (extend [ProcessData conn] w)))"
      "list_all2 (event_of_file E S) (detected items) es" "publications ch h = map (event_message E S) es"
      using Cons.IH [of "extend [ProcessData conn] w"] Cons.prems QueueTimeout by auto
    ultimately show ?thesis
      by (intro exI [of _ es] exI [of _ "ProcessData conn # h"]) (simp add: QueueTimeout attempt_io_def bind_io_def)
  next
    case (Detected path)
    then have pw: "watchable E S path" using Cons.prems by simp
    obtain e g where s: "watch_step E S conn (watcher_publisher ch S) item w =
        (Return (conn, watcher_publisher ch S), counted_published 1 (extend (g @ [Published ch (event_message E S e)]) w))"
      "quiet_hosts g" "event_of_file E S path e"
      using step_publishes [OF c host S pw] unfolding Detected by blast
    obtain es h where l: "watch_loop E S items conn (watcher_publisher ch S)
          (counted_published 1 (extend (g @ [Published ch (event_message E S e)]) w)) =
        (Return (None, conn), counted_published (length es) (extend h
          (counted_published 1 (extend (g @ [Published ch (event_message E S e)]) w))))"
      "list_all2 (event_of_file E S) (detected items) es" "publications ch h = map (event_message E S) es"
      using Cons.IH Cons.prems Detected by fastforce
    have "watch_loop E S (item # items) conn (watcher_publisher ch S) w =
        (Return (None, conn), counted_published (length (e # es)) (extend (g @ [Published ch (event_message E S e)] @ h) w))"
      using s(1) l(1) by (simp add: attempt_io_def bind_io_def published_extend [symmetric])
    moreover have "publications ch (g @ [Published ch (event_message E S e)] @ h) = map (event_message E S) (e # es)"
      using s(2) l(3) by (simp add: quiet_publications)
    ultimately show ?thesis using s(3) l(2) Detected by (intro exI [of _ "e # es"]) auto
  qed
qed

lemma published_table [simp]: "table (counted_published n w) = table w"
  by (simp add: counted_published_def)

lemma run_publishes:
  assumes c: "calm_broker E" and host: "sound_host E" and S: "settings_ok S"
    and p: "\<forall>path \<in> set (detected items). watchable E S path"
  shows "\<exists>es w'. run_watcher E S items w = (Return (), w')
    \<and> list_all2 (event_of_file E S) (detected items) es
    \<and> publications (length (history w)) (new_actions w w') = map (event_message E S) es
    \<and> EVENTS_PUBLISHED_TOTAL (counters w') = EVENTS_PUBLISHED_TOTAL (counters w) + length es
    \<and> map_of (readiness w') (lit ''watcher'') = Some False"
proof -
  let ?n = "length (history w)"
  define w2 where "w2 = add_action (ObserverStart (watch_dir S))
    ((extend (setup_actions ?n S) w)\<lparr>readiness := AList.update (lit ''watcher'') True (readiness w)\<rparr>)"
  obtain es h where l: "watch_loop E S items ?n (watcher_publisher ?n S) w2 = (Return (None, ?n), counted_published (length es) (extend h w2))"
    "list_all2 (event_of_file E S) (detected items) es" "publications ?n h = map (event_message E S) es"
    using loop_publishes [OF c host S p] by blast
  define w' where "w' = snd (watcher_finally E ?n (counted_published (length es) (extend h w2)))"
  have fin: "watcher_finally E ?n (counted_published (length es) (extend h w2)) = (Return (), w')"
    "history w' = history w2 @ h @ [ObserverStop, ObserverJoin, CloseConnection ?n]"
    "EVENTS_PUBLISHED_TOTAL (counters w') = EVENTS_PUBLISHED_TOTAL (counters w) + length es"
    "map_of (readiness w') (lit ''watcher'') = Some False"
    using c
    by (simp_all add: w'_def watcher_finally_def calm_broker_def close_quietly_def close_connection_def call_def try_except_def
      bind_io_def set_ready_def modify_io_def ret_io_def update_conv' counted_published_def w2_def)
  have "run_watcher E S items w = (Return (), w')"
    using c l(1) fin(1)
    by (simp add: run_watcher_def bind_runs [where m = "connect_and_setup E S" and w = w, OF setup_runs [OF c]]
      bind_runs set_ready_def modify_io_def observer_start_def calm_broker_def call_def w2_def)
      (simp add: bind_io_def ret_io_def)
  moreover have "publications ?n (new_actions w w') = map (event_message E S) es"
    using l(3) setup_quiet [of ?n S] by (simp add: new_actions_def fin(2) w2_def quiet_publications)
  ultimately show ?thesis using l(2) fin(3,4) by blast
qed

section \<open>Books, in every outside world\<close>

fun is_published :: "action \<Rightarrow> bool" where
  "is_published (Published ch p) \<longleftrightarrow> True"
| "is_published _ \<longleftrightarrow> False"

definition messages :: "action list \<Rightarrow> nat" where
  "messages h = length (filter is_published h)"

text \<open>As many confirmed messages as the counter says.\<close>

definition published_balance :: "world \<Rightarrow> world \<Rightarrow> bool" where
  "published_balance w w' \<longleftrightarrow> messages (history w') + EVENTS_PUBLISHED_TOTAL (counters w)
     = messages (history w) + EVENTS_PUBLISHED_TOTAL (counters w')"

lemma messages_simps [simp]: "messages [] = 0" "messages (g @ h) = messages g + messages h"
    "messages (a # h) = (if is_published a then 1 else 0) + messages h"
  by (simp_all add: messages_def)

text \<open>
  What the loop of the watcher keeps: a preorder on worlds that admits any recorded call but a
  confirmed publication, and a publication together with its count. A whole run also changes the
  readiness flags.
\<close>

locale watcher_invariant =
  fixes R :: "world \<Rightarrow> world \<Rightarrow> bool"
  assumes preorder: "preorder_rel R"
    and unpub_action: "\<not> is_published a \<Longrightarrow> R w (add_action a w)"
    and published: "keeps R (publish_counted E pb e)"
begin

lemma unpub_call: "\<not> is_published ok \<Longrightarrow> (\<And>x. \<not> is_published (bad x)) \<Longrightarrow> keeps R (call reply ok bad)"
  by (auto simp: keeps_def call_def unpub_action split: option.splits)

lemma unpub_ask: "\<not> is_published a \<Longrightarrow> keeps R (ask reply a)"
  by (auto simp: keeps_def ask_def unpub_action split: sum.splits)

lemma unpub_modify: "\<not> is_published a \<Longrightarrow> keeps R (modify_io (add_action a))"
  by (simp add: keeps_def modify_io_def unpub_action)

lemmas keeping = preorder keeps_ret keeps_raise keeps_lift_sum keeps_get keeps_bind keeps_seq keeps_try
  unpub_call unpub_ask unpub_modify published

lemma keeps_setup: "keeps R (connect_and_setup E S)"
  unfolding connect_and_setup_def connect_def open_channel_def declare_topology_def queue_declare_def mk_publisher_def
  by (intro keeping) (auto intro!: keeping)

lemma keeps_close: "keeps R (close_quietly E c)"
  unfolding close_quietly_def close_connection_def by (intro keeping) simp_all

lemma keeps_reconnect: "keeps R (reconnect E conn S)"
  unfolding reconnect_def by (intro keeping keeps_close keeps_setup) (auto intro!: keeping)

lemma keeps_build: "keeps R (build_event E S path)"
  unfolding build_event_def sha256_file_def new_uuid_def utcnow_iso_def relpath_def abspath_def
  by (auto intro!: keeping)

lemma keeps_step: "keeps R (watch_step E S conn pb item)"
  unfolding watch_step_def publish_with_reconnect_def service_idle_connection_def
  by (cases item) (auto intro!: keeping keeps_build keeps_reconnect split: option.split)

lemma keeps_attempt: "keeps R m \<Longrightarrow> keeps R (attempt_io m)"
  by (auto simp: keeps_def attempt_io_def split: prod.splits outcome.splits) (metis snd_conv)+

lemma keeps_loop: "keeps R (watch_loop E S items conn pb)"
proof (induction items arbitrary: conn pb)
  case Nil
  show ?case by (simp add: keeping)
next
  case (Cons item items)
  show ?case
    unfolding watch_loop.simps
    by (intro keeping keeps_attempt keeps_step) (auto intro!: keeping Cons.IH split: sum.split)
qed

end

locale watcher_run_invariant = watcher_invariant +
  assumes flags: "R w (w\<lparr>readiness := st\<rparr>)"
begin

lemma unpub_flags: "keeps R (set_ready c b)"
  by (simp add: keeps_def modify_io_def set_ready_def flags)

lemma keeps_cleanup: "keeps R (watcher_finally E c)"
  unfolding watcher_finally_def by (intro keeping) (auto intro!: keeping unpub_flags keeps_close)

lemma keeps_run: "keeps R (run_watcher E S items)"
proof -
  have "keeps R (observer_start E S)" unfolding observer_start_def by (intro keeping) simp_all
  then show ?thesis
    unfolding run_watcher_def by (auto intro!: keeping unpub_flags keeps_setup keeps_loop keeps_cleanup split: option.split)
qed

end

interpretation books: watcher_run_invariant published_balance
proof
  show "keeps published_balance (publish_counted E pb e)" for E pb e
    by (auto simp: keeps_def publish_counted_def publish_event_def publish_def basic_publish_def call_def bind_io_def
      inc_published_def modify_io_def ret_io_def published_balance_def split: option.splits)
qed (auto simp: preorder_rel_def published_balance_def)

interpretation growth: watcher_run_invariant grows
proof
  show "keeps grows (publish_counted E pb e)" for E pb e
    by (auto simp: keeps_def publish_counted_def publish_event_def publish_def basic_publish_def call_def bind_io_def
      inc_published_def modify_io_def ret_io_def grows_def split: option.splits)
qed (auto simp: preorder_grows grows_add grows_def)

text \<open>The loop leaves the readiness flags alone.\<close>

definition same_flags :: "world \<Rightarrow> world \<Rightarrow> bool" where
  "same_flags w w' \<longleftrightarrow> readiness w' = readiness w"

interpretation loop_flags: watcher_invariant same_flags
proof
  show "keeps same_flags (publish_counted E pb e)" for E pb e
    by (auto simp: keeps_def publish_counted_def publish_event_def publish_def basic_publish_def call_def bind_io_def
      inc_published_def modify_io_def ret_io_def same_flags_def split: option.splits)
qed (auto simp: preorder_rel_def same_flags_def)

section \<open>The finally block\<close>

definition never_hangs :: "(world, 'a) io \<Rightarrow> bool" where
  "never_hangs m \<longleftrightarrow> (\<forall>w. fst (m w) \<noteq> Hang)"

lemma hangs_bind: "never_hangs m \<Longrightarrow> (\<And>x. never_hangs (f x)) \<Longrightarrow> never_hangs (bind_io m f)"
  by (auto simp: never_hangs_def bind_io_def split: prod.splits outcome.splits) (metis fst_conv)

lemma hangs_try: "never_hangs m \<Longrightarrow> (\<And>e. never_hangs (h e)) \<Longrightarrow> never_hangs (try_except m c h)"
  by (auto simp: never_hangs_def try_except_def split: prod.splits outcome.splits) (metis fst_conv)

lemma hangs_basic: "never_hangs (ret_io x)" "never_hangs (raise_io e)" "never_hangs (lift_sum r)" "never_hangs (get_io f)"
    "never_hangs (call reply ok bad)" "never_hangs (ask q a)" "never_hangs (modify_io g)"
  by (auto simp: never_hangs_def ret_io_def raise_io_def lift_sum_def get_io_def call_def ask_def modify_io_def
    split: option.split sum.split)

lemma hangs_seq: "(\<And>m. m \<in> set ms \<Longrightarrow> never_hangs m) \<Longrightarrow> never_hangs (seq_io ms)"
  by (induction ms) (simp_all add: hangs_basic hangs_bind)

lemma setup_never_hangs: "never_hangs (connect_and_setup E S)"
  unfolding connect_and_setup_def connect_def open_channel_def declare_topology_def queue_declare_def mk_publisher_def
  by (intro hangs_bind hangs_basic hangs_seq) (auto intro: hangs_basic)

lemma step_never_hangs: "never_hangs (watch_step E S conn pb item)"
  unfolding watch_step_def publish_with_reconnect_def service_idle_connection_def reconnect_def close_quietly_def
    close_connection_def publish_counted_def publish_event_def publish_def basic_publish_def inc_published_def
    build_event_def sha256_file_def new_uuid_def utcnow_iso_def relpath_def abspath_def
  by (cases item) (auto intro!: hangs_basic hangs_bind hangs_try hangs_seq setup_never_hangs split: option.split)

lemma loop_returns: "\<exists>pending c w'. watch_loop E S items conn pb w = (Return (pending, c), w')"
proof (induction items arbitrary: conn pb w)
  case Nil
  show ?case by (simp add: ret_io_def)
next
  case (Cons item items)
  obtain r w' where s: "watch_step E S conn pb item w = (r, w')" by fastforce
  have "r \<noteq> Hang" using step_never_hangs [of E S conn pb item] s by (auto simp: never_hangs_def dest!: spec [of _ w])
  then show ?case using s Cons.IH by (cases r) (auto simp: bind_io_def attempt_io_def ret_io_def)
qed

definition closes :: "nat \<Rightarrow> action \<Rightarrow> bool" where
  "closes c a \<longleftrightarrow> a = CloseConnection c \<or> (\<exists>x. a = CloseConnectionFailed c x)"

lemma finally_effect:
  "\<exists>a. closes c a \<and> history (snd (watcher_finally E c w)) = history w @ [ObserverStop, ObserverJoin, a]
    \<and> map_of (readiness (snd (watcher_finally E c w))) (lit ''watcher'') = Some False
    \<and> fst (watcher_finally E c w) \<noteq> Hang"
  by (auto simp: watcher_finally_def close_quietly_def close_connection_def call_def try_except_def bind_io_def
    set_ready_def modify_io_def ret_io_def closes_def update_conv' add_action_def split: option.split)

text \<open>
  The connection the watcher holds: every set-up ends with the publisher confirms of its channel, which bears the number of
  its connection, so it is the one whose channel was confirmed last.
\<close>

fun confirmed_channels :: "action list \<Rightarrow> nat list" where
  "confirmed_channels [] = []"
| "confirmed_channels (ConfirmDelivery ch # h) = ch # confirmed_channels h"
| "confirmed_channels (_ # h) = confirmed_channels h"

lemma confirmed_append [simp]: "confirmed_channels (g @ h) = confirmed_channels g @ confirmed_channels h"
  by (induction g rule: confirmed_channels.induct) simp_all

definition holding :: "nat \<Rightarrow> world \<Rightarrow> bool" where
  "holding c w \<longleftrightarrow> (\<exists>cs. confirmed_channels (history w) = cs @ [c])"

definition same_held :: "world \<Rightarrow> world \<Rightarrow> bool" where
  "same_held w w' \<longleftrightarrow> confirmed_channels (history w') = confirmed_channels (history w)"

lemma preorder_same_held: "preorder_rel same_held"
  by (simp add: preorder_rel_def same_held_def)

lemma held_call: "confirmed_channels [ok] = [] \<Longrightarrow> (\<And>x. confirmed_channels [bad x] = []) \<Longrightarrow> keeps same_held (call reply ok bad)"
  by (auto simp: keeps_def call_def same_held_def split: option.split)

lemma held_ask: "confirmed_channels [a] = [] \<Longrightarrow> keeps same_held (ask reply a)"
  by (auto simp: keeps_def ask_def same_held_def split: sum.split)

lemma held_count: "keeps same_held inc_published"
  by (simp add: keeps_def inc_published_def modify_io_def same_held_def)

lemma held_modify: "confirmed_channels [a] = [] \<Longrightarrow> keeps same_held (modify_io (add_action a))"
  by (simp add: keeps_def modify_io_def same_held_def)

lemmas held_rules = preorder_same_held keeps_ret keeps_raise keeps_lift_sum keeps_get keeps_bind keeps_seq keeps_try
  held_call held_ask held_count held_modify

lemma held_publish: "keeps same_held (publish_counted E pb e)"
  unfolding publish_counted_def publish_event_def publish_def basic_publish_def by (auto intro!: held_rules)

lemma held_close: "keeps same_held (close_quietly E c)"
  unfolding close_quietly_def close_connection_def by (intro held_rules) simp_all

lemma held_build: "keeps same_held (build_event E S path)"
  unfolding build_event_def sha256_file_def new_uuid_def utcnow_iso_def relpath_def abspath_def
  by (auto intro!: held_rules)

text \<open>Before and after a computation: what holds when it returns, and when it raises.\<close>

definition ends_in :: "('a \<Rightarrow> world \<Rightarrow> bool) \<Rightarrow> (world \<Rightarrow> bool) \<Rightarrow> 'a outcome \<Rightarrow> world \<Rightarrow> bool" where
  "ends_in Q X r w \<longleftrightarrow> (case r of Return x \<Rightarrow> Q x w | Raise e \<Rightarrow> X w | Hang \<Rightarrow> True)"

definition triple :: "(world \<Rightarrow> bool) \<Rightarrow> (world, 'a) io \<Rightarrow> ('a \<Rightarrow> world \<Rightarrow> bool) \<Rightarrow> (world \<Rightarrow> bool) \<Rightarrow> bool" where
  "triple P m Q X \<longleftrightarrow> (\<forall>w. P w \<longrightarrow> ends_in Q X (fst (m w)) (snd (m w)))"

lemma tripleI: "(\<And>w r w'. P w \<Longrightarrow> m w = (r, w') \<Longrightarrow> ends_in Q X r w') \<Longrightarrow> triple P m Q X"
  by (simp add: triple_def)

lemma tripleD: "triple P m Q X \<Longrightarrow> P w \<Longrightarrow> m w = (r, w') \<Longrightarrow> ends_in Q X r w'"
  by (auto simp: triple_def dest!: spec [of _ w])

lemma ends_in_simps [simp]: "ends_in Q X (Return x) w = Q x w" "ends_in Q X (Raise e) w = X w" "ends_in Q X Hang w"
  by (simp_all add: ends_in_def)

lemma triple_bind:
  assumes "triple P m Q X" and "\<And>x. triple (Q x) (f x) R X"
  shows "triple P (bind_io m f) R X"
proof (rule tripleI)
  fix w r w'
  assume w: "P w" and r: "bind_io m f w = (r, w')"
  obtain r1 w1 where m: "m w = (r1, w1)" by fastforce
  from tripleD [OF assms(1) w m] have e: "ends_in Q X r1 w1" .
  show "ends_in R X r w'" using r m e tripleD [OF assms(2)] by (cases r1) (auto simp: bind_io_def)
qed

lemma triple_catch:
  assumes "triple P m Q X" and "\<And>e. triple X (h e) Q Y" and "\<And>w e w'. m w = (Raise e, w') \<Longrightarrow> \<not> isinstance e c \<Longrightarrow> X w' \<Longrightarrow> Y w'"
  shows "triple P (try_except m c h) Q Y"
proof (rule tripleI)
  fix w r w'
  assume w: "P w" and r: "try_except m c h w = (r, w')"
  obtain r1 w1 where m: "m w = (r1, w1)" by fastforce
  from tripleD [OF assms(1) w m] have e: "ends_in Q X r1 w1" .
  show "ends_in Q Y r w'"
    using r m e tripleD [OF assms(2)] assms(3) by (cases r1) (auto simp: try_except_def split: if_splits)
qed

lemma triple_try: "triple P m Q X \<Longrightarrow> (\<And>e. triple X (h e) Q X) \<Longrightarrow> triple P (try_except m c h) Q X"
  by (rule triple_catch)

lemma triple_held: "keeps same_held m \<Longrightarrow> triple (holding c) m (\<lambda>_. holding c) (holding c)"
  by (rule tripleI) (auto simp: ends_in_def same_held_def holding_def dest!: keepsD split: outcome.split)

lemma triple_ret: "(\<And>w. P w \<Longrightarrow> Q x w) \<Longrightarrow> triple P (ret_io x) Q X"
  by (simp add: triple_def ret_io_def)

lemma setup_holds: "triple (holding c) (connect_and_setup E S) (\<lambda>(conn, ch, pb). holding conn) (holding c)"
  by (rule tripleI) (auto simp: holding_def connect_and_setup_def connect_def open_channel_def declare_topology_def queue_declare_def
    mk_publisher_def call_def bind_io_def get_io_def ret_io_def split: option.splits)

lemma setup_held:
  "connect_and_setup E S w = (Return (conn, ch, pb), w1) \<Longrightarrow> holding conn w1"
  by (auto simp: holding_def connect_and_setup_def connect_def open_channel_def declare_topology_def queue_declare_def
    mk_publisher_def call_def bind_io_def get_io_def ret_io_def split: option.splits)

lemma reconnect_holds: "triple (holding c) (reconnect E c' S) (\<lambda>(conn, pb). holding conn) (holding c)"
  unfolding reconnect_def
  by (intro triple_bind [OF triple_held [OF held_close]] triple_bind [OF setup_holds]) (auto intro: triple_ret)

text \<open>Whatever pika raises from a publication is an \<open>Exception\<close>, so the second attempt cannot leave the loop.\<close>

lemma step_holds:
  assumes "\<And>h ch p x. publish_reply E h ch p = Some x \<Longrightarrow> isinstance x Exception"
  shows "triple (holding conn) (watch_step E S conn pb item) (\<lambda>(c, pb). holding c) (holding conn)"
proof -
  have caught: "isinstance e Exception" if "publish_counted E q ev w = (Raise e, w')" for q ev w e w'
    using that assms by (auto simp: publish_counted_def publish_event_def publish_def basic_publish_def call_def bind_io_def
      inc_published_def modify_io_def ret_io_def split: option.splits)
  have again: "triple (holding c) (try_except (publish_counted E q ev) Exception (\<lambda>_. ret_io ())) (\<lambda>_. holding c) X" for c q ev X
    by (rule triple_catch [OF triple_held [OF held_publish]]) (auto intro: triple_ret caught)
  have publish: "triple (holding conn) (publish_with_reconnect E conn pb ev S) (\<lambda>(c, pb). holding c) (holding conn)" for ev
    unfolding publish_with_reconnect_def
    by (intro triple_try triple_bind [OF triple_held [OF held_publish]] triple_bind [OF reconnect_holds])
      (auto intro!: triple_ret triple_bind [OF again])
  have idle: "triple (holding conn) (service_idle_connection E conn pb S) (\<lambda>(c, pb). holding c) (holding conn)"
    unfolding service_idle_connection_def
    by (intro triple_try triple_bind [OF triple_held] held_call reconnect_holds) (auto intro: triple_ret)
  have question: "keeps same_held (ask (\<lambda>h. Inr (isfile_reply E h path)) (IsFile path))" for path by (rule held_ask) simp
  have built: "keeps same_held (try_except (bind_io (build_event E S path) (\<lambda>e. ret_io (Some e))) Exception (\<lambda>_. ret_io None))" for path
    by (intro held_rules held_build)
  show ?thesis
  proof (cases item)
    case QueueTimeout
    then show ?thesis using idle by (simp add: watch_step_def)
  next
    case (Detected path)
    show ?thesis
      unfolding watch_step_def Detected watch_item.case
      by (intro triple_bind [OF triple_held [OF question]])
        (auto intro!: triple_ret triple_bind [OF triple_held [OF built]] publish split: option.split)
  qed
qed

lemma loop_holds:
  assumes "\<And>h ch p x. publish_reply E h ch p = Some x \<Longrightarrow> isinstance x Exception"
  shows "triple (holding conn) (watch_loop E S items conn pb) (\<lambda>(pending, c). holding c) X"
proof (induction items arbitrary: conn pb)
  case Nil
  show ?case by (auto intro: triple_ret)
next
  case (Cons item items)
  have "triple (holding conn) (attempt_io (watch_step E S conn pb item))
      (\<lambda>r. case r of Inl x \<Rightarrow> holding conn | Inr (c, pb) \<Rightarrow> holding c) X"
  proof (rule tripleI)
    fix w r w'
    assume w: "holding conn w" and r: "attempt_io (watch_step E S conn pb item) w = (r, w')"
    obtain r1 w1 where m: "watch_step E S conn pb item w = (r1, w1)" by fastforce
    from tripleD [OF step_holds [OF assms] w m]
    show "ends_in (\<lambda>r. case r of Inl x \<Rightarrow> holding conn | Inr (c, pb) \<Rightarrow> holding c) X r w'"
      using r m by (cases r1) (auto simp: attempt_io_def)
  qed
  then show ?case
    unfolding watch_loop.simps by (rule triple_bind) (auto intro: triple_ret Cons.IH split: sum.split)
qed

lemma run_watcher_cleanup:
  assumes up: "connect_and_setup E S w = (Return (conn, ch, pb), w1)"
    and obs: "observer_reply E (history w1) (watch_dir S) = None"
    and exc: "\<And>h ch p x. publish_reply E h ch p = Some x \<Longrightarrow> isinstance x Exception"
  shows "\<exists>r w' a g. run_watcher E S items w = (r, w')
    \<and> history w' = history w1 @ ObserverStart (watch_dir S) # g @ [ObserverStop, ObserverJoin, a]
    \<and> closes (last (confirmed_channels (history w1 @ g))) a
    \<and> map_of (readiness w') (lit ''watcher'') = Some False"
proof -
  define w2 where "w2 = add_action (ObserverStart (watch_dir S)) (w1\<lparr>readiness := AList.update (lit ''watcher'') True (readiness w1)\<rparr>)"
  obtain pending c w3 where loop: "watch_loop E S items conn pb w2 = (Return (pending, c), w3)"
    using loop_returns by blast
  obtain r w4 where fin: "watcher_finally E c w3 = (r, w4)" by fastforce
  have "grows w2 w3" by (rule keepsD [OF growth.keeps_loop loop])
  then obtain g where g: "history w3 = history w1 @ ObserverStart (watch_dir S) # g"
    by (auto simp: grows_def w2_def)
  have "holding conn w2" using setup_held [OF up] by (simp add: holding_def w2_def)
  from tripleD [OF loop_holds [OF exc] this loop] have "holding c w3" by simp
  then have c: "last (confirmed_channels (history w1 @ g)) = c" by (auto simp: holding_def g)
  obtain a where a: "closes c a" "history w4 = history w3 @ [ObserverStop, ObserverJoin, a]"
    "map_of (readiness w4) (lit ''watcher'') = Some False" "r \<noteq> Hang"
    using finally_effect [of c E w3] by (auto simp: fin)
  have "set_ready (lit ''watcher'') True w1 = (Return (), w1\<lparr>readiness := AList.update (lit ''watcher'') True (readiness w1)\<rparr>)"
    by (simp add: set_ready_def modify_io_def)
  moreover have "observer_start E S (w1\<lparr>readiness := st\<rparr>) = (Return (), add_action (ObserverStart (watch_dir S)) (w1\<lparr>readiness := st\<rparr>))" for st
    using obs by (simp add: observer_start_def call_def)
  ultimately have run: "run_watcher E S items w = bind_io (watcher_finally E c)
      (\<lambda>_. case pending of None \<Rightarrow> ret_io () | Some x \<Rightarrow> raise_io x) w3"
    using loop by (simp add: run_watcher_def bind_runs [where m = "connect_and_setup E S" and w = w, OF up]
      bind_runs w2_def)
  have "\<exists>r'. run_watcher E S items w = (r', w4)"
    using a(4) by (cases r; cases pending) (simp_all add: run bind_io_def fin ret_io_def raise_io_def)
  then show ?thesis using a g c by auto
qed

section \<open>Files that cannot be published\<close>

text \<open>The broker can be reached but confirms no message.\<close>

definition refusing_broker :: "environ \<Rightarrow> bool" where
  "refusing_broker E \<longleftrightarrow> (\<forall>h. connect_reply E h = None) \<and> (\<forall>h. channel_reply E h = None)
     \<and> (\<forall>h ch q. declare_reply E h ch q = None) \<and> (\<forall>h ch. confirm_reply E h ch = None)
     \<and> (\<forall>h c. process_reply E h c = None) \<and> (\<forall>h c. close_reply E h c = None) \<and> (\<forall>h d. observer_reply E h d = None)
     \<and> (\<forall>h ch p. \<exists>x. publish_reply E h ch p = Some x \<and> isinstance x AMQPError \<and> isinstance x Exception)"

lemma refused_publish:
  assumes "refusing_broker E"
  shows "\<exists>x. publish_counted E pb e w = (Raise x, extend [PublishFailed (pub_channel pb) (event_message E (pub_settings pb) e) x] w)
    \<and> isinstance x AMQPError \<and> isinstance x Exception"
proof -
  obtain x where "publish_reply E (history w) (pub_channel pb) (event_message E (pub_settings pb) e) = Some x"
    "isinstance x AMQPError" "isinstance x Exception"
    using assms unfolding refusing_broker_def by blast
  then show ?thesis
    by (simp add: publish_counted_def publish_event_def publish_def basic_publish_def call_def bind_io_def add_extend
      event_message_def)
qed

text \<open>Both attempts fail, the second one quietly: the loop goes on, the file is not kept anywhere.\<close>

lemma refused_step:
  assumes b: "refusing_broker E" and host: "sound_host E" and S: "settings_ok S"
    and p: "\<forall>path. item = Detected path \<longrightarrow> watchable E S path"
  shows "\<exists>conn' pb' h. watch_step E S conn pb item w = (Return (conn', pb'), extend h w) \<and> messages h = 0"
proof (cases item)
  case QueueTimeout
  then show ?thesis
    using b by (intro exI [of _ conn] exI [of _ pb] exI [of _ "[ProcessData conn]"])
      (simp add: watch_step_def service_idle_connection_def refusing_broker_def call_def bind_io_def try_except_def ret_io_def add_extend)
next
  case (Detected path)
  then obtain cs n content where f: "located S path cs" "file_facts E path n content" and there: "\<And>h. isfile_reply E h path"
    using p by (auto simp: watchable_def)
  let ?w1 = "extend [IsFile path] w"
  obtain e h where e: "build_event E S path ?w1 = (Return e, extend h ?w1)" "quiet_hosts h"
    using build_event_runs [OF host f(2) S f(1)] by blast
  define w2 where "w2 = extend h ?w1"
  obtain x where x: "publish_counted E pb e w2 = (Raise x, extend [PublishFailed (pub_channel pb) (event_message E (pub_settings pb) e) x] w2)"
    "isinstance x AMQPError"
    using refused_publish [OF b] by blast
  define w3 where "w3 = extend [PublishFailed (pub_channel pb) (event_message E (pub_settings pb) e) x, CloseConnection conn] w2"
  have rec: "reconnect E conn S (extend [PublishFailed (pub_channel pb) (event_message E (pub_settings pb) e) x] w2) =
      (Return (length (history w3), watcher_publisher (length (history w3)) S), extend (setup_actions (length (history w3)) S) w3)"
    using b
    by (simp add: reconnect_def refusing_broker_def close_quietly_def close_connection_def try_except_def call_def bind_io_def
      connect_and_setup_def connect_def open_channel_def declare_topology_def queue_declare_def mk_publisher_def get_io_def
      ret_io_def add_extend watcher_publisher_def setup_actions_def w3_def)
  define w4 where "w4 = extend (setup_actions (length (history w3)) S) w3"
  define pb' where "pb' = watcher_publisher (length (history w3)) S"
  obtain y where y: "publish_counted E pb' e w4 = (Raise y, extend [PublishFailed (pub_channel pb') (event_message E (pub_settings pb') e) y] w4)"
    "isinstance y Exception"
    using refused_publish [OF b] by blast
  have pub: "publish_with_reconnect E conn pb e S w2 = (Return (length (history w3), pb'),
      extend [PublishFailed (pub_channel pb') (event_message E (pub_settings pb') e) y] w4)"
    using x y
    by (simp add: publish_with_reconnect_def try_except_def bind_io_def ret_io_def rec [folded w4_def pb'_def])
  have "ask (\<lambda>h. Inr (isfile_reply E h path)) (IsFile path) w = (Return True, ?w1)"
    by (rule ask_runs) (simp add: there)
  then have "watch_step E S conn pb item w = publish_with_reconnect E conn pb e S w2"
    using e(1) by (simp add: Detected watch_step_def bind_runs try_except_def [of "bind_io (build_event _ _ _) _"] ret_io_def w2_def)
  moreover have "messages h = 0" using e(2) by (induction h) (auto split: action.splits)
  ultimately show ?thesis unfolding pub by (auto simp: w4_def w3_def w2_def setup_actions_def)
qed

lemma refused_loop:
  assumes b: "refusing_broker E" and host: "sound_host E" and S: "settings_ok S"
    and p: "\<forall>path \<in> set (detected items). watchable E S path"
  shows "\<exists>c h. watch_loop E S items conn pb w = (Return (None, c), extend h w) \<and> messages h = 0"
  using p
proof (induction items arbitrary: conn pb w)
  case Nil
  show ?case by (intro exI [of _ conn] exI [of _ "[]"]) (simp add: ret_io_def)
next
  case (Cons item items)
  have "\<forall>path. item = Detected path \<longrightarrow> watchable E S path" using Cons.prems by auto
  then obtain conn' pb' h where s: "watch_step E S conn pb item w = (Return (conn', pb'), extend h w)" "messages h = 0"
    using refused_step [OF b host S] by blast
  have "\<forall>path \<in> set (detected items). watchable E S path" using Cons.prems by (cases item) auto
  then obtain c g where l: "watch_loop E S items conn' pb' (extend h w) = (Return (None, c), extend g (extend h w))" "messages g = 0"
    using Cons.IH by blast
  show ?case using s l by (intro exI [of _ c] exI [of _ "h @ g"]) (simp add: bind_io_def attempt_io_def)
qed

lemma refused_run:
  assumes b: "refusing_broker E" and host: "sound_host E" and S: "settings_ok S"
    and p: "\<forall>path \<in> set (detected items). watchable E S path"
  shows "\<exists>w'. run_watcher E S items w = (Return (), w') \<and> messages (new_actions w w') = 0"
proof -
  let ?n = "length (history w)"
  have up: "connect_and_setup E S w = (Return (?n, ?n, watcher_publisher ?n S), extend (setup_actions ?n S) w)"
    using b
    by (simp add: refusing_broker_def connect_and_setup_def connect_def open_channel_def declare_topology_def
      queue_declare_def mk_publisher_def call_def bind_io_def get_io_def ret_io_def add_extend watcher_publisher_def setup_actions_def)
  define w2 where "w2 = add_action (ObserverStart (watch_dir S))
    ((extend (setup_actions ?n S) w)\<lparr>readiness := AList.update (lit ''watcher'') True (readiness w)\<rparr>)"
  obtain c h where l: "watch_loop E S items ?n (watcher_publisher ?n S) w2 = (Return (None, c), extend h w2)" "messages h = 0"
    using refused_loop [OF b host S p] by blast
  define w' where "w' = snd (watcher_finally E c (extend h w2))"
  have fin: "watcher_finally E c (extend h w2) = (Return (), w')"
    "history w' = history w2 @ h @ [ObserverStop, ObserverJoin, CloseConnection c]"
    using b
    by (simp_all add: w'_def watcher_finally_def refusing_broker_def close_quietly_def close_connection_def call_def
      try_except_def bind_io_def set_ready_def modify_io_def ret_io_def)
  have "run_watcher E S items w = (Return (), w')"
    using b l(1) fin(1)
    by (simp add: run_watcher_def bind_runs [where m = "connect_and_setup E S" and w = w, OF up]
      bind_runs set_ready_def modify_io_def observer_start_def refusing_broker_def call_def w2_def)
      (simp add: bind_io_def ret_io_def)
  moreover have "messages (new_actions w w') = 0"
    using l(2) by (simp add: new_actions_def fin(2) w2_def setup_actions_def)
  ultimately show ?thesis by blast
qed

end
