(* ===== verification/Watcher_Properties.thy ===== *)
theory Watcher_Properties
  imports Watcher_Lemmas Consumer_Scenarios
begin

text \<open>
  What the watcher guarantees, alone and together with the consumer, with each theorem applied to
  the sample environment.
\<close>

section \<open>The sample environment\<close>

definition sample_path :: pystr where
  "sample_path = lit ''/watch/orders.csv''"

text \<open>A broker that takes connections and refuses every message.\<close>

definition nack_error :: exn where
  "nack_error = mk_exn ''NackError'' [AMQPError, Exception] []"

definition refusing_env :: environ where
  "refusing_env = sample_env\<lparr>publish_reply := \<lambda>_ _ _. Some nack_error\<rparr>"

text \<open>An operating system whose inotify watches are used up.\<close>

definition os_error :: exn where
  "os_error = mk_exn ''OSError'' [Exception] []"

definition blind_env :: environ where
  "blind_env = sample_env\<lparr>observer_reply := \<lambda>_ _. Some os_error\<rparr>"

lemma sample_calm_broker: "calm_broker sample_env"
  by (simp add: calm_broker_def sample_env_def sample_env_of_def)

lemma sample_timestamp: "iso_text \<lparr>ts_year = 2026, ts_month = 3, ts_day = 1, ts_hour = 10, ts_minute = 0, ts_second = 0\<rparr>
    = lit ''2026-03-01T10:00:00''"
  by (simp add: iso_text_def show_pad_def show_nat.simps lit_def)

lemma sample_sound_host: "sound_host sample_env"
  using sample_timestamp by (simp add: sound_host_def sample_env_def sample_env_of_def lit_append [symmetric])

lemma sample_settings_ok: "settings_ok default_settings"
  by (simp add: settings_ok_def default_settings_def)

lemma sample_located: "located default_settings sample_path [lit ''orders.csv'']"
  unfolding located_def
  by (intro exI [of _ "[lit ''watch'']"])
    (simp add: default_settings_def sample_path_def root_path_def plain_part_def curdir_def pardir_def lit_def
      str_ok_def is_scalar_def is_surrogate_def)

lemma sample_file_facts: "file_facts sample_env sample_path 12 sample_csv"
  by (simp add: file_facts_def sample_env_def sample_env_of_def sample_csv_def lit_def)

lemma sample_watchable: "watchable sample_env default_settings sample_path"
  unfolding watchable_def using sample_located sample_file_facts by (auto simp: sample_env_def sample_env_of_def)

lemma refusing_sample: "refusing_broker refusing_env" "sound_host refusing_env" "watchable refusing_env default_settings sample_path"
proof -
  show "refusing_broker refusing_env"
    by (simp add: refusing_broker_def refusing_env_def sample_env_def sample_env_of_def nack_error_def)
  show "sound_host refusing_env" using sample_sound_host by (simp add: sound_host_def refusing_env_def)
  show "watchable refusing_env default_settings sample_path"
    using sample_watchable by (simp add: watchable_def file_facts_def refusing_env_def)
qed

section \<open>From the drop directory to the queue\<close>

text \<open>C9. While the broker answers, the watcher publishes one event for every detected file and nothing else, in
  the order of detection: each is a valid event of the supported version that describes its file (size, SHA-256
  of the content, relative path as object key for both clouds). The counter grows by as many, and after the stop
  the watcher reports itself not ready.\<close>

theorem watcher_publishes_every_file:
  assumes "calm_broker E" and "sound_host E" and "settings_ok S"
    and "\<forall>path \<in> set (detected items). watchable E S path"
  shows "\<exists>es w'. run_watcher E S items w = (Return (), w')
    \<and> list_all2 (event_of_file E S) (detected items) es
    \<and> publications (length (history w)) (new_actions w w') = map (event_message E S) es
    \<and> EVENTS_PUBLISHED_TOTAL (counters w') = EVENTS_PUBLISHED_TOTAL (counters w) + length es
    \<and> map_of (readiness w') (lit ''watcher'') = Some False"
  by (rule run_publishes [OF assms])

theorem watcher_publishes_every_file_witness:
  "\<exists>es w'. run_watcher sample_env default_settings [QueueTimeout, Detected sample_path, Detected sample_path] sample_world = (Return (), w')
    \<and> list_all2 (event_of_file sample_env default_settings) [sample_path, sample_path] es
    \<and> publications 0 (new_actions sample_world w') = map (event_message sample_env default_settings) es
    \<and> EVENTS_PUBLISHED_TOTAL (counters w') = length es \<and> map_of (readiness w') (lit ''watcher'') = Some False"
  using watcher_publishes_every_file [OF sample_calm_broker sample_sound_host sample_settings_ok,
      of "[QueueTimeout, Detected sample_path, Detected sample_path]" sample_world]
  by (simp add: sample_watchable) (simp add: sample_world_def new_registry_def)

text \<open>The message of a clean file, in the hands of a consumer.\<close>

definition stored_in_both :: "environ \<Rightarrow> settings \<Rightarrow> pystr \<Rightarrow> pystr list \<Rightarrow> transfer_event \<Rightarrow> nat \<Rightarrow> nat \<Rightarrow> world \<Rightarrow> bool" where
  "stored_in_both E S path cs e ch tag v \<longleftrightarrow> (\<exists>v' h.
     handle E (worker_consumer ch S) tag (pub_props (event_message E S e)) (pub_body (event_message E S e)) v = (Return (), v')
     \<and> history v' = history v @ h
     \<and> UploadEnd (S3Upload (s3_endpoint_url S) (s3_region S) (s3_bucket S) (join_str [47] cs) path) UploadReturned \<in> set h
     \<and> UploadEnd (GcsUpload (gcp_project S) (gcs_client_endpoint S) (gcs_bucket S) (join_str [47] cs) path) UploadReturned \<in> set h
     \<and> select_key (table v') (idempotencyKey e))"

lemma clean_message_stored:
  assumes laws: "json_laws E" and ev: "event_of_file E S path e" and loc: "located S path cs"
    and facts: "file_facts E path n content" and there: "\<And>h. isfile_reply E h path"
    and clean: "\<And>h. read_reply E h path = Inr content" "scan_raw content = Inr []" "int n \<le> max_csv_file_size_bytes S"
    and calm: "0 < upload_max_concurrency S" "\<And>h st. sql_reply E h st = None" "\<And>h ch tag. ack_reply E h ch tag = None"
      "\<And>h c. upload_reply E h c = UploadReturned"
    and new: "\<not> select_key (table v) (idempotencyKey e)"
  shows "stored_in_both E S path cs e ch tag v"
proof -
  obtain cs' n' content' where d: "located S path cs'" "describes S path n' content' (join_str [47] cs') e"
    using ev by (auto simp: event_of_file_def)
  have "cs' = cs" using located_unique [OF d(1) loc] .
  then have ds: "destinations e = [
     \<lparr>dst_provider = lit ''aws-s3'', dst_bucket = s3_bucket S, dst_key = join_str [47] cs, dst_region = Some (s3_region S)\<rparr>,
     \<lparr>dst_provider = lit ''gcp-gcs'', dst_bucket = gcs_bucket S, dst_key = join_str [47] cs, dst_region = None\<rparr>]"
    "event_path e = path"
    using d(2) by (auto simp: describes_def event_for_def event_path_def)
  have body: "from_json_bytes E (pub_body (event_message E S e)) = Inr e" "assert_supported e = Inr ()"
    using ev from_to_json_bytes [OF laws] by (simp_all add: event_of_file_def event_message_def event_publication_def)
  have adm: "admitted E v (pub_body (event_message E S e)) e" using body new by (simp add: admitted_def)
  have present: "file_present E v e" using there ds(2) by (simp add: file_present_def)
  have "getsize_reply E h path = Inr n" for h using facts by (simp add: file_facts_def)
  then have "scan_outcome E S v e = Return []"
    using clean by (simp add: scan_outcome_def scan_csv_file_def bind_io_def ask_def ds(2) lift_sum_def ret_io_def)
  from good_delivery [OF adm present this calm, where ch = ch and tag = tag and props = "pub_props (event_message E S e)"]
  obtain v' h where "handle E (worker_consumer ch S) tag (pub_props (event_message E S e)) (pub_body (event_message E S e)) v = (Return (), v')"
    "history v' = history v @ h" "list_all (stored_in S path h) (destinations e)" "select_key (table v') (idempotencyKey e)"
    unfolding ds(2) by blast
  then show ?thesis
    unfolding stored_in_both_def
    by (intro exI [of _ v'] exI [of _ h]) (simp add: ds(1) stored_in_def uploader_for_def upload_to_s3_def upload_to_gcs_def)
qed

text \<open>C8. From the drop directory to both clouds, when nothing fails: for a clean file within the size limit that stays as it
  is, while broker, database, acknowledgements and uploads succeed, the watcher publishes one message, and whenever a
  consumer gets this message while its key is not in the table, it uploads the file to the S3 bucket and to the GCS
  bucket, both times under the file's path below the drop directory, and marks the key.\<close>

theorem dropped_file_reaches_both_clouds:
  assumes "json_laws E" and "calm_broker E" and "sound_host E" and "settings_ok S"
    and "located S path cs" and "file_facts E path n content" and "\<And>h. isfile_reply E h path"
    and "\<And>h. read_reply E h path = Inr content" and "scan_raw content = Inr []"
    and "int n \<le> max_csv_file_size_bytes S" and "0 < upload_max_concurrency S"
    and "\<And>h st. sql_reply E h st = None" and "\<And>h ch tag. ack_reply E h ch tag = None"
    and "\<And>h c. upload_reply E h c = UploadReturned"
  shows "\<exists>e w'. run_watcher E S [Detected path] w = (Return (), w')
    \<and> publications (length (history w)) (new_actions w w') = [event_message E S e]
    \<and> (\<forall>v ch tag. select_key (table v) (idempotencyKey e) \<or> stored_in_both E S path cs e ch tag v)"
proof -
  have "watchable E S path" using assms(5-7) by (auto simp: watchable_def)
  then obtain e w' where e: "run_watcher E S [Detected path] w = (Return (), w')" "event_of_file E S path e"
    "publications (length (history w)) (new_actions w w') = [event_message E S e]"
    using run_publishes [OF assms(2-4), of "[Detected path]" w] by (auto simp: list_all2_Cons1)
  with clean_message_stored [OF assms(1) e(2) assms(5-14)] show ?thesis by blast
qed

theorem dropped_file_reaches_both_clouds_witness:
  "\<exists>e w'. run_watcher sample_env default_settings [Detected sample_path] sample_world = (Return (), w')
    \<and> publications 0 (new_actions sample_world w') = [event_message sample_env default_settings e]
    \<and> (\<forall>v ch tag. select_key (table v) (idempotencyKey e)
        \<or> stored_in_both sample_env default_settings sample_path [lit ''orders.csv''] e ch tag v)"
proof -
  have "json_laws sample_env" unfolding sample_env_def by (rule sample_json_laws)
  from dropped_file_reaches_both_clouds [OF this sample_calm_broker sample_sound_host sample_settings_ok sample_located
    sample_file_facts _ _ sample_scan, of sample_world]
  show ?thesis
    by (simp add: sample_env_def [unfolded sample_env_of_def] default_settings_def)
      (simp add: sample_world_def)
qed

section \<open>Digest and key\<close>

text \<open>Streaming a file through SHA-256 gives the digest of its content, whatever the sizes of the reads before
  the first empty one.\<close>

theorem streamed_digest_is_sha256:
  assumes "\<And>h. chunks_reply E h path = Inr (reads @ [] # rest)" and "[] \<notin> set reads"
  shows "\<exists>w'. sha256_file E path w = (Return (hex_of (sha256 (concat reads))), w')"
proof -
  have "takeWhile (\<lambda>c. c \<noteq> []) (reads @ [] # rest) = reads" using assms(2) by (intro takeWhile_append_stop) auto
  then show ?thesis by (simp add: sha256_file_def ask_def assms(1) bind_io_def ret_io_def hexdigest_def sha_stream)
qed

theorem streamed_digest_is_sha256_witness:
  "\<exists>w'. sha256_file (sample_env\<lparr>chunks_reply := \<lambda>_ _. Inr ([[1, 2], [3]] @ [] # [])\<rparr>) sample_path sample_world
    = (Return (hex_of (sha256 (concat [[1, 2], [3]]))), w')"
  by (rule streamed_digest_is_sha256 [where reads = "[[1, 2], [3]]" and rest = "[]"]) simp_all

text \<open>The idempotency key is the HMAC of a message that determines the file: two files have the same message
  exactly if path, size and digest agree, although a path may contain the separator.\<close>

theorem key_message_determines_file:
  assumes "str_ok secret" and "str_ok p" and "str_ok q"
  shows "\<exists>k m m'. utf8_encode secret = Inr k
    \<and> compute_idempotency_key secret p (int i) (hex_of (sha256 c)) = Inr (lit ''sha256:'' @ hex_of (hmac_sha256 k m))
    \<and> compute_idempotency_key secret q (int j) (hex_of (sha256 d)) = Inr (lit ''sha256:'' @ hex_of (hmac_sha256 k m'))
    \<and> (m = m' \<longleftrightarrow> p = q \<and> i = j \<and> sha256 c = sha256 d)"
proof -
  obtain m k where m: "utf8_encode (key_message p (int i) (hex_of (sha256 c))) = Inr m" "utf8_encode secret = Inr k"
    "compute_idempotency_key secret p (int i) (hex_of (sha256 c)) = Inr (lit ''sha256:'' @ hex_of (hmac_sha256 k m))"
    using compute_key_scalar [OF assms(1,2) hex_of_lower] by blast
  obtain m' where m': "utf8_encode (key_message q (int j) (hex_of (sha256 d))) = Inr m'"
    "compute_idempotency_key secret q (int j) (hex_of (sha256 d)) = Inr (lit ''sha256:'' @ hex_of (hmac_sha256 k m'))"
    using compute_key_scalar [OF assms(1,3) hex_of_lower] m(2) by fastforce
  have "m = m' \<longleftrightarrow> key_message p (int i) (hex_of (sha256 c)) = key_message q (int j) (hex_of (sha256 d))"
    using utf8_decode_encode [OF m(1)] utf8_decode_encode [OF m'(1)] m(1) m'(1) by auto
  also have "\<dots> \<longleftrightarrow> p = q \<and> i = j \<and> sha256 c = sha256 d"
  proof
    assume "key_message p (int i) (hex_of (sha256 c)) = key_message q (int j) (hex_of (sha256 d))"
    from key_message_inj [OF this _ _ hex_of_lower hex_of_lower] show "p = q \<and> i = j \<and> sha256 c = sha256 d"
      using hex_of_inj by auto
  qed simp
  finally show ?thesis using m m' by blast
qed

theorem key_message_determines_file_witness:
  "\<exists>k m m'. utf8_encode (lit ''s'') = Inr k
    \<and> compute_idempotency_key (lit ''s'') (lit ''/a|1'') (int 2) (hex_of (sha256 [])) = Inr (lit ''sha256:'' @ hex_of (hmac_sha256 k m))
    \<and> compute_idempotency_key (lit ''s'') (lit ''/a'') (int 12) (hex_of (sha256 [])) = Inr (lit ''sha256:'' @ hex_of (hmac_sha256 k m'))
    \<and> m \<noteq> m'"
  using key_message_determines_file [of "lit ''s''" "lit ''/a|1''" "lit ''/a''" 2 "[]" 12 "[]"] by (simp add: str_ok_def)

section \<open>Every outside world\<close>

text \<open>C28. Whatever broker, file system and clock do, over a run of the watcher the metric of published events grows by
  exactly the number of messages that the broker confirmed.\<close>

theorem published_metric_is_exact:
  "EVENTS_PUBLISHED_TOTAL (counters (snd (run_watcher E S items w)))
    = EVENTS_PUBLISHED_TOTAL (counters w) + messages (new_actions w (snd (run_watcher E S items w)))"
proof -
  obtain r w' where run: "run_watcher E S items w = (r, w')" by fastforce
  have "published_balance w w'" by (rule keepsD [OF books.keeps_run run])
  moreover obtain h where "history w' = history w @ h"
    using keepsD [OF growth.keeps_run run] by (auto simp: grows_def)
  ultimately show ?thesis by (simp add: run published_balance_def new_actions_append)
qed

text \<open>C29. However a watcher whose observer runs ends - by the stop event or by an exception that leaves the loop - its last
  calls stop and join the observer and close the connection it holds, which is the one it set up last, also after
  reconnects, and it reports itself not ready. (What pika raises from a publication is an \<open>Exception\<close>.)\<close>

theorem watcher_always_cleans_up:
  assumes "connect_and_setup E S w = (Return (conn, ch, pb), w1)"
    and "observer_reply E (history w1) (watch_dir S) = None"
    and "\<And>h ch p x. publish_reply E h ch p = Some x \<Longrightarrow> isinstance x Exception"
  shows "\<exists>r w' a g. run_watcher E S items w = (r, w')
    \<and> history w' = history w1 @ ObserverStart (watch_dir S) # g @ [ObserverStop, ObserverJoin, a]
    \<and> closes (last (confirmed_channels (history w1 @ g))) a
    \<and> map_of (readiness w') (lit ''watcher'') = Some False"
  by (rule run_watcher_cleanup [OF assms])

theorem watcher_always_cleans_up_witness:
  "\<exists>r w' a g. run_watcher refusing_env default_settings [Detected sample_path] sample_world = (r, w')
    \<and> history w' = history (extend (setup_actions 0 default_settings) sample_world)
        @ ObserverStart (watch_dir default_settings) # g @ [ObserverStop, ObserverJoin, a]
    \<and> closes (last (confirmed_channels (history (extend (setup_actions 0 default_settings) sample_world) @ g))) a
    \<and> map_of (readiness w') (lit ''watcher'') = Some False"
proof -
  have up: "connect_and_setup refusing_env default_settings sample_world
      = (Return (0, 0, watcher_publisher 0 default_settings), extend (setup_actions 0 default_settings) sample_world)"
    by (simp add: refusing_env_def sample_env_def sample_env_of_def connect_and_setup_def connect_def open_channel_def
      declare_topology_def queue_declare_def mk_publisher_def call_def bind_io_def get_io_def ret_io_def add_extend
      watcher_publisher_def setup_actions_def) (simp add: sample_world_def)
  have exc: "publish_reply refusing_env h ch p = Some x \<Longrightarrow> isinstance x Exception" for h ch p x
    by (auto simp: refusing_env_def nack_error_def)
  show ?thesis
    by (rule watcher_always_cleans_up [OF up _ exc]) (simp_all add: refusing_env_def sample_env_def sample_env_of_def)
qed

section \<open>Two defects\<close>

text \<open>C38. A file whose message the broker refuses twice is forgotten: the watcher logs, goes on and ends normally;
  nothing was published or counted, and nothing of the file is kept for a later attempt.\<close>

theorem refused_files_are_forgotten:
  assumes "refusing_broker E" and "sound_host E" and "settings_ok S"
    and "\<forall>path \<in> set (detected items). watchable E S path"
  shows "\<exists>w'. run_watcher E S items w = (Return (), w') \<and> messages (new_actions w w') = 0
    \<and> EVENTS_PUBLISHED_TOTAL (counters w') = EVENTS_PUBLISHED_TOTAL (counters w)"
proof -
  obtain w' where run: "run_watcher E S items w = (Return (), w')" and none: "messages (new_actions w w') = 0"
    using refused_run [OF assms] by blast
  have "published_balance w w'" by (rule keepsD [OF books.keeps_run run])
  moreover obtain h where "history w' = history w @ h"
    using keepsD [OF growth.keeps_run run] by (auto simp: grows_def)
  ultimately show ?thesis using run none by (auto simp: published_balance_def new_actions_append)
qed

theorem refused_files_are_forgotten_witness:
  "\<exists>w'. run_watcher refusing_env default_settings [Detected sample_path, QueueTimeout] sample_world = (Return (), w')
    \<and> messages (new_actions sample_world w') = 0
    \<and> EVENTS_PUBLISHED_TOTAL (counters w') = EVENTS_PUBLISHED_TOTAL (counters sample_world)"
  by (rule refused_files_are_forgotten [OF refusing_sample(1,2) sample_settings_ok]) (simp add: refusing_sample(3))

text \<open>When the observer cannot be started - a missing drop directory, exhausted inotify watches - the watcher ends
  with that exception, but stays reported as ready and leaves its connection open: both are set up before the
  \<open>try\<close> block.\<close>

theorem failed_observer_stays_ready:
  assumes "calm_broker (E\<lparr>observer_reply := \<lambda>_ _. None\<rparr>)" and "\<And>h. observer_reply E h (watch_dir S) = Some x"
  shows "\<exists>w'. run_watcher E S items w = (Raise x, w') \<and> map_of (readiness w') (lit ''watcher'') = Some True
    \<and> new_actions w w' = setup_actions (length (history w)) S @ [ObserverStartFailed (watch_dir S) x]"
  using assms
  by (simp add: run_watcher_def connect_and_setup_def connect_def open_channel_def declare_topology_def queue_declare_def
    mk_publisher_def call_def bind_io_def get_io_def ret_io_def setup_actions_def calm_broker_def set_ready_def
    modify_io_def observer_start_def update_conv' new_actions_def)

theorem failed_observer_stays_ready_witness:
  "\<exists>w'. run_watcher blind_env default_settings [Detected sample_path] sample_world = (Raise os_error, w')
    \<and> map_of (readiness w') (lit ''watcher'') = Some True
    \<and> new_actions sample_world w' = setup_actions (length (history sample_world)) default_settings
        @ [ObserverStartFailed (watch_dir default_settings) os_error]"
  by (rule failed_observer_stays_ready)
    (use sample_calm_broker in \<open>simp_all add: calm_broker_def blind_env_def\<close>)

end
