(* ===== verification/Logging.thy ===== *)
theory Logging
  imports Json_Text Utils
begin

text \<open>
  Logging, \<open>worker/src/logging_setup.py\<close>: the JSON text of one log record and the set-up of the
  root logger, which refuses an unknown level. \<open>formatTime\<close> of the standard library writes the
  local time of the record; the formatter appends \<open>Z\<close> to it whatever the time zone is.
\<close>

section \<open>The formatter\<close>

text \<open>
  \<open>extra\<close> gives the attribute of the record with a name, if it has one; values of other types
  than JSON's are turned into strings by \<open>default=str\<close> before.
\<close>

record log_record =
  log_time :: timestamp
  levelname :: pystr
  log_name :: pystr
  log_message :: pystr
  extra :: "pystr \<Rightarrow> json option"
  exc_info :: "pystr option"

definition extra_fields :: "pystr list" where
  "extra_fields = [lit ''correlationId'', lit ''eventId'', lit ''idempotencyKey'', lit ''attempt'']"

definition present_extras :: "log_record \<Rightarrow> (pystr \<times> json) list" where
  "present_extras r = List.map_filter
     (\<lambda>f. case extra r f of None \<Rightarrow> None | Some v \<Rightarrow> if v = JNull then None else Some (f, v)) extra_fields"

definition log_payload :: "pystr \<Rightarrow> log_record \<Rightarrow> json" where
  "log_payload service r = JObj (
     [(lit ''timestamp'', JStr (iso_text (log_time r) @ lit ''Z'')),
      (lit ''level'', JStr (levelname r)),
      (lit ''service'', JStr service),
      (lit ''logger'', JStr (log_name r)),
      (lit ''message'', JStr (log_message r))]
     @ present_extras r
     @ (case exc_info r of None \<Rightarrow> [] | Some t \<Rightarrow> [(lit ''exc_info'', JStr t)]))"

definition log_format :: "pystr \<Rightarrow> log_record \<Rightarrow> pystr" where
  "log_format service r = dumps (log_payload service r)"

section \<open>Set-up\<close>

text \<open>The root logger: its handlers, each known by the service name it writes, and its level.\<close>

record root_logger =
  log_handlers :: "pystr list"
  root_level :: nat

definition level_names :: "(pystr \<times> nat) list" where
  "level_names = [(lit ''CRITICAL'', 50), (lit ''FATAL'', 50), (lit ''ERROR'', 40), (lit ''WARN'', 30),
     (lit ''WARNING'', 30), (lit ''INFO'', 20), (lit ''DEBUG'', 10), (lit ''NOTSET'', 0)]"

text \<open>
  \<open>level.upper()\<close> as far as it can give a level name: besides the ASCII letters only the dotless
  i and the long s have a capital letter of one of the names.
\<close>

definition upper_name :: "pystr \<Rightarrow> pystr" where
  "upper_name s = map (\<lambda>c. if 97 \<le> c \<and> c \<le> 122 then c - 32 else if c = 305 then 73 else if c = 383 then 83 else c) s"

definition configure_logging :: "pystr \<Rightarrow> pystr \<Rightarrow> root_logger \<Rightarrow> exn option \<times> root_logger" where
  "configure_logging service level lg =
     (let lg' = lg\<lparr>log_handlers := [service]\<rparr>
      in case map_of level_names (upper_name level) of
           None \<Rightarrow> (Some (value_error ''Unknown level''), lg')
         | Some n \<Rightarrow> (None, lg'\<lparr>root_level := n\<rparr>))"

section \<open>Lemmas\<close>

lemma present_extras_values: "(k, v) \<in> set (present_extras r) \<Longrightarrow> k \<in> set extra_fields \<and> extra r k = Some v"
  by (auto simp: present_extras_def List.map_filter_def split: option.splits if_splits)

lemma log_format_printable:
  assumes "\<And>f v. extra r f = Some v \<Longrightarrow> printable_numbers v"
  shows "printable (log_format service r)"
proof -
  have "list_all (\<lambda>(k, j). printable_numbers j) (present_extras r)"
    using assms present_extras_values by (fastforce simp: list_all_iff)
  then show ?thesis
    unfolding log_format_def by (intro printable_dumps) (simp add: log_payload_def split: option.split)
qed

end
