(* ===== verification/Worker_Main.thy ===== *)
theory Worker_Main
  imports Consumer Watcher Logging
begin

text \<open>
  The process, \<open>worker/src/main.py\<close>: the start, the two threads and the main thread that serves
  the health endpoint until a signal. \<open>run_consumer\<close> is the consumer thread's body with its two
  nested \<open>finally\<close> blocks. The threads run beside each other; \<open>process_step\<close> has one step
  for every change of a readiness flag or the stop event that they make, in any order.
\<close>

section \<open>The bodies of the threads\<close>

text \<open>\<open>except Exception: logger.exception(...); raise\<close>\<close>

definition log_and_reraise :: "('s, 'a) io \<Rightarrow> ('s, 'a) io" where
  "log_and_reraise m = try_except m Exception raise_io"

definition watcher_thread :: "environ \<Rightarrow> settings \<Rightarrow> watch_item list \<Rightarrow> (world, unit) io" where
  "watcher_thread E S items = log_and_reraise (run_watcher E S items)"

definition run_consumer :: "environ \<Rightarrow> settings \<Rightarrow> (bool \<times> consume_item) list \<Rightarrow> (world, unit) io" where
  "run_consumer E S items =
     bind_io (connect_and_setup E S) (\<lambda>(conn, ch, pb).
     try_finally
       (log_and_reraise
         (bind_io (open_store E (idempotency_db_path S)) (\<lambda>_.
          try_finally
            (bind_io (set_ready (lit ''consumer'') True) (\<lambda>_.
             bind_io (mk_consumer E ch pb S) (\<lambda>C.
             run E C items)))
            close_store)))
       (seq_io [set_ready (lit ''consumer'') False, close_connection E conn]))"

section \<open>The start\<close>

definition worker_components :: "pystr list" where
  "worker_components = [lit ''watcher'', lit ''consumer'']"

text \<open>What happens before the threads start: settings, logging, readiness flags.\<close>

definition start_worker :: "environment \<Rightarrow> root_logger \<Rightarrow> exn + (settings \<times> root_logger \<times> status)" where
  "start_worker env lg = bind_sum (from_env env) (\<lambda>S.
     case configure_logging (service_name S) (log_level S) lg of
       (Some e, lg') \<Rightarrow> Inl e
     | (None, lg') \<Rightarrow> Inr (S, lg', new_readiness worker_components))"

section \<open>The process\<close>

text \<open>
  A thread before its readiness report, after it, and ended. The watcher reports ready when it has
  a connection, the consumer when it has a connection and its table. Once its observer runs (\<open>observed\<close>) the watcher is inside
  its \<open>try\<close> block and takes its report back when it ends; when the observer cannot be started, it does not. The main
  thread serves requests until the stop event is set; without its port it sets the event itself and ends.
\<close>

datatype thread_phase = Starting | Reported | Ended

text \<open>A thread moves through its phases in this order.\<close>

fun phase_rank :: "thread_phase \<Rightarrow> nat" where
  "phase_rank Starting = 0"
| "phase_rank Reported = 1"
| "phase_rank Ended = 2"

lemma phase_rank_eq: "phase_rank a = phase_rank b \<longleftrightarrow> a = b"
  by (cases a; cases b) simp_all

lemma phase_rank_le: "phase_rank a \<le> 2"
  by (cases a) simp_all

instantiation thread_phase :: linorder
begin

definition less_eq_thread_phase :: "thread_phase \<Rightarrow> thread_phase \<Rightarrow> bool" where
  "a \<le> b \<longleftrightarrow> phase_rank a \<le> phase_rank b"

definition less_thread_phase :: "thread_phase \<Rightarrow> thread_phase \<Rightarrow> bool" where
  "a < b \<longleftrightarrow> phase_rank a < phase_rank b"

instance
  by standard (auto simp: less_eq_thread_phase_def less_thread_phase_def phase_rank_eq)

end

record process =
  flags :: status
  watcher_phase :: thread_phase
  consumer_phase :: thread_phase
  serving :: bool
  stopping :: bool
  exited :: bool
  observed :: bool

definition new_process :: process where
  "new_process = \<lparr>flags = new_readiness worker_components, watcher_phase = Starting, consumer_phase = Starting,
     serving = False, stopping = False, exited = False, observed = False\<rparr>"

inductive process_step :: "process \<Rightarrow> process \<Rightarrow> bool" where
  watcher_up: "\<not> exited p \<Longrightarrow> watcher_phase p = Starting \<Longrightarrow>
    process_step p (p\<lparr>watcher_phase := Reported, flags := AList.update (lit ''watcher'') True (flags p)\<rparr>)"
| watcher_no_broker: "\<not> exited p \<Longrightarrow> watcher_phase p = Starting \<Longrightarrow> process_step p (p\<lparr>watcher_phase := Ended\<rparr>)"
| watcher_no_observer: "\<not> exited p \<Longrightarrow> watcher_phase p = Reported \<Longrightarrow> \<not> observed p \<Longrightarrow> process_step p (p\<lparr>watcher_phase := Ended\<rparr>)"
| watcher_observes: "\<not> exited p \<Longrightarrow> watcher_phase p = Reported \<Longrightarrow> process_step p (p\<lparr>observed := True\<rparr>)"
| watcher_down: "\<not> exited p \<Longrightarrow> watcher_phase p = Reported \<Longrightarrow> observed p \<Longrightarrow>
    process_step p (p\<lparr>watcher_phase := Ended, flags := AList.update (lit ''watcher'') False (flags p)\<rparr>)"
| consumer_up: "\<not> exited p \<Longrightarrow> consumer_phase p = Starting \<Longrightarrow>
    process_step p (p\<lparr>consumer_phase := Reported, flags := AList.update (lit ''consumer'') True (flags p)\<rparr>)"
| consumer_no_broker: "\<not> exited p \<Longrightarrow> consumer_phase p = Starting \<Longrightarrow> process_step p (p\<lparr>consumer_phase := Ended\<rparr>)"
| consumer_down: "\<not> exited p \<Longrightarrow> consumer_phase p \<noteq> Ended \<Longrightarrow>
    process_step p (p\<lparr>consumer_phase := Ended, flags := AList.update (lit ''consumer'') False (flags p)\<rparr>)"
| signalled: "\<not> exited p \<Longrightarrow> process_step p (p\<lparr>stopping := True\<rparr>)"
| health_up: "\<not> exited p \<Longrightarrow> \<not> serving p \<Longrightarrow> process_step p (p\<lparr>serving := True\<rparr>)"
| health_port_taken: "\<not> exited p \<Longrightarrow> \<not> serving p \<Longrightarrow> process_step p (p\<lparr>stopping := True, exited := True\<rparr>)"
| main_exit: "\<not> exited p \<Longrightarrow> serving p \<Longrightarrow> stopping p \<Longrightarrow> process_step p (p\<lparr>serving := False, exited := True\<rparr>)"

inductive_cases process_stepE: "process_step p q"

definition reachable :: "process \<Rightarrow> bool" where
  "reachable p \<longleftrightarrow> process_step\<^sup>*\<^sup>* new_process p"

end
