(* ===== verification/Worker_Lemmas.thy ===== *)
theory Worker_Lemmas
  imports Worker_Main Watcher_Lemmas
begin

text \<open>
  What the threads do to the readiness flags: \<open>handler_frame\<close> and \<open>outside_frame\<close> collect what every operation of
  the consumer keeps, and \<open>watcher_thread_steps\<close> and \<open>consumer_thread_steps\<close> show that
  the steps of \<open>process_step\<close> are those of the threads' bodies.
\<close>

section \<open>What the handler keeps\<close>

text \<open>The calls a handler makes, answered or not.\<close>

fun handler_action :: "action \<Rightarrow> bool" where
  "handler_action (Published c p) \<longleftrightarrow> True"
| "handler_action (PublishFailed c p x) \<longleftrightarrow> True"
| "handler_action (Acked c tag) \<longleftrightarrow> True"
| "handler_action (AckFailed c tag x) \<longleftrightarrow> True"
| "handler_action (IsFile path) \<longleftrightarrow> True"
| "handler_action (GetSize path) \<longleftrightarrow> True"
| "handler_action (ReadFile path) \<longleftrightarrow> True"
| "handler_action (UploadStart c) \<longleftrightarrow> True"
| "handler_action (UploadEnd c out) \<longleftrightarrow> True"
| "handler_action (UploadTimeout c) \<longleftrightarrow> True"
| "handler_action (JoinThreads cs b) \<longleftrightarrow> True"
| "handler_action (Sql st) \<longleftrightarrow> True"
| "handler_action (SqlFailed st x) \<longleftrightarrow> True"
| "handler_action _ \<longleftrightarrow> False"

lemma handler_wait_end: "handler_action (wait_end c out)"
  by (cases out) simp_all

locale handler_frame =
  fixes R :: "world \<Rightarrow> world \<Rightarrow> bool"
  assumes preorder: "preorder_rel R"
    and action: "handler_action a \<Longrightarrow> R w (add_action a w)"
    and count: "EVENTS_PUBLISHED_TOTAL c = EVENTS_PUBLISHED_TOTAL (counters w) \<Longrightarrow> R w (w\<lparr>counters := c\<rparr>)"
    and rows: "R w (w\<lparr>table := t\<rparr>)"
begin

lemma outside_call: "handler_action ok \<Longrightarrow> (\<And>x. handler_action (bad x)) \<Longrightarrow> keeps R (call reply ok bad)"
  by (auto simp: keeps_def call_def action split: option.splits)

lemma outside_ask: "handler_action a \<Longrightarrow> keeps R (ask reply a)"
  by (auto simp: keeps_def ask_def action split: sum.splits)

lemma changes: "handler_action a \<Longrightarrow> keeps R (modify_io (add_action a))"
    "(\<And>w. EVENTS_PUBLISHED_TOTAL (f w) = EVENTS_PUBLISHED_TOTAL (counters w)) \<Longrightarrow> keeps R (modify_io (\<lambda>w. w\<lparr>counters := f w\<rparr>))"
    "keeps R (modify_io (\<lambda>w. w\<lparr>table := g w\<rparr>))"
  by (simp_all add: keeps_def modify_io_def action count rows)

lemma incs: "keeps R (inc_consumed r)" "keeps R (observe_duration p)" "keeps R (inc_uploads p r)"
    "keeps R inc_dlq" "keeps R inc_idempotency_hits" "keeps R (inc_csv_rejections t)"
  unfolding inc_defs by (rule changes, simp)+

lemma hang: "keeps R hang_io"
  using preorder by (simp add: keeps_def hang_io_def preorder_rel_def)

lemmas framing = preorder keeps_ret keeps_raise keeps_lift_sum keeps_get keeps_bind keeps_seq keeps_try keeps_finally
  changes incs hang

lemma frame_sql: "keeps R (sql E st)"
  unfolding sql_def by (rule outside_call) simp_all

lemma frame_publish: "keeps R (basic_publish E ch p)"
  unfolding basic_publish_def by (rule outside_call) simp_all

lemma frame_ack: "keeps R (basic_ack E ch tag)"
  unfolding basic_ack_def by (rule outside_call) simp_all

lemma frame_drive: "keeps R (drive E S path ds k waiting running res)"
proof (induction E S path ds k waiting running res rule: drive.induct)
  case (1 E S path ds k waiting running res)
  have start: "keeps R (start_one S path d)" for d
    by (auto simp: start_one_def intro!: framing split: option.split)
  have finish: "keeps R (finish_one E S path d)" for d
    by (auto simp: finish_one_def handler_wait_end intro!: framing split: option.split)
  show ?case
    unfolding drive.simps [of E S path ds k waiting running res]
  proof (intro keeps_if)
    assume a: "waiting \<noteq> [] \<and> length running < k"
    show "keeps R (bind_io (start_one S path (ds ! hd waiting)) (\<lambda>_.
        drive E S path ds k (tl waiting) (running @ [hd waiting]) res))"
      by (rule keeps_bind [OF preorder start "1.IH"(1) [OF a]])
  next
    assume a: "\<not> (waiting \<noteq> [] \<and> length running < k)" "running \<noteq> []"
    show "keeps R (\<lambda>w. let n = upload_next E (history w) mod length running; j = running ! n
            in bind_io (finish_one E S path (ds ! j)) (\<lambda>r.
               drive E S path ds k waiting (take n running @ drop (Suc n) running) (res(j \<mapsto> r))) w)"
    proof (rule keepsI)
      fix w :: world
      define n where "n = upload_next E (history w) mod length running"
      have "keeps R (bind_io (finish_one E S path (ds ! (running ! n))) (\<lambda>r.
          drive E S path ds k waiting (take n running @ drop (Suc n) running) (res(running ! n \<mapsto> r))))"
        by (rule keeps_bind [OF preorder finish], rule "1.IH"(2) [OF a n_def], rule refl)
      then show "R w (snd (let n = upload_next E (history w) mod length running; j = running ! n
            in bind_io (finish_one E S path (ds ! j)) (\<lambda>r.
               drive E S path ds k waiting (take n running @ drop (Suc n) running) (res(j \<mapsto> r))) w))"
        by (simp add: keeps_def n_def Let_def)
    qed
  qed (intro framing)+
qed

lemma frame_history: "list_all handler_action h \<Longrightarrow> R w (w\<lparr>history := history w @ h\<rparr>)"
proof (induction h arbitrary: w)
  case Nil
  then show ?case using preorder by (simp add: preorder_rel_def)
next
  case (Cons a h)
  then have "R w (add_action a w)" "R (add_action a w) ((add_action a w)\<lparr>history := history (add_action a w) @ h\<rparr>)"
    using Cons.IH [of "add_action a w"] Cons.prems action by auto
  then have "R w ((add_action a w)\<lparr>history := history (add_action a w) @ h\<rparr>)"
    using preorder unfolding preorder_rel_def by blast
  then show ?case by (simp add: add_action_def)
qed

lemma frame_run_uploads: "keeps R (run_uploads E S e path)"
proof (rule keepsI)
  fix w :: world
  obtain r w' where m: "upload_all E S e path w = (r, w')" by fastforce
  have "keeps R (upload_all E S e path)" unfolding upload_all_def by (intro keeps_if framing frame_drive)
  then have "R w w'" using m by (rule keepsD)
  moreover have "R w' (w'\<lparr>history := history w' @ join_actions E g h\<rparr>)" for g h
    by (rule frame_history) (simp add: join_actions_def split: list.split)
  ultimately show "R w (snd (run_uploads E S e path w))"
    using preorder unfolding preorder_rel_def by (cases r) (auto simp: run_uploads_def asyncio_run_def m)
qed

lemma frame_dlq_and_ack: "m \<in> set (dlq_and_ack E C tag e reason) \<Longrightarrow> keeps R m"
  by (auto simp: dlq_and_ack_def publish_dlq_def publish_def intro: frame_publish frame_ack incs)

lemma frame_handle_results: "keeps R (handle_results E C tag e rs)"
  unfolding handle_results_def Let_def
  by (auto intro!: framing frame_sql frame_publish frame_ack intro: frame_dlq_and_ack
    simp: mark_done_def publish_retry_def publish_def)

lemma frame_handle: "keeps R (handle E C tag props body)"
proof -
  have scan: "keeps R (scan_csv_file E S p)" for S p
    unfolding scan_csv_file_def by (auto intro!: framing outside_ask)
  have known: "keeps R (is_done E k)" for k unfolding is_done_def by (auto intro!: framing frame_sql)
  show ?thesis
    unfolding handle_def Let_def
    by (auto intro!: framing scan known frame_run_uploads frame_handle_results frame_publish frame_ack outside_ask
      split: sum.split simp: dead_letter_raw_def)
      (erule frame_dlq_and_ack)+
qed

lemma frame_loop: "keeps R (consume_loop E C items)"
proof (induction items)
  case Nil
  show ?case by (simp add: framing)
next
  case (Cons x items)
  obtain stop item where x: "x = (stop, item)" by fastforce
  show ?case by (cases item) (auto simp: x intro!: framing frame_handle Cons.IH)
qed

end

text \<open>With the calls around the loop: the connection, the topology, the table's file.\<close>

locale outside_frame = handler_frame +
  assumes any_action: "R w (add_action a w)"
begin

lemma any_call: "keeps R (call reply ok bad)"
  by (rule keeps_call) (rule any_action)

lemma frame_run: "keeps R (run E C items)"
  unfolding run_def by (intro framing frame_loop any_call)

lemma frame_open: "keeps R (open_store E path)"
  unfolding open_store_def by (auto intro!: framing any_call frame_sql)

lemma frame_close: "keeps R close_store"
  unfolding close_store_def by (simp add: keeps_def modify_io_def any_action)

lemma frame_mk_consumer: "keeps R (mk_consumer E ch pb S)"
  unfolding mk_consumer_def Let_def by (intro framing any_call)

lemma frame_setup: "keeps R (connect_and_setup E S)"
  unfolding connect_and_setup_def connect_def open_channel_def declare_topology_def queue_declare_def mk_publisher_def
  by (intro framing any_call) (auto intro!: framing any_call)

end

interpretation consumer_flags: outside_frame same_flags
  by unfold_locales (auto simp: preorder_rel_def same_flags_def)

interpretation consumer_history: outside_frame grows
  by unfold_locales (auto simp: preorder_grows grows_add grows_def)

section \<open>The threads as steps of the process\<close>

lemma log_and_reraise_same: "log_and_reraise m = m"
  by (rule ext) (auto simp: log_and_reraise_def try_except_def raise_io_def split: prod.split outcome.split)

text \<open>How a run of the watcher ends, seen from its flag and its observer.\<close>

definition observes :: "settings \<Rightarrow> world \<Rightarrow> world \<Rightarrow> bool" where
  "observes S w w' \<longleftrightarrow> ObserverStart (watch_dir S) \<in> set (new_actions w w')"

lemma setup_observes_nothing: "connect_and_setup E S w = (r, w1) \<Longrightarrow> \<not> observes S w w1 \<and> grows w w1"
  by (auto simp: observes_def grows_def new_actions_def connect_and_setup_def connect_def open_channel_def declare_topology_def
    queue_declare_def mk_publisher_def call_def bind_io_def get_io_def ret_io_def split: option.splits)

definition watcher_ends :: "settings \<Rightarrow> world \<Rightarrow> world \<Rightarrow> bool" where
  "watcher_ends S w w' \<longleftrightarrow> (let st = readiness w; st' = readiness w' in
     if observes S w w' then st' = AList.update (lit ''watcher'') False (AList.update (lit ''watcher'') True st)
     else st' = st \<or> st' = AList.update (lit ''watcher'') True st)"

lemma run_watcher_flags:
  "fst (run_watcher E S items w) \<noteq> Hang \<and> watcher_ends S w (snd (run_watcher E S items w))"
proof -
  obtain r1 w1 where up: "connect_and_setup E S w = (r1, w1)" by fastforce
  have f1: "readiness w1 = readiness w" using keepsD [OF consumer_flags.frame_setup up] by (simp add: same_flags_def)
  have none: "\<not> observes S w w1" "grows w w1" using setup_observes_nothing [OF up] by simp_all
  have "r1 \<noteq> Hang" using setup_never_hangs [of E S] up by (auto simp: never_hangs_def dest!: spec [of _ w])
  show ?thesis
  proof (cases r1)
    case (Raise x)
    then show ?thesis using none by (simp add: run_watcher_def bind_io_def up f1 watcher_ends_def)
  next
    case (Return y)
    obtain conn ch pb where y: "y = (conn, ch, pb)" by (cases y) auto
    define w2 where "w2 = w1\<lparr>readiness := AList.update (lit ''watcher'') True (readiness w1)\<rparr>"
    have set: "set_ready (lit ''watcher'') True w1 = (Return (), w2)" by (simp add: set_ready_def modify_io_def w2_def)
    show ?thesis
    proof (cases "observer_reply E (history w2) (watch_dir S)")
      case (Some x)
      then have obs: "observer_start E S w2 = (Raise x, add_action (ObserverStartFailed (watch_dir S) x) w2)"
        by (simp add: observer_start_def call_def)
      have "\<not> observes S w (add_action (ObserverStartFailed (watch_dir S) x) w2)"
        using none by (auto simp: observes_def grows_def new_actions_def w2_def)
      then show ?thesis by (simp add: run_watcher_def bind_io_def up Return y set obs watcher_ends_def) (simp add: w2_def f1)
    next
      case None
      define w3 where "w3 = add_action (ObserverStart (watch_dir S)) w2"
      have obs: "observer_start E S w2 = (Return (), w3)" using None by (simp add: observer_start_def call_def w3_def)
      obtain pending c w4 where loop: "watch_loop E S items conn pb w3 = (Return (pending, c), w4)" using loop_returns by blast
      have "readiness w4 = readiness w3" using keepsD [OF loop_flags.keeps_loop loop] by (simp add: same_flags_def)
      then have f4: "readiness w4 = AList.update (lit ''watcher'') True (readiness w)" by (simp add: w3_def w2_def f1)
      obtain r5 w5 where fin: "watcher_finally E c w4 = (r5, w5)" by fastforce
      then have f5: "readiness w5 = AList.update (lit ''watcher'') False (readiness w4)" "r5 \<noteq> Hang"
        by (auto simp: watcher_finally_def close_quietly_def close_connection_def call_def try_except_def bind_io_def
          set_ready_def modify_io_def ret_io_def split: option.splits if_splits)
      have "grows w3 w4" "grows w4 w5" using keepsD [OF growth.keeps_loop loop] keepsD [OF growth.keeps_cleanup fin] by simp_all
      then have "observes S w w5" using none(2) by (auto simp: observes_def grows_def new_actions_def w3_def w2_def)
      moreover have "\<exists>r. run_watcher E S items w = (r, w5) \<and> r \<noteq> Hang"
        using f5(2) by (cases r5; cases pending)
          (simp_all add: run_watcher_def bind_io_def up Return y set obs loop fin ret_io_def raise_io_def)
      ultimately show ?thesis using f5(1) f4 by (auto simp: watcher_ends_def)
    qed
  qed (use \<open>r1 \<noteq> Hang\<close> in simp)
qed

lemma watcher_thread_steps:
  assumes "\<not> exited p" and "watcher_phase p = Starting" and "\<not> observed p" and "flags p = readiness w"
  shows "\<exists>q. process_step\<^sup>*\<^sup>* p q \<and> watcher_phase q = Ended \<and> flags q = readiness (snd (watcher_thread E S items w))
    \<and> (observed q \<longleftrightarrow> observes S w (snd (watcher_thread E S items w)))
    \<and> consumer_phase q = consumer_phase p \<and> exited q = exited p"
proof -
  let ?v = "snd (watcher_thread E S items w)"
  define up where "up = p\<lparr>watcher_phase := Reported, flags := AList.update (lit ''watcher'') True (flags p)\<rparr>"
  have 1: "process_step p up" unfolding up_def by (rule watcher_up [OF assms(1,2)])
  consider "readiness ?v = readiness w" "\<not> observes S w ?v"
    | "readiness ?v = AList.update (lit ''watcher'') True (readiness w)" "\<not> observes S w ?v"
    | "readiness ?v = AList.update (lit ''watcher'') False (AList.update (lit ''watcher'') True (readiness w))" "observes S w ?v"
    using run_watcher_flags [of E S items w] by (auto simp: watcher_thread_def log_and_reraise_same watcher_ends_def Let_def split: if_splits)
  then show ?thesis
  proof cases
    case 1
    then show ?thesis using watcher_no_broker [OF assms(1,2)] assms(3,4) by (intro exI [of _ "p\<lparr>watcher_phase := Ended\<rparr>"]) auto
  next
    case 2
    have "process_step up (up\<lparr>watcher_phase := Ended\<rparr>)" by (rule watcher_no_observer) (simp_all add: up_def assms(1,3))
    with 1 show ?thesis using 2 assms(3,4)
      by (intro exI [of _ "up\<lparr>watcher_phase := Ended\<rparr>"]) (auto simp: up_def)
  next
    case 3
    define on where "on = up\<lparr>observed := True\<rparr>"
    have 2: "process_step up on" unfolding on_def by (rule watcher_observes) (simp_all add: up_def assms(1))
    have "process_step on (on\<lparr>watcher_phase := Ended, flags := AList.update (lit ''watcher'') False (flags on)\<rparr>)"
      by (rule watcher_down) (simp_all add: on_def up_def assms(1))
    with 1 2 have "process_step\<^sup>*\<^sup>* p (on\<lparr>watcher_phase := Ended, flags := AList.update (lit ''watcher'') False (flags on)\<rparr>)"
      by (meson r_into_rtranclp rtranclp_trans)
    then show ?thesis using 3 assms(4)
      by (intro exI [of _ "on\<lparr>watcher_phase := Ended, flags := AList.update (lit ''watcher'') False (flags on)\<rparr>"])
        (simp add: on_def up_def)
  qed
qed

text \<open>How a run of the consumer ends, seen from its flag and its connection.\<close>

definition consumer_body :: "environ \<Rightarrow> settings \<Rightarrow> nat \<Rightarrow> publisher \<Rightarrow> (bool \<times> consume_item) list \<Rightarrow> (world, unit) io" where
  "consumer_body E S ch pb items = bind_io (open_store E (idempotency_db_path S)) (\<lambda>_.
     try_finally
       (bind_io (set_ready (lit ''consumer'') True) (\<lambda>_.
        bind_io (mk_consumer E ch pb S) (\<lambda>C.
        run E C items)))
       close_store)"

lemma consumer_body_grows: "keeps grows (consumer_body E S ch pb items)"
proof -
  have "keeps grows (set_ready c b)" for c b by (simp add: keeps_def set_ready_def modify_io_def grows_def)
  then show ?thesis
    unfolding consumer_body_def
    by (intro consumer_history.framing consumer_history.frame_open consumer_history.frame_mk_consumer
      consumer_history.frame_run consumer_history.frame_close)
qed

lemma consumer_body_flags:
  assumes b: "consumer_body E S ch pb items w = (r, w')"
  shows "readiness w' = readiness w \<or> readiness w' = AList.update (lit ''consumer'') True (readiness w)"
proof -
  obtain ro wo where o: "open_store E (idempotency_db_path S) w = (ro, wo)" by fastforce
  have fo: "readiness wo = readiness w" using keepsD [OF consumer_flags.frame_open o] by (simp add: same_flags_def)
  define ws where "ws = wo\<lparr>readiness := AList.update (lit ''consumer'') True (readiness wo)\<rparr>"
  have s: "set_ready (lit ''consumer'') True wo = (Return (), ws)" by (simp add: set_ready_def modify_io_def ws_def)
  obtain rm wm where m: "bind_io (mk_consumer E ch pb S) (\<lambda>C. run E C items) ws = (rm, wm)" by fastforce
  have "keeps same_flags (bind_io (mk_consumer E ch pb S) (\<lambda>C. run E C items))"
    by (intro consumer_flags.framing consumer_flags.frame_mk_consumer consumer_flags.frame_run)
  from keepsD [OF this m] have fm: "readiness wm = AList.update (lit ''consumer'') True (readiness w)"
    by (simp add: same_flags_def ws_def fo)
  show ?thesis
    using b fo fm
    by (cases ro; cases rm)
      (auto simp: consumer_body_def bind_io_def [of "open_store _ _"] o try_finally_def bind_io_def [of "set_ready _ _"] s m
        close_store_def modify_io_def)
qed

lemma run_consumer_cleanup:
  assumes up: "connect_and_setup E S w = (Return (conn, ch, pb), w1)"
    and r: "run_consumer E S items w = (r, w')" "r \<noteq> Hang"
  shows "\<exists>a g. closes conn a \<and> history w' = history w1 @ g @ [a]
    \<and> (readiness w' = AList.update (lit ''consumer'') False (readiness w)
     \<or> readiness w' = AList.update (lit ''consumer'') False (AList.update (lit ''consumer'') True (readiness w)))"
proof -
  define last where "last = seq_io [set_ready (lit ''consumer'') False, close_connection E conn]"
  have f1: "readiness w1 = readiness w" using keepsD [OF consumer_flags.frame_setup up] by (simp add: same_flags_def)
  have run: "run_consumer E S items w = try_finally (consumer_body E S ch pb items) last w1"
    by (simp add: run_consumer_def log_and_reraise_same bind_io_def up consumer_body_def last_def)
  obtain rb wb where b: "consumer_body E S ch pb items w1 = (rb, wb)" by fastforce
  have rb: "rb \<noteq> Hang" using r run by (auto simp: try_finally_def b)
  have g: "grows w1 wb" using consumer_body_grows b by (rule keepsD)
  obtain rl wl where l: "last wb = (rl, wl)" by fastforce
  have "\<exists>a. closes conn a \<and> history wl = history wb @ [a]" "readiness wl = AList.update (lit ''consumer'') False (readiness wb)"
    using l by (auto simp: last_def set_ready_def modify_io_def close_connection_def call_def bind_io_def ret_io_def closes_def
      split: option.splits)
  moreover have "w' = wl" using r run rb by (cases rb; cases rl) (auto simp: try_finally_def b l)
  ultimately show ?thesis using g consumer_body_flags [OF b] f1 by (auto simp: grows_def)
qed

lemma consumer_thread_steps:
  assumes "\<not> exited p" and "consumer_phase p = Starting" and "flags p = readiness w"
    and r: "run_consumer E S items w = (r, w')" "r \<noteq> Hang"
  shows "\<exists>q. process_step\<^sup>*\<^sup>* p q \<and> consumer_phase q = Ended \<and> flags q = readiness w' \<and> watcher_phase q = watcher_phase p
    \<and> observed q = observed p \<and> exited q = exited p"
proof -
  obtain r1 w1 where c: "connect_and_setup E S w = (r1, w1)" by fastforce
  have f1: "readiness w1 = readiness w" using keepsD [OF consumer_flags.frame_setup c] by (simp add: same_flags_def)
  show ?thesis
  proof (cases "\<exists>y. r1 = Return y")
    case False
    then have "w' = w1" using r c by (cases r1) (auto simp: run_consumer_def bind_io_def)
    then show ?thesis
      using consumer_no_broker [OF assms(1,2)] assms(3) f1 by (intro exI [of _ "p\<lparr>consumer_phase := Ended\<rparr>"]) auto
  next
    case True
    then obtain conn ch pb where up: "connect_and_setup E S w = (Return (conn, ch, pb), w1)" using c by (metis prod_cases3)
    have down: "process_step q (q\<lparr>consumer_phase := Ended, flags := AList.update (lit ''consumer'') False (flags q)\<rparr>)"
      if "\<not> exited q" "consumer_phase q \<noteq> Ended" for q
      using that by (rule consumer_down)
    define rep where "rep = p\<lparr>consumer_phase := Reported, flags := AList.update (lit ''consumer'') True (flags p)\<rparr>"
    have 1: "process_step p rep" unfolding rep_def by (rule consumer_up [OF assms(1,2)])
    from run_consumer_cleanup [OF up r]
    consider "readiness w' = AList.update (lit ''consumer'') False (readiness w)"
      | "readiness w' = AList.update (lit ''consumer'') False (AList.update (lit ''consumer'') True (readiness w))" by blast
    then show ?thesis
    proof cases
      case 1
      then show ?thesis using down [of p] assms
        by (intro exI [of _ "p\<lparr>consumer_phase := Ended, flags := AList.update (lit ''consumer'') False (flags p)\<rparr>"]) auto
    next
      case 2
      have "process_step rep (rep\<lparr>consumer_phase := Ended, flags := AList.update (lit ''consumer'') False (flags rep)\<rparr>)"
        by (rule down) (simp_all add: rep_def assms(1))
      with 1 show ?thesis using 2 assms
        by (intro exI [of _ "rep\<lparr>consumer_phase := Ended, flags := AList.update (lit ''consumer'') False (flags rep)\<rparr>"])
          (auto simp: rep_def)
    qed
  qed
qed

section \<open>What each thread leaves to the other\<close>

text \<open>The watcher's count of publications, and the flags of the other components.\<close>

definition others_flags :: "pystr \<Rightarrow> world \<Rightarrow> world \<Rightarrow> bool" where
  "others_flags c w w' \<longleftrightarrow> (\<forall>n. n \<noteq> c \<longrightarrow> map_of (readiness w') n = map_of (readiness w) n)"

definition consumer_part :: "world \<Rightarrow> world \<Rightarrow> bool" where
  "consumer_part w w' \<longleftrightarrow> EVENTS_PUBLISHED_TOTAL (counters w') = EVENTS_PUBLISHED_TOTAL (counters w) \<and> others_flags (lit ''consumer'') w w'"

definition watcher_part :: "world \<Rightarrow> world \<Rightarrow> bool" where
  "watcher_part w w' \<longleftrightarrow> table w' = table w \<and> (\<exists>n. counters w' = (counters w)\<lparr>EVENTS_PUBLISHED_TOTAL := n\<rparr>)"

lemma registry_self: "\<exists>n. c = c\<lparr>EVENTS_PUBLISHED_TOTAL := n\<rparr>" for c :: registry
  by (rule exI [of _ "EVENTS_PUBLISHED_TOTAL c"]) simp

interpretation consumer_side: outside_frame consumer_part
  by unfold_locales (auto simp: preorder_rel_def consumer_part_def others_flags_def)

lemma consumer_part_run: "keeps consumer_part (run_consumer E S items)"
proof -
  have ready: "keeps consumer_part (set_ready (lit ''consumer'') b)" for b
    by (simp add: keeps_def set_ready_def modify_io_def consumer_part_def others_flags_def update_conv')
  have close: "keeps consumer_part (close_connection E c)" for c
    unfolding close_connection_def by (rule consumer_side.any_call)
  show ?thesis
    unfolding run_consumer_def log_and_reraise_same
    by (auto intro!: consumer_side.framing consumer_side.frame_setup consumer_side.frame_open consumer_side.frame_mk_consumer
      consumer_side.frame_run consumer_side.frame_close ready close)
qed

interpretation watcher_side: watcher_run_invariant watcher_part
proof
  show "preorder_rel watcher_part"
    unfolding preorder_rel_def watcher_part_def by (metis registry.surjective registry.update_convs(1))
  show "keeps watcher_part (publish_counted E pb e)" for E pb e
    by (auto simp: keeps_def publish_counted_def publish_event_def publish_def basic_publish_def call_def bind_io_def
      inc_published_def modify_io_def ret_io_def watcher_part_def registry_self split: option.splits)
qed (auto simp: watcher_part_def registry_self)

section \<open>Reachable states\<close>

definition flags_agree :: "process \<Rightarrow> bool" where
  "flags_agree p \<longleftrightarrow>
     map_of (flags p) (lit ''consumer'') = Some (consumer_phase p = Reported)
   \<and> (case watcher_phase p of Starting \<Rightarrow> map_of (flags p) (lit ''watcher'') = Some False
      | Reported \<Rightarrow> map_of (flags p) (lit ''watcher'') = Some True
      | Ended \<Rightarrow> map_of (flags p) (lit ''watcher'') \<noteq> None
          \<and> (observed p \<longrightarrow> map_of (flags p) (lit ''watcher'') = Some False))
   \<and> (watcher_phase p = Starting \<longrightarrow> \<not> observed p)
   \<and> distinct (map fst (flags p)) \<and> fst ` set (flags p) = set worker_components
   \<and> (exited p \<longrightarrow> stopping p)"

lemma new_process_agrees: "flags_agree new_process"
  by (simp add: flags_agree_def new_process_def new_readiness_get distinct_new_readiness worker_components_def)
    (auto simp: new_readiness_def)

lemma step_agrees: "process_step p q \<Longrightarrow> flags_agree p \<Longrightarrow> flags_agree q"
  by (induction rule: process_step.induct)
    (auto simp: flags_agree_def update_conv' distinct_update worker_components_def dom_update split: thread_phase.splits)

lemma reachable_agrees: "reachable p \<Longrightarrow> flags_agree p"
  unfolding reachable_def by (induction rule: rtranclp_induct) (auto simp: new_process_agrees step_agrees)

lemma step_forward: "process_step p q \<Longrightarrow> watcher_phase p \<le> watcher_phase q \<and> consumer_phase p \<le> consumer_phase q"
  by (induction rule: process_step.induct) (auto simp: less_eq_thread_phase_def phase_rank_le)

lemma steps_forward: "process_step\<^sup>*\<^sup>* p q \<Longrightarrow> watcher_phase p \<le> watcher_phase q \<and> consumer_phase p \<le> consumer_phase q"
  by (induction rule: rtranclp_induct) (auto dest: step_forward)

lemma reachable_steps: "reachable p \<Longrightarrow> process_step\<^sup>*\<^sup>* p q \<Longrightarrow> reachable q"
  unfolding reachable_def by (rule rtranclp_trans)

lemma agree_ready:
  assumes "flags_agree p"
  shows "all_ready (flags p) \<longleftrightarrow> consumer_phase p = Reported \<and> map_of (flags p) (lit ''watcher'') = Some True"
proof -
  have d: "distinct (map fst (flags p))" and keys: "fst ` set (flags p) = {lit ''watcher'', lit ''consumer''}"
    using assms by (auto simp: flags_agree_def worker_components_def)
  have known: "n \<in> {lit ''watcher'', lit ''consumer''}" if "map_of (flags p) n = Some b" for n b
    using map_of_SomeD [OF that] keys by (metis fst_conv image_eqI)
  have some: "\<exists>b. map_of (flags p) n = Some b" if "n \<in> {lit ''watcher'', lit ''consumer''}" for n
    using that map_of_eq_None_iff [of "flags p" n] unfolding keys by auto
  have "all_ready (flags p) \<longleftrightarrow> map_of (flags p) (lit ''watcher'') = Some True \<and> map_of (flags p) (lit ''consumer'') = Some True"
    unfolding all_ready_iff [OF d]
  proof
    assume "\<forall>n b. map_of (flags p) n = Some b \<longrightarrow> b"
    with some [of "lit ''watcher''"] some [of "lit ''consumer''"]
    show "map_of (flags p) (lit ''watcher'') = Some True \<and> map_of (flags p) (lit ''consumer'') = Some True" by fastforce
  next
    assume both: "map_of (flags p) (lit ''watcher'') = Some True \<and> map_of (flags p) (lit ''consumer'') = Some True"
    show "\<forall>n b. map_of (flags p) n = Some b \<longrightarrow> b"
    proof (intro allI impI)
      fix n b assume "map_of (flags p) n = Some b"
      with known [OF this] both show b by auto
    qed
  qed
  then show ?thesis using assms by (auto simp: flags_agree_def)
qed

end
