(* ===== verification/Main_Thread.thy ===== *)
theory Main_Thread
  imports Worker_Main
begin

text \<open>
  The main thread, \<open>main\<close> of \<open>worker/src/main.py\<close> with \<open>run_health_server\<close> of
  \<open>worker/src/health.py\<close>: the calls it makes in order, each exit included. The lemmas give its three
  runs: the port is taken, the stop event is set, and it is never set.
\<close>

datatype main_call =
    OnSignal string | StartThread string | JoinThread string nat
  | BindServer pystr int | BindFailed pystr int exn
  | WaitStop | SetStop | ShutdownServer | CloseServer

text \<open>The outside: whether the port is free, and whether the stop event is ever set during the wait.\<close>

record main_env =
  bind_reply :: "main_call list \<Rightarrow> pystr \<Rightarrow> int \<Rightarrow> exn option"
  stop_comes :: "main_call list \<Rightarrow> bool"

type_synonym 'a main_io = "(main_call list, 'a) io"

definition main_step :: "main_call \<Rightarrow> unit main_io" where
  "main_step c = modify_io (\<lambda>h. h @ [c])"

definition bind_server :: "main_env \<Rightarrow> pystr \<Rightarrow> int \<Rightarrow> unit main_io" where
  "bind_server E host port = bind_io (get_io (\<lambda>h. bind_reply E h host port)) (\<lambda>r. case r of
      None \<Rightarrow> main_step (BindServer host port)
    | Some x \<Rightarrow> bind_io (main_step (BindFailed host port x)) (\<lambda>_. raise_io x))"

definition wait_stop :: "main_env \<Rightarrow> unit main_io" where
  "wait_stop E = bind_io (get_io (stop_comes E)) (\<lambda>comes.
     bind_io (main_step WaitStop) (\<lambda>_. if comes then ret_io () else hang_io))"

definition run_health_server :: "main_env \<Rightarrow> pystr \<Rightarrow> int \<Rightarrow> unit main_io" where
  "run_health_server E host port =
     bind_io (bind_server E host port) (\<lambda>_.
     bind_io (main_step (StartThread ''health-http'')) (\<lambda>_.
     try_finally (wait_stop E)
       (seq_io [main_step ShutdownServer, main_step CloseServer, main_step (JoinThread ''health-http'' 5)])))"

definition serve_and_stop :: "main_env \<Rightarrow> settings \<Rightarrow> unit main_io" where
  "serve_and_stop E S = seq_io [
     main_step (OnSignal ''SIGTERM''), main_step (OnSignal ''SIGINT''),
     main_step (StartThread ''watcher''), main_step (StartThread ''consumer''),
     try_finally (run_health_server E (lit ''0.0.0.0'') (health_port S))
       (seq_io [main_step SetStop, main_step (JoinThread ''watcher'' 10), main_step (JoinThread ''consumer'' 10)])]"

definition main :: "main_env \<Rightarrow> environment \<Rightarrow> root_logger \<Rightarrow> unit main_io" where
  "main E env lg = bind_io (lift_sum (start_worker env lg)) (\<lambda>(S, _, _). serve_and_stop E S)"

section \<open>Its runs\<close>

definition started :: "main_call list" where
  "started = [OnSignal ''SIGTERM'', OnSignal ''SIGINT'', StartThread ''watcher'', StartThread ''consumer'']"

definition stopped :: "main_call list" where
  "stopped = [SetStop, JoinThread ''watcher'' 10, JoinThread ''consumer'' 10]"

definition served :: "int \<Rightarrow> main_call list" where
  "served port = [BindServer (lit ''0.0.0.0'') port, StartThread ''health-http'']"

lemmas main_defs = main_def serve_and_stop_def run_health_server_def bind_server_def wait_stop_def main_step_def
  started_def stopped_def served_def lift_sum_def

text \<open>A bad configuration raises before any thread is started.\<close>

lemma main_refuses: "start_worker env lg = Inl x \<Longrightarrow> main E env lg [] = (Raise x, [])"
  by (simp add: main_defs raise_io_def)

text \<open>
  When the port is taken, the threads that run already are told to stop and joined before the exception
  leaves; when the stop event comes, the server is shut down first; otherwise the main thread waits.
\<close>

lemma main_runs:
  assumes "start_worker env lg = Inr (S, lg', st)"
  shows "main E env lg [] = (case bind_reply E started (lit ''0.0.0.0'') (health_port S) of
      Some x \<Rightarrow> (Raise x, started @ [BindFailed (lit ''0.0.0.0'') (health_port S) x] @ stopped)
    | None \<Rightarrow> if stop_comes E (started @ served (health_port S))
        then (Return (), started @ served (health_port S) @ [WaitStop, ShutdownServer, CloseServer, JoinThread ''health-http'' 5] @ stopped)
        else (Hang, started @ served (health_port S) @ [WaitStop]))"
  using assms by (simp add: main_defs io_defs split: option.split)

text \<open>However it ends after its threads were started, it has set the stop event and joined both, in this order and last.\<close>

lemma main_joins_both:
  assumes "start_worker env lg = Inr (S, lg', st)" and "main E env lg [] = (r, h)" and "r \<noteq> Hang"
  shows "\<exists>g. h = started @ g @ stopped"
  using assms main_runs [OF assms(1), of E] by (auto split: option.splits if_splits)

end
