(* ===== verification/Url_Text.thy ===== *)
theory Url_Text
  imports Text
begin

text \<open>
  \<open>urllib.parse.unquote_plus\<close> of the standard library: plus signs become spaces, runs of ASCII
  characters are percent-decoded to bytes and decoded as UTF-8 with \<open>errors="replace"\<close>, other
  characters stay. The main lemma: every way of URL-encoding the UTF-8 bytes of a text is undone.
\<close>

section \<open>Decoding with replacement\<close>

text \<open>The length of the character that starts the bytes, if one does.\<close>

definition char_length :: "nat list \<Rightarrow> nat option" where
  "char_length bs = List.find (\<lambda>k. case utf8_dec (take k bs) of Inr cs \<Rightarrow> length cs = 1 | Inl e \<Rightarrow> False) [1, 2, 3, 4]"

text \<open>
  What one replacement character stands for: a byte that starts nothing, the rest of truncated
  data, or the part of a character before the byte that does not continue it.
\<close>

definition bad_length :: "nat list \<Rightarrow> nat" where
  "bad_length bs = (case utf8_dec bs of
      Inl UnexpectedEnd \<Rightarrow> length bs
    | Inl InvalidContinuation \<Rightarrow>
        (case List.find (\<lambda>k. utf8_dec (take k bs) = Inl UnexpectedEnd) [3, 2, 1] of Some k \<Rightarrow> k | None \<Rightarrow> 1)
    | _ \<Rightarrow> 1)"

lemma char_length_pos: "char_length bs = Some k \<Longrightarrow> 0 < k"
  by (auto simp: char_length_def split: if_splits)

lemma bad_length_pos: "bs \<noteq> [] \<Longrightarrow> 0 < bad_length bs"
  by (auto simp: bad_length_def split: sum.split utf8_error.split)

function utf8_replace :: "nat list \<Rightarrow> pystr" where
  "utf8_replace bs = (if bs = [] then [] else (case char_length bs of
      Some k \<Rightarrow> (case utf8_dec (take k bs) of Inr cs \<Rightarrow> cs | Inl e \<Rightarrow> []) @ utf8_replace (drop k bs)
    | None \<Rightarrow> 0xFFFD # utf8_replace (drop (bad_length bs) bs)))"
  by pat_completeness auto
termination
  by (relation "measure length") (auto dest: char_length_pos intro!: diff_less bad_length_pos)

declare utf8_replace.simps [simp del]

section \<open>Percent decoding\<close>

definition hex_val :: "nat \<Rightarrow> nat option" where
  "hex_val c = (if 48 \<le> c \<and> c \<le> 57 then Some (c - 48)
     else if 97 \<le> c \<and> c \<le> 102 then Some (c - 87)
     else if 65 \<le> c \<and> c \<le> 70 then Some (c - 55) else None)"

text \<open>\<open>unquote_to_bytes\<close>: a percent sign without two hexadecimal digits stays.\<close>

fun percent_bytes :: "pystr \<Rightarrow> nat list" where
  "percent_bytes (p # a # b # s) =
     (if p = 37 then (case (hex_val a, hex_val b) of
         (Some x, Some y) \<Rightarrow> (16 * x + y) # percent_bytes s
       | _ \<Rightarrow> 37 # percent_bytes (a # b # s))
      else p # percent_bytes (a # b # s))"
| "percent_bytes s = s"

function unquote_runs :: "pystr \<Rightarrow> pystr" where
  "unquote_runs s = (if s = [] then []
     else let a = takeWhile (\<lambda>c. c < 128) s; r = dropWhile (\<lambda>c. c < 128) s
          in utf8_replace (percent_bytes a) @ takeWhile (\<lambda>c. 128 \<le> c) r @ unquote_runs (dropWhile (\<lambda>c. 128 \<le> c) r))"
  by pat_completeness auto
termination
proof (relation "measure length")
  fix s a r :: pystr
  assume s: "s \<noteq> []" and r: "r = dropWhile (\<lambda>c. c < 128) s"
  show "(dropWhile (\<lambda>c. 128 \<le> c) r, s) \<in> measure length"
  proof (cases "hd s < 128")
    case True
    then have "length r < length s" using s by (cases s) (auto simp: r less_Suc_eq_le length_dropWhile_le)
    then show ?thesis by (simp add: le_less_trans [OF length_dropWhile_le])
  next
    case False
    then obtain c t where "s = c # t" "128 \<le> c" using s by (cases s) auto
    then show ?thesis by (simp add: r less_Suc_eq_le length_dropWhile_le)
  qed
qed simp

declare unquote_runs.simps [simp del]

definition unquote :: "pystr \<Rightarrow> pystr" where
  "unquote s = (if List.member s 37 then unquote_runs s else s)"

definition unquote_plus :: "pystr \<Rightarrow> pystr" where
  "unquote_plus s = unquote (map (\<lambda>c. if c = 43 then 32 else c) s)"

section \<open>Undoing an encoding\<close>

text \<open>
  The ways to URL-encode bytes: an ASCII byte other than plus and percent as itself, a space as a
  plus sign, any byte as a percent sign and two hexadecimal digits of either case.
\<close>

inductive url_encoded :: "nat list \<Rightarrow> pystr \<Rightarrow> bool" where
  enc_end: "url_encoded [] []"
| enc_raw: "b < 128 \<Longrightarrow> b \<noteq> 37 \<Longrightarrow> b \<noteq> 43 \<Longrightarrow> url_encoded bs s \<Longrightarrow> url_encoded (b # bs) (b # s)"
| enc_plus: "url_encoded bs s \<Longrightarrow> url_encoded (32 # bs) (43 # s)"
| enc_hex: "hex_val a = Some x \<Longrightarrow> hex_val c = Some y \<Longrightarrow> url_encoded bs s \<Longrightarrow> url_encoded ((16 * x + y) # bs) (37 # a # c # s)"

lemma utf8_dec_char: "is_scalar c \<Longrightarrow> utf8_dec (enc_cp c @ bs) = cons_cp c (utf8_dec bs)"
  by (rule utf8_dec_enc_cp)

lemma enc_cp_not_Nil: "enc_cp c \<noteq> []"
  by (simp add: enc_cp_def)

lemma char_length_enc:
  assumes "is_scalar c"
  shows "char_length (enc_cp c @ bs) = Some (length (enc_cp c))"
proof -
  let ?ok = "\<lambda>k. case utf8_dec (take k (enc_cp c @ bs)) of Inr cs \<Rightarrow> length cs = 1 | Inl e \<Rightarrow> False"
  have one: "utf8_dec (enc_cp c) = Inr [c]" using utf8_dec_char [OF assms, of "[]"] by (simp add: cons_cp_def)
  then have "?ok (length (enc_cp c))" by simp
  moreover have "\<not> ?ok k" if k: "k < length (enc_cp c)" for k
  proof
    assume "?ok k"
    then obtain d where d: "utf8_dec (take k (enc_cp c)) = Inr [d]"
      using k by (auto simp: length_Suc_conv split: sum.splits)
    then have "is_scalar d" "enc_cp d = take k (enc_cp c)" using utf8_dec_sound [OF d] by simp_all
    then have "utf8_dec (take k (enc_cp c) @ drop k (enc_cp c)) = cons_cp d (utf8_dec (drop k (enc_cp c)))"
      using utf8_dec_char by metis
    then have "cons_cp d (utf8_dec (drop k (enc_cp c))) = Inr [c]" using one by simp
    then have "utf8_dec (drop k (enc_cp c)) = Inr []" by (auto simp: cons_cp_def split: sum.splits)
    from utf8_dec_sound [OF this] k show False by simp
  qed
  moreover have "length (enc_cp c) \<in> {1, 2, 3, 4}" by (simp add: enc_cp_def)
  ultimately show ?thesis unfolding char_length_def by (elim insertE) (auto simp del: take_append)
qed

lemma utf8_replace_enc: "list_all is_scalar s \<Longrightarrow> utf8_replace (concat (map enc_cp s)) = s"
proof (induction s)
  case (Cons c s)
  then have c: "is_scalar c" by simp
  have "utf8_dec (enc_cp c) = Inr [c]" using utf8_dec_char [OF c, of "[]"] by (simp add: cons_cp_def)
  then show ?case using Cons
    by (subst utf8_replace.simps) (simp add: char_length_enc [OF c] enc_cp_not_Nil)
qed (simp add: utf8_replace.simps)

lemma hex_val_props: "hex_val c = Some x \<Longrightarrow> c < 128 \<and> c \<noteq> 43 \<and> c \<noteq> 37"
  by (auto simp: hex_val_def split: if_splits)

lemma percent_bytes_plain: "p \<noteq> 37 \<Longrightarrow> percent_bytes (p # s) = p # percent_bytes s"
  by (cases s rule: percent_bytes.cases) simp_all

lemma encoded_bytes:
  assumes "url_encoded bs s"
  shows "percent_bytes (map (\<lambda>c. if c = 43 then 32 else c) s) = bs
    \<and> list_all (\<lambda>c. c < 128) (map (\<lambda>c. if c = 43 then 32 else c) s)"
  using assms by (induction) (auto simp: percent_bytes_plain dest!: hex_val_props)

lemma percent_bytes_none: "37 \<notin> set s \<Longrightarrow> percent_bytes s = s"
  by (induction s) (simp_all add: percent_bytes_plain)

lemma unquote_runs_ascii:
  assumes "t \<noteq> []" and "list_all (\<lambda>c. c < 128) t"
  shows "unquote_runs t = utf8_replace (percent_bytes t)"
proof -
  have runs: "takeWhile (\<lambda>c. c < 128) t = t" "dropWhile (\<lambda>c. c < 128) t = []"
    using assms(2) by (simp_all add: takeWhile_eq_all_conv dropWhile_eq_Nil_all list_all_iff)
  show ?thesis using assms(1) by (subst unquote_runs.simps) (simp add: Let_def runs unquote_runs.simps [of "[]"])
qed

lemma unquote_plus_encoded:
  assumes "list_all is_scalar key" and "url_encoded (concat (map enc_cp key)) s"
  shows "unquote_plus s = key"
proof -
  define t where "t = map (\<lambda>c. if c = 43 then 32 else c) s"
  have t: "percent_bytes t = concat (map enc_cp key)" "list_all (\<lambda>c. c < 128) t"
    using encoded_bytes [OF assms(2)] by (simp_all add: t_def)
  show ?thesis
  proof (cases "37 \<in> set t")
    case True
    then have "t \<noteq> []" by auto
    from unquote_runs_ascii [OF this t(2)] have "unquote_runs t = utf8_replace (percent_bytes t)" .
    then show ?thesis using True t(1) utf8_replace_enc [OF assms(1)] by (simp add: unquote_plus_def unquote_def t_def [symmetric])
  next
    case False
    then have same: "t = concat (map enc_cp key)" using percent_bytes_none t(1) by simp
    have "enc_cp c = [c]" if "c \<in> set key" for c
    proof -
      have "hd (enc_cp c) \<in> set t" using that hd_in_set [OF enc_cp_not_Nil] unfolding same by auto
      then have "hd (enc_cp c) < 128" using t(2) by (simp add: list_all_iff)
      then show ?thesis by (simp add: enc_cp_def split: if_splits)
    qed
    then have "concat (map enc_cp key) = key" by (induction key) simp_all
    then have "t = key" using same by simp
    then show ?thesis using False by (simp add: unquote_plus_def unquote_def t_def [symmetric])
  qed
qed

end
