(* ===== verification/Ingestion.thy ===== *)
theory Ingestion
  imports Csv Url_Text
begin

text \<open>
  The cloud functions below \<open>infra/terraform/functions\<close> that turn an uploaded order CSV into
  one stored item per row: \<open>csv.DictReader\<close> on top of the CSV reader, the item of a row with
  the exceptions a bad row raises, and the two handlers. DynamoDB's batch writer is the parameter \<open>W\<close> and
  Firestore's client the parameter \<open>F\<close>; \<open>batch_laws\<close> and \<open>firestore_laws\<close> are what their
  documentation promises for items and documents within the limits of the two databases, while these can be reached.
  Then both are stores of the interface \<open>item_store\<close>: writing replaces the whole item under its key.
\<close>

section \<open>The interface of the stores\<close>

locale item_store =
  fixes get :: "'s \<Rightarrow> 'k \<Rightarrow> 'i option"
    and put :: "'s \<Rightarrow> 'k \<Rightarrow> 'i \<Rightarrow> 's"
  assumes get_put: "get (put s k i) k' = (if k' = k then Some i else get s k')"
    and extensional: "(\<And>k. get s k = get t k) \<Longrightarrow> s = t"
begin

definition puts :: "('k \<times> 'i) list \<Rightarrow> 's \<Rightarrow> 's" where
  "puts kis s = fold (\<lambda>(k, i) s. put s k i) kis s"

text \<open>The last write of a key counts.\<close>

lemma get_puts: "get (puts kis s) k = (case map_of (rev kis) k of Some i \<Rightarrow> Some i | None \<Rightarrow> get s k)"
  unfolding puts_def
  by (induction kis arbitrary: s) (auto simp: get_put map_add_def split: option.splits)

lemma puts_idem: "fst ` set kis \<subseteq> fst ` set kjs \<Longrightarrow> puts kjs (puts kis s) = puts kjs s"
proof (rule extensional)
  fix k
  assume sub: "fst ` set kis \<subseteq> fst ` set kjs"
  show "get (puts kjs (puts kis s)) k = get (puts kjs s) k"
  proof (cases "k \<in> fst ` set kis")
    case True
    then have "map_of (rev kjs) k \<noteq> None" using sub by (auto simp: map_of_eq_None_iff)
    then show ?thesis by (auto simp: get_puts)
  next
    case False
    then have "map_of (rev kis) k = None" by (simp add: map_of_eq_None_iff)
    then have "get (puts kis s) k = get s k" by (simp add: get_puts)
    then show ?thesis by (simp add: get_puts split: option.split)
  qed
qed

lemma get_puts_mem: "get (puts kis s) k = Some i \<Longrightarrow> (k, i) \<in> set kis \<or> get s k = Some i"
  by (auto simp: get_puts split: option.splits dest!: map_of_SomeD)

end

section \<open>Tables\<close>

text \<open>A table whose primary key or document path is the pair of order id and sku.\<close>

type_synonym item_key = "pystr option \<times> pystr option"
type_synonym 'i store = "item_key \<Rightarrow> 'i option"

definition get_item :: "('k \<Rightarrow> 'i option) \<Rightarrow> 'k \<Rightarrow> 'i option" where
  "get_item m k = m k"

definition put_item :: "('k \<Rightarrow> 'i option) \<Rightarrow> 'k \<Rightarrow> 'i \<Rightarrow> ('k \<Rightarrow> 'i option)" where
  "put_item m k i = m(k \<mapsto> i)"

definition put_items :: "('k \<times> 'i) list \<Rightarrow> ('k \<Rightarrow> 'i option) \<Rightarrow> ('k \<Rightarrow> 'i option)" where
  "put_items kis s = fold (\<lambda>(k, i) s. put_item s k i) kis s"

interpretation keyed: item_store get_item put_item
  by unfold_locales (auto simp: get_item_def put_item_def fun_eq_iff)

lemma put_items_keyed: "put_items = keyed.puts"
  by (simp add: fun_eq_iff put_items_def keyed.puts_def)

lemmas put_items_idem = keyed.puts_idem [folded put_items_keyed]
  and get_put_items = keyed.get_puts [folded put_items_keyed]

lemma put_items_Nil [simp]: "put_items [] s = s"
  by (simp add: put_items_def)

lemma put_items_append: "put_items b (put_items a s) = put_items (a @ b) s"
  by (simp add: put_items_def)

section \<open>csv.DictReader\<close>

text \<open>A row as a dictionary; a field the row is too short for is \<open>None\<close>.\<close>

type_synonym row_dict = "(pystr \<times> pystr option) list"

definition dict_row :: "pystr list \<Rightarrow> pystr list \<Rightarrow> row_dict" where
  "dict_row fieldnames row = zip fieldnames (map Some row) @ map (\<lambda>k. (k, None)) (drop (length row) fieldnames)"

text \<open>The first row gives the field names, empty rows are skipped.\<close>

definition dict_rows :: "pystr list list \<Rightarrow> row_dict list" where
  "dict_rows rows = (case rows of [] \<Rightarrow> [] | fieldnames # rest \<Rightarrow> map (dict_row fieldnames) (filter (\<lambda>r. r \<noteq> []) rest))"

definition key_error :: exn where
  "key_error = mk_exn ''KeyError'' [Exception] []"

text \<open>\<open>os.environ["TABLE_NAME"]\<close>, when the module is loaded.\<close>

definition lambda_table_name :: "(pystr \<Rightarrow> pystr option) \<Rightarrow> exn + pystr" where
  "lambda_table_name env = (case env (lit ''TABLE_NAME'') of None \<Rightarrow> Inl key_error | Some v \<Rightarrow> Inr v)"

definition type_error :: exn where
  "type_error = mk_exn ''TypeError'' [Exception] (lit ''int() argument must be a string, not NoneType'')"

text \<open>\<open>row[name]\<close> and \<open>int(row[name])\<close>\<close>

definition field :: "row_dict \<Rightarrow> string \<Rightarrow> exn + pystr option" where
  "field row name = (case map_of (rev row) (lit name) of None \<Rightarrow> Inl key_error | Some v \<Rightarrow> Inr v)"

definition int_field :: "row_dict \<Rightarrow> string \<Rightarrow> exn + int" where
  "int_field row name = bind_sum (field row name) (\<lambda>v. case v of None \<Rightarrow> Inl type_error | Some t \<Rightarrow> py_int 10 t)"

text \<open>The exception that ends an iteration leaves the rows before it.\<close>

fun map_until :: "('a \<Rightarrow> exn + 'b) \<Rightarrow> 'a list \<Rightarrow> exn option \<Rightarrow> 'b list \<times> exn option" where
  "map_until f [] stop = ([], stop)"
| "map_until f (x # xs) stop = (case f x of
      Inl e \<Rightarrow> ([], Some e)
    | Inr y \<Rightarrow> (case map_until f xs stop of (ys, e) \<Rightarrow> (y # ys, e)))"

section \<open>AWS: S3 to DynamoDB\<close>

record line_item =
  orderId :: "pystr option"
  sku :: "pystr option"
  quantity :: int
  it_channel :: "pystr option"
  sourceObjectKey :: pystr
  ingestedAt :: pystr

definition line_item_of :: "pystr \<Rightarrow> pystr \<Rightarrow> row_dict \<Rightarrow> exn + (item_key \<times> line_item)" where
  "line_item_of key ingested_at row =
     bind_sum (field row ''order_id'') (\<lambda>order.
     bind_sum (field row ''sku'') (\<lambda>unit.
     bind_sum (int_field row ''quantity'') (\<lambda>n.
     bind_sum (field row ''channel'') (\<lambda>ch.
     Inr ((order, unit), \<lparr>orderId = order, sku = unit, quantity = n, it_channel = ch,
       sourceObjectKey = key, ingestedAt = ingested_at\<rparr>)))))"

text \<open>The items given to the batch writer, and the exception that ended it.\<close>

definition csv_items :: "(row_dict \<Rightarrow> exn + 'i) \<Rightarrow> pystr \<Rightarrow> 'i list \<times> exn option" where
  "csv_items item text = (case csv_rows text of (rows, stop) \<Rightarrow> map_until item (dict_rows rows) stop)"

text \<open>
  What \<open>with table.batch_writer() as batch\<close> makes of the items put into it until the block is
  left: it flushes what it holds, also when an exception leaves the block.
\<close>

type_synonym batch_writer = "(item_key \<times> line_item) list \<Rightarrow> line_item store \<Rightarrow> exn option \<times> line_item store"

text \<open>\<open>objects\<close> is \<open>s3.get_object\<close>, \<open>now\<close> the formatted \<open>time.gmtime()\<close>.\<close>

definition ingest_object ::
  "batch_writer \<Rightarrow> (pystr \<Rightarrow> pystr \<Rightarrow> exn + bytes) \<Rightarrow> pystr \<Rightarrow> pystr \<Rightarrow> pystr \<Rightarrow> line_item store \<Rightarrow> exn option \<times> line_item store" where
  "ingest_object W objects now bucket key s = (case objects bucket key of
      Inl e \<Rightarrow> (Some e, s)
    | Inr raw \<Rightarrow> (case utf8_decode raw of
        Inl e \<Rightarrow> (Some (mk_exn ''UnicodeDecodeError'' [UnicodeDecodeError, ValueError, Exception] (utf8_reason e)), s)
      | Inr body \<Rightarrow> (case csv_items (line_item_of key now) body of
          (items, stop) \<Rightarrow> (case W items s of
              (Some e, s') \<Rightarrow> (Some e, s')
            | (None, s') \<Rightarrow> (stop, s')))))"

text \<open>\<open>bucket\<close> name and URL-encoded key of one notification record.\<close>

record s3_record =
  rec_bucket :: pystr
  rec_key :: pystr

fun handle_s3_event ::
  "batch_writer \<Rightarrow> (pystr \<Rightarrow> pystr \<Rightarrow> exn + bytes) \<Rightarrow> pystr \<Rightarrow> s3_record list \<Rightarrow> line_item store \<Rightarrow> exn option \<times> line_item store" where
  "handle_s3_event W objects now [] s = (None, s)"
| "handle_s3_event W objects now (r # records) s = (case ingest_object W objects now (rec_bucket r) (unquote_plus (rec_key r)) s of
      (Some e, s') \<Rightarrow> (Some e, s')
    | (None, s') \<Rightarrow> handle_s3_event W objects now records s')"

text \<open>The text can be written in UTF-8, in at most \<open>n\<close> bytes.\<close>

definition utf8_size :: "pystr \<Rightarrow> nat" where
  "utf8_size t = length (concat (map enc_cp t))"

definition text_fits :: "nat \<Rightarrow> pystr \<Rightarrow> bool" where
  "text_fits n t \<longleftrightarrow> list_all is_scalar t \<and> utf8_size t \<le> n"

text \<open>
  DynamoDB's documented limits: key attributes are not null and not empty, of at most 2048 and 1024 bytes; a number has at
  most 38 digits; a text is Unicode; an item, with the names of its attributes (50 bytes here) and 21 bytes for the number, has at most
  400 KB.
\<close>

definition value_size :: "pystr option \<Rightarrow> nat" where
  "value_size v = (case v of None \<Rightarrow> 1 | Some t \<Rightarrow> utf8_size t)"

definition value_text :: "pystr option \<Rightarrow> bool" where
  "value_text v \<longleftrightarrow> (case v of None \<Rightarrow> True | Some t \<Rightarrow> list_all is_scalar t)"

definition dynamo_key :: "nat \<Rightarrow> pystr option \<Rightarrow> bool" where
  "dynamo_key n v \<longleftrightarrow> (case v of None \<Rightarrow> False | Some t \<Rightarrow> t \<noteq> [] \<and> text_fits n t)"

definition dynamo_accepts :: "item_key \<times> line_item \<Rightarrow> bool" where
  "dynamo_accepts = (\<lambda>(k, i). k = (orderId i, sku i) \<and> dynamo_key 2048 (orderId i) \<and> dynamo_key 1024 (sku i)
     \<and> \<bar>quantity i\<bar> < 10 ^ 38
     \<and> value_text (it_channel i) \<and> list_all is_scalar (sourceObjectKey i) \<and> list_all is_scalar (ingestedAt i)
     \<and> 71 + value_size (orderId i) + value_size (sku i) + value_size (it_channel i)
         + utf8_size (sourceObjectKey i) + utf8_size (ingestedAt i) \<le> 400 * 1024)"

text \<open>
  The documented behaviour of the batch writer without \<open>overwrite_by_pkeys\<close>, while the service is reachable and not
  throttled: acceptable items with different keys are all written, each in place of what was under its key; a
  single batch of them, of at most 25 items, with a repeated key is refused as a whole. Nothing is said of other items.
\<close>

definition batch_laws :: "batch_writer \<Rightarrow> bool" where
  "batch_laws W \<longleftrightarrow> (\<forall>items s. list_all dynamo_accepts items \<longrightarrow>
     (distinct (map fst items) \<longrightarrow> W items s = (None, put_items items s))
   \<and> (length items \<le> 25 \<longrightarrow> \<not> distinct (map fst items) \<longrightarrow> (\<exists>x. W items s = (Some x, s))))"

section \<open>GCP: GCS to Firestore\<close>

text \<open>The document of a row; its \<open>ingestedAt\<close> is a sentinel that the server replaces by its own time.\<close>

record order_line =
  ol_sku :: "pystr option"
  ol_quantity :: int
  ol_channel :: "pystr option"
  sourceObjectName :: pystr

type_synonym doc_path = "pystr \<times> pystr"

text \<open>
  The client library, over its own states: \<open>document\<close> is \<open>collection.document(id)\<close>, which makes up a random id
  for \<open>None\<close>; \<open>set_doc\<close> is \<open>doc_ref.set(...)\<close> on the path of order and line; \<open>documents\<close> is what is
  stored, each with the server's time.
\<close>

record 'd firestore =
  document :: "pystr \<Rightarrow> pystr option \<Rightarrow> 'd \<Rightarrow> exn + pystr"
  set_doc :: "doc_path \<Rightarrow> order_line \<Rightarrow> 'd \<Rightarrow> exn option \<times> 'd"
  documents :: "'d \<Rightarrow> doc_path \<Rightarrow> (order_line \<times> pystr) option"

definition order_line_of :: "pystr \<Rightarrow> pystr option \<Rightarrow> row_dict \<Rightarrow> exn + order_line" where
  "order_line_of name unit row =
     bind_sum (int_field row ''quantity'') (\<lambda>n.
     bind_sum (field row ''channel'') (\<lambda>ch.
     Inr \<lparr>ol_sku = unit, ol_quantity = n, ol_channel = ch, sourceObjectName = name\<rparr>))"

text \<open>The body of the loop, and the loop; \<open>stop\<close> is the exception that ends the reader's rows.\<close>

definition set_row :: "'d firestore \<Rightarrow> pystr \<Rightarrow> row_dict \<Rightarrow> 'd \<Rightarrow> exn option \<times> 'd" where
  "set_row F name row d = (case field row ''order_id'' of
      Inl e \<Rightarrow> (Some e, d)
    | Inr order \<Rightarrow> (case document F (lit ''orders'') order d of
      Inl e \<Rightarrow> (Some e, d)
    | Inr a \<Rightarrow> (case field row ''sku'' of
      Inl e \<Rightarrow> (Some e, d)
    | Inr unit \<Rightarrow> (case document F (lit ''lineItems'') unit d of
      Inl e \<Rightarrow> (Some e, d)
    | Inr b \<Rightarrow> (case order_line_of name unit row of
      Inl e \<Rightarrow> (Some e, d)
    | Inr line \<Rightarrow> set_doc F (a, b) line d)))))"

fun set_rows :: "'d firestore \<Rightarrow> pystr \<Rightarrow> row_dict list \<Rightarrow> exn option \<Rightarrow> 'd \<Rightarrow> exn option \<times> 'd" where
  "set_rows F name [] stop d = (stop, d)"
| "set_rows F name (row # rows) stop d = (case set_row F name row d of
      (Some e, d') \<Rightarrow> (Some e, d')
    | (None, d') \<Rightarrow> set_rows F name rows stop d')"

text \<open>\<open>objects\<close> is \<open>download_as_text\<close>; other objects than \<open>orders/*.csv\<close> are skipped.\<close>

definition handle_gcs_event ::
  "'d firestore \<Rightarrow> (pystr \<Rightarrow> pystr \<Rightarrow> exn + pystr) \<Rightarrow> pystr \<Rightarrow> pystr \<Rightarrow> 'd \<Rightarrow> exn option \<times> 'd" where
  "handle_gcs_event F objects bucket name d =
     (if \<not> (starts_with (lit ''orders/'') name \<and> ends_with (lit ''.csv'') name) then (None, d)
      else (case objects bucket name of
          Inl e \<Rightarrow> (Some e, d)
        | Inr content \<Rightarrow> (case csv_rows content of
            (rows, stop) \<Rightarrow> set_rows F name (dict_rows rows) stop d)))"

text \<open>
  Firestore's documented limits: an id is not empty, has no slash and at most 1500 bytes, is neither a dot nor two, and is not
  of the form \<open>__.*__\<close>; an integer has 64 bits; a text is Unicode; a document has at most 1 MiB.
\<close>

definition valid_doc_id :: "pystr \<Rightarrow> bool" where
  "valid_doc_id a \<longleftrightarrow> a \<noteq> [] \<and> 47 \<notin> set a \<and> a \<noteq> lit ''.'' \<and> a \<noteq> lit ''..''
     \<and> \<not> (starts_with (lit ''__'') a \<and> ends_with (lit ''__'') a) \<and> text_fits 1500 a"

definition line_fits :: "order_line \<Rightarrow> bool" where
  "line_fits l \<longleftrightarrow> - (2 ^ 63) \<le> ol_quantity l \<and> ol_quantity l < 2 ^ 63
     \<and> value_text (ol_sku l) \<and> value_text (ol_channel l) \<and> list_all is_scalar (sourceObjectName l)
     \<and> value_size (ol_sku l) + value_size (ol_channel l) + utf8_size (sourceObjectName l) \<le> 1000000"

text \<open>
  While the service can be reached: a valid id is the document's id, and a document set on a valid path is stored there with
  the server's time, in place of the one before. Nothing is said of other ids, of \<open>None\<close> in particular.
\<close>

definition firestore_laws :: "'d firestore \<Rightarrow> bool" where
  "firestore_laws F \<longleftrightarrow> (\<forall>c a d. valid_doc_id a \<longrightarrow> document F c (Some a) d = Inr a)
   \<and> (\<forall>a b l d. valid_doc_id a \<longrightarrow> valid_doc_id b \<longrightarrow> line_fits l \<longrightarrow>
       (\<exists>d' t. set_doc F (a, b) l d = (None, d') \<and> documents F d' = (documents F d)((a, b) \<mapsto> (l, t))))"

text \<open>What is stored, without the times.\<close>

definition contents :: "'d firestore \<Rightarrow> 'd \<Rightarrow> doc_path \<Rightarrow> order_line option" where
  "contents F d k = map_option fst (documents F d k)"

section \<open>Lemmas\<close>

lemma map_until_keys:
  assumes "\<And>x. map_sum id fst (f x) = map_sum id fst (g x)"
  shows "map fst (fst (map_until f xs stop)) = map fst (fst (map_until g xs stop))
    \<and> snd (map_until f xs stop) = snd (map_until g xs stop)"
proof (induction xs)
  case (Cons x xs)
  have same: "map_sum id fst (f x) = map_sum id fst (g x)" by (rule assms)
  show ?case
  proof (cases "f x")
    case (Inl e)
    with same have "g x = Inl e" by (cases "g x") simp_all
    then show ?thesis using Inl by simp
  next
    case (Inr y)
    with same obtain z where "g x = Inr z" "fst z = fst y" by (cases "g x") auto
    then show ?thesis using Inr Cons by (simp add: case_prod_unfold)
  qed
qed simp

lemma csv_items_keys:
  assumes "\<And>x. map_sum id fst (f x) = map_sum id fst (g x)"
  shows "map fst (fst (csv_items f text)) = map fst (fst (csv_items g text)) \<and> snd (csv_items f text) = snd (csv_items g text)"
  using map_until_keys [of f g, OF assms] by (simp add: csv_items_def split: prod.splits)

lemma line_item_keys: "map_sum id fst (line_item_of key t row) = map_sum id fst (line_item_of key u row)"
  by (auto simp: line_item_of_def bind_sum_def split: sum.splits)

text \<open>Rows whose ids are valid are set one after the other under their pairs, up to the first bad row.\<close>

definition row_ids :: "row_dict \<Rightarrow> exn + doc_path" where
  "row_ids row = bind_sum (field row ''order_id'') (\<lambda>order. bind_sum (field row ''sku'') (\<lambda>unit. Inr (the order, the unit)))"

definition ids_valid :: "row_dict \<Rightarrow> bool" where
  "ids_valid row \<longleftrightarrow> (\<forall>n v. n \<in> {''order_id'', ''sku''} \<longrightarrow> field row n = Inr v \<longrightarrow> (\<exists>a. v = Some a \<and> valid_doc_id a))"

definition document_of :: "pystr \<Rightarrow> row_dict \<Rightarrow> exn + (doc_path \<times> order_line)" where
  "document_of name row = bind_sum (row_ids row) (\<lambda>k. bind_sum (order_line_of name (Some (snd k)) row) (\<lambda>l. Inr (k, l)))"

definition line_accepted :: "doc_path \<times> order_line \<Rightarrow> bool" where
  "line_accepted = (\<lambda>((a, b), l). valid_doc_id a \<and> valid_doc_id b \<and> line_fits l)"

lemma set_row_valid:
  assumes "firestore_laws F" and "ids_valid row" and "\<And>x. document_of name row = Inr x \<Longrightarrow> line_fits (snd x)"
  shows "(\<exists>e. document_of name row = Inl e \<and> set_row F name row d = (Some e, d))
    \<or> (\<exists>k l d'. document_of name row = Inr (k, l) \<and> set_row F name row d = (None, d')
        \<and> contents F d' = (contents F d)(k \<mapsto> l))"
proof (cases "field row ''order_id''")
  case (Inl e)
  then show ?thesis by (simp add: document_of_def row_ids_def set_row_def)
next
  case (Inr order)
  then obtain a where a: "order = Some a" "valid_doc_id a" using assms(2) unfolding ids_valid_def by blast
  note ida = a(2) [THEN assms(1) [unfolded firestore_laws_def, THEN conjunct1, rule_format]]
  show ?thesis
  proof (cases "field row ''sku''")
    case e: (Inl e)
    then show ?thesis using Inr a ida by (simp add: document_of_def row_ids_def set_row_def)
  next
    case unit: (Inr unit)
    then obtain b where b: "unit = Some b" "valid_doc_id b" using assms(2) unfolding ids_valid_def by blast
    note idb = b(2) [THEN assms(1) [unfolded firestore_laws_def, THEN conjunct1, rule_format]]
    show ?thesis
    proof (cases "order_line_of name (Some b) row")
      case (Inl e)
      then show ?thesis using Inr a ida unit b idb by (simp add: document_of_def row_ids_def set_row_def)
    next
      case l: (Inr l)
      then have d: "document_of name row = Inr ((a, b), l)" using Inr a unit b by (simp add: document_of_def row_ids_def)
      with assms(3) have "line_fits l" by fastforce
      then obtain d' t where "set_doc F (a, b) l d = (None, d')" "documents F d' = (documents F d)((a, b) \<mapsto> (l, t))"
        using assms(1) a(2) b(2) unfolding firestore_laws_def by blast
      moreover from this have "contents F d' = (contents F d)((a, b) \<mapsto> l)" by (auto simp: contents_def fun_eq_iff)
      ultimately show ?thesis using d Inr a ida unit b idb l by (simp add: set_row_def)
    qed
  qed
qed

definition firestore_takes :: "pystr \<Rightarrow> pystr \<Rightarrow> bool" where
  "firestore_takes name content \<longleftrightarrow> list_all ids_valid (dict_rows (fst (csv_rows content)))
     \<and> list_all (line_fits \<circ> snd) (fst (csv_items (document_of name) content))"

lemma set_rows_valid:
  assumes "firestore_laws F"
  shows "list_all ids_valid rows \<Longrightarrow> map_until (document_of name) rows stop = (lines, e) \<Longrightarrow> list_all (line_fits \<circ> snd) lines \<Longrightarrow>
    \<exists>d'. set_rows F name rows stop d = (e, d') \<and> contents F d' = put_items lines (contents F d)"
proof (induction rows arbitrary: d lines)
  case (Cons row rows)
  show ?case
  proof (cases "document_of name row")
    case (Inl x)
    then have "set_row F name row d = (Some x, d)" using set_row_valid [OF assms, of row name d] Cons.prems(1) by auto
    then show ?thesis using Inl Cons.prems(2) by auto
  next
    case (Inr y)
    obtain k l where y: "y = (k, l)" by fastforce
    obtain rest where rest: "map_until (document_of name) rows stop = (rest, e)" "lines = (k, l) # rest"
      using Cons.prems(2) Inr y by (auto split: prod.splits)
    then obtain d1 where d1: "set_row F name row d = (None, d1)" "contents F d1 = (contents F d)(k \<mapsto> l)"
      using set_row_valid [OF assms, of row name d] Cons.prems(1,3) Inr y by auto
    obtain d' where "set_rows F name rows stop d1 = (e, d')" "contents F d' = put_items rest (contents F d1)"
      using Cons.IH [OF _ rest(1)] Cons.prems(1,3) rest(2) by auto
    then show ?thesis using d1 rest(2) by (simp add: put_items_def put_item_def)
  qed
qed (simp add: contents_def)

lemma handle_gcs_sets:
  assumes "firestore_laws F" and "objects bucket name = Inr content" and "firestore_takes name content"
    and "starts_with (lit ''orders/'') name" and "ends_with (lit ''.csv'') name"
  shows "\<exists>d'. handle_gcs_event F objects bucket name d = (snd (csv_items (document_of name) content), d')
    \<and> contents F d' = put_items (fst (csv_items (document_of name) content)) (contents F d)"
proof -
  obtain rows stop where r: "csv_rows content = (rows, stop)" by fastforce
  obtain lines e where l: "map_until (document_of name) (dict_rows rows) stop = (lines, e)" by fastforce
  have "list_all ids_valid (dict_rows rows)" "list_all (line_fits \<circ> snd) lines"
    using assms(3) by (simp_all add: firestore_takes_def r csv_items_def l)
  from set_rows_valid [OF assms(1) this(1) l this(2), of d] show ?thesis
    using assms(2,4,5) by (simp add: handle_gcs_event_def r csv_items_def l)
qed

lemma handle_gcs_again:
  assumes "firestore_laws F" and "\<And>content. objects bucket name = Inr content \<Longrightarrow> firestore_takes name content"
  shows "\<exists>e d1 d2. handle_gcs_event F objects bucket name d = (e, d1) \<and> handle_gcs_event F objects bucket name d1 = (e, d2)
    \<and> contents F d2 = contents F d1"
proof (cases "starts_with (lit ''orders/'') name \<and> ends_with (lit ''.csv'') name")
  case True
  then show ?thesis
  proof (cases "objects bucket name")
    case (Inr content)
    let ?lines = "fst (csv_items (document_of name) content)"
    note sets = handle_gcs_sets [where F = F and objects = objects and bucket = bucket and name = name, OF assms(1) Inr assms(2) [OF Inr] conjunct1 [OF True] conjunct2 [OF True]]
    obtain d1 where d1: "handle_gcs_event F objects bucket name d = (snd (csv_items (document_of name) content), d1)"
      "contents F d1 = put_items ?lines (contents F d)" using sets by blast
    obtain d2 where d2: "handle_gcs_event F objects bucket name d1 = (snd (csv_items (document_of name) content), d2)"
      "contents F d2 = put_items ?lines (contents F d1)" using sets by blast
    have "contents F d2 = contents F d1" unfolding d2(2) d1(2) by (rule put_items_idem) simp
    with d1(1) d2(1) show ?thesis by blast
  qed (simp add: handle_gcs_event_def)
qed (auto simp: handle_gcs_event_def)

text \<open>A notification as a whole, when every object it names has acceptable items with different keys up to its first bad row.\<close>

definition dynamo_takes :: "(pystr \<Rightarrow> pystr \<Rightarrow> exn + bytes) \<Rightarrow> pystr \<Rightarrow> s3_record \<Rightarrow> bool" where
  "dynamo_takes objects now r \<longleftrightarrow> (\<forall>raw body. objects (rec_bucket r) (unquote_plus (rec_key r)) = Inr raw \<longrightarrow> utf8_decode raw = Inr body \<longrightarrow>
     (let items = fst (csv_items (line_item_of (unquote_plus (rec_key r)) now) body)
      in list_all dynamo_accepts items \<and> distinct (map fst items)))"

lemma object_writes:
  assumes "batch_laws W" and "dynamo_takes objects now \<lparr>rec_bucket = bucket, rec_key = key\<rparr>"
    and "dynamo_takes objects later \<lparr>rec_bucket = bucket, rec_key = key\<rparr>"
  shows "\<exists>items items' r. (\<forall>s. ingest_object W objects now bucket (unquote_plus key) s = (r, put_items items s))
    \<and> (\<forall>s. ingest_object W objects later bucket (unquote_plus key) s = (r, put_items items' s)) \<and> map fst items' = map fst items"
proof (cases "\<exists>raw body. objects bucket (unquote_plus key) = Inr raw \<and> utf8_decode raw = Inr body")
  case True
  then obtain raw body where b: "objects bucket (unquote_plus key) = Inr raw" "utf8_decode raw = Inr body" by blast
  define A B where "A = csv_items (line_item_of (unquote_plus key) now) body"
    and "B = csv_items (line_item_of (unquote_plus key) later) body"
  have AB: "map fst (fst A) = map fst (fst B)" "snd A = snd B"
    using csv_items_keys [OF line_item_keys [of "unquote_plus key" now _ later]] by (simp_all add: A_def B_def)
  have "W (fst A) s = (None, put_items (fst A) s)" "W (fst B) s = (None, put_items (fst B) s)" for s
    using assms b by (simp_all add: batch_laws_def dynamo_takes_def A_def B_def Let_def)
  then have "ingest_object W objects now bucket (unquote_plus key) s = (snd A, put_items (fst A) s)"
    "ingest_object W objects later bucket (unquote_plus key) s = (snd A, put_items (fst B) s)" for s
    by (simp_all add: ingest_object_def b A_def [symmetric] B_def [symmetric] case_prod_unfold AB)
  with AB(1) show ?thesis by metis
next
  case False
  then have "\<exists>x. \<forall>t s. ingest_object W objects t bucket (unquote_plus key) s = (Some x, s)"
    by (cases "objects bucket (unquote_plus key)"; cases "utf8_decode (projr (objects bucket (unquote_plus key)))")
      (simp_all add: ingest_object_def)
  then obtain x where "\<And>t s. ingest_object W objects t bucket (unquote_plus key) s = (Some x, s)" by blast
  then show ?thesis by (intro exI [of _ "[]"] exI [of _ "Some x"]) simp
qed

lemma event_writes:
  assumes "batch_laws W" and "list_all (dynamo_takes objects now) records" and "list_all (dynamo_takes objects later) records"
  shows "\<exists>items items' r. (\<forall>s. handle_s3_event W objects now records s = (r, put_items items s))
    \<and> (\<forall>s. handle_s3_event W objects later records s = (r, put_items items' s)) \<and> map fst items' = map fst items"
  using assms(2,3)
proof (induction records)
  case Nil
  show ?case by (intro exI [of _ "[]"] exI [of _ None]) simp
next
  case (Cons rec records)
  let ?key = "unquote_plus (rec_key rec)"
  have rec: "\<lparr>rec_bucket = rec_bucket rec, rec_key = rec_key rec\<rparr> = rec" by simp
  obtain items items' r where o: "\<And>s. ingest_object W objects now (rec_bucket rec) ?key s = (r, put_items items s)"
    "\<And>s. ingest_object W objects later (rec_bucket rec) ?key s = (r, put_items items' s)" "map fst items' = map fst items"
    using object_writes [OF assms(1), of objects now "rec_bucket rec" "rec_key rec" later] Cons.prems by (auto simp: rec)
  obtain more more' q where e: "\<And>s. handle_s3_event W objects now records s = (q, put_items more s)"
    "\<And>s. handle_s3_event W objects later records s = (q, put_items more' s)" "map fst more' = map fst more"
    using Cons by auto
  show ?case
  proof (cases r)
    case None
    then show ?thesis using o e
      by (intro exI [of _ "items @ more"] exI [of _ "items' @ more'"] exI [of _ q]) (simp add: put_items_append)
  next
    case (Some x)
    then show ?thesis using o
      by (intro exI [of _ items] exI [of _ items'] exI [of _ r]) simp
  qed
qed

text \<open>A table with the four columns, every cell quoted: each line becomes its item.\<close>

definition order_header :: "pystr list" where
  "order_header = [lit ''order_id'', lit ''sku'', lit ''quantity'', lit ''channel'']"

definition order_row :: "pystr \<times> pystr \<times> int \<times> pystr \<Rightarrow> pystr list" where
  "order_row = (\<lambda>(order, unit, n, ch). [order, unit, show_int n, ch])"

definition order_item :: "pystr \<Rightarrow> pystr \<Rightarrow> pystr \<times> pystr \<times> int \<times> pystr \<Rightarrow> item_key \<times> line_item" where
  "order_item key now = (\<lambda>(order, unit, n, ch). ((Some order, Some unit), \<lparr>orderId = Some order, sku = Some unit,
     quantity = n, it_channel = Some ch, sourceObjectKey = key, ingestedAt = now\<rparr>))"

lemma distinct_map_of_rev: "distinct (map fst xs) \<Longrightarrow> map_of (rev xs) = map_of xs"
proof (induction xs)
  case (Cons x xs)
  then have "map_of xs (fst x) = None" by (simp add: map_of_eq_None_iff)
  then show ?case using Cons by (auto simp: map_add_def fun_eq_iff split: option.split)
qed simp

definition order_document :: "pystr \<Rightarrow> pystr \<times> pystr \<times> int \<times> pystr \<Rightarrow> doc_path \<times> order_line" where
  "order_document name = (\<lambda>(order, unit, n, ch). ((order, unit), \<lparr>ol_sku = Some unit,
     ol_quantity = n, ol_channel = Some ch, sourceObjectName = name\<rparr>))"

text \<open>\<open>orders_ok\<close>: no cell is too long for the CSV reader or for \<open>int\<close>.\<close>

definition orders_ok :: "(pystr \<times> pystr \<times> int \<times> pystr) list \<Rightarrow> bool" where
  "orders_ok rows = list_all (\<lambda>(order, unit, n, ch). length order \<le> field_limit \<and> length unit \<le> field_limit
      \<and> length (show_nat (nat \<bar>n\<bar>)) \<le> 4300 \<and> length ch \<le> field_limit) rows"

definition order_csv :: "(pystr \<times> pystr \<times> int \<times> pystr) list \<Rightarrow> pystr" where
  "order_csv rows = quote_table (order_header # map order_row rows)"

text \<open>The dictionaries of such rows, and what an item function makes of them.\<close>

lemma order_rows_items:
  assumes rows: "csv_rows text = (order_header # map order_row rows, None)"
    and item: "\<And>order unit n ch. (order, unit, n, ch) \<in> set rows \<Longrightarrow>
      f (dict_row order_header [order, unit, show_int n, ch]) = Inr (g (order, unit, n, ch))"
  shows "csv_items f text = (map g rows, None)"
proof -
  have "filter (\<lambda>r. r \<noteq> []) (map order_row rows) = map order_row rows"
    by (rule filter_True) (auto simp: order_row_def)
  then have "dict_rows (order_header # map order_row rows) = map (\<lambda>x. dict_row order_header (order_row x)) rows"
    by (simp add: dict_rows_def)
  moreover have "map_until f (map (\<lambda>x. dict_row order_header (order_row x)) rows) None = (map g rows, None)"
    using item by (induction rows) (auto simp: order_row_def)
  ultimately show ?thesis by (simp add: csv_items_def rows)
qed

lemma order_csv_rows:
  assumes "orders_ok rows"
  shows "csv_rows (order_csv rows) = (order_header # map order_row rows, None)"
proof -
  have short: "length (show_int n) \<le> field_limit" if "length (show_nat (nat \<bar>n\<bar>)) \<le> 4300" for n
    using that by (auto simp: show_int_def field_limit_def)
  have "length c \<le> field_limit" if "x \<in> set rows" "c \<in> set (order_row x)" for x c
    using that assms short by (auto simp: order_row_def orders_ok_def list_all_iff)
  moreover have "length c \<le> field_limit" if "c \<in> set order_header" for c
    using that by (auto simp: order_header_def field_limit_def)
  ultimately show ?thesis unfolding order_csv_def by (intro csv_rows_quote_table) auto
qed

lemma order_row_item:
  assumes "length (show_nat (nat \<bar>n\<bar>)) \<le> 4300"
  shows "line_item_of key now (dict_row order_header [order, unit, show_int n, ch]) = Inr (order_item key now (order, unit, n, ch))"
    "document_of name (dict_row order_header [order, unit, show_int n, ch]) = Inr (order_document name (order, unit, n, ch))"
    "valid_doc_id order \<Longrightarrow> valid_doc_id unit \<Longrightarrow> ids_valid (dict_row order_header [order, unit, show_int n, ch])"
  using assms by (simp_all add: line_item_of_def order_line_of_def document_of_def row_ids_def int_field_def field_def
      dict_row_def order_header_def order_item_def order_document_def py_int_show_int) (auto simp: ids_valid_def field_def)

lemma order_table_line_items:
  "orders_ok rows \<Longrightarrow> csv_items (line_item_of key now) (order_csv rows) = (map (order_item key now) rows, None)"
  by (intro order_rows_items order_csv_rows order_row_item) (auto simp: orders_ok_def list_all_iff)

lemma order_table_documents:
  "orders_ok rows \<Longrightarrow> csv_items (document_of name) (order_csv rows) = (map (order_document name) rows, None)"
  by (intro order_rows_items order_csv_rows order_row_item) (auto simp: orders_ok_def list_all_iff)

lemma order_table_taken:
  assumes "orders_ok rows" and "list_all line_accepted (map (order_document name) rows)"
  shows "firestore_takes name (order_csv rows)"
proof -
  have "ids_valid (dict_row order_header (order_row x))" if "x \<in> set rows" for x
  proof -
    obtain order unit n ch where x: "x = (order, unit, n, ch)" by (cases x) auto
    have "length (show_nat (nat \<bar>n\<bar>)) \<le> 4300" "valid_doc_id order" "valid_doc_id unit"
      using that assms by (auto simp: x orders_ok_def list_all_iff line_accepted_def order_document_def)
    then show ?thesis unfolding x order_row_def prod.case by (intro order_row_item(3))
  qed
  moreover have "filter (\<lambda>r. r \<noteq> []) (map order_row rows) = map order_row rows"
    by (rule filter_True) (auto simp: order_row_def)
  ultimately have "list_all ids_valid (dict_rows (order_header # map order_row rows))"
    by (auto simp: dict_rows_def list_all_iff)
  then show ?thesis
    using assms(2) order_csv_rows [OF assms(1)] order_table_documents [OF assms(1), of name]
    by (auto simp: firestore_takes_def list_all_iff line_accepted_def)
qed

lemma stored_rows:
  assumes "batch_laws W" and "objects bucket (unquote_plus key) = Inr raw" and "utf8_decode raw = Inr text"
    and items: "csv_items (line_item_of (unquote_plus key) now) text = (map (order_item (unquote_plus key) now) rows, None)"
    and "distinct (map (\<lambda>(order, unit, n, ch). (order, unit)) rows)"
    and "list_all dynamo_accepts (map (order_item (unquote_plus key) now) rows)"
  shows "handle_s3_event W objects now [\<lparr>rec_bucket = bucket, rec_key = key\<rparr>] s =
    (None, \<lambda>k. case map_of (map (order_item (unquote_plus key) now) rows) k of Some i \<Rightarrow> Some i | None \<Rightarrow> s k)"
proof -
  let ?items = "map (order_item (unquote_plus key) now) rows"
  have "map fst ?items = map (\<lambda>(order, unit). (Some order, Some unit)) (map (\<lambda>(order, unit, n, ch). (order, unit)) rows)"
    by (auto simp: order_item_def)
  then have d: "distinct (map fst ?items)" using assms(5) by (simp add: distinct_map inj_on_def case_prod_unfold)
  then have "W ?items s = (None, put_items ?items s)" using assms(1,6) by (simp add: batch_laws_def)
  moreover have "map_of (rev ?items) = map_of ?items" using d by (intro distinct_map_of_rev)
  then have "put_items ?items s = (\<lambda>k. case map_of ?items k of Some i \<Rightarrow> Some i | None \<Rightarrow> s k)"
    using get_put_items [of ?items s, unfolded get_item_def] by (intro ext) simp
  ultimately show ?thesis by (simp add: ingest_object_def assms(2,3) items)
qed

end
