(* ===== verification/Prefetch.thy ===== *)
theory Prefetch
  imports Worker_Lemmas Consumer_Scenarios
begin

text \<open>
  The prefetch window. \<open>Consumer.__init__\<close> asks the broker for at most \<open>max(1, upload_max_concurrency)\<close> unacknowledged
  deliveries on its channel (\<open>basic_qos\<close>). \<open>respects_prefetch\<close> is what AMQP promises of the items the loop gets in return:
  while that many deliveries are unacknowledged there is no further one. A handler that ends in an exception never
  acknowledges its delivery, so each such message uses up a place of the window until the channel is closed.
\<close>

section \<open>The window\<close>

text \<open>The count of the last \<open>basic_qos\<close> on a channel.\<close>

definition prefetch_of :: "nat \<Rightarrow> action list \<Rightarrow> int option" where
  "prefetch_of ch h = fold (\<lambda>a p. case a of Qos c n \<Rightarrow> if c = ch then Some n else p | _ \<Rightarrow> p) h None"

text \<open>No \<open>basic_qos\<close>, or a count of zero: no limit.\<close>

fun window_open :: "int option \<Rightarrow> nat \<Rightarrow> bool" where
  "window_open None k \<longleftrightarrow> True"
| "window_open (Some n) k \<longleftrightarrow> n = 0 \<or> int k < n"

text \<open>\<open>k\<close> deliveries are unacknowledged so far.\<close>

fun respects_prefetch :: "environ \<Rightarrow> consumer \<Rightarrow> nat \<Rightarrow> (bool \<times> consume_item) list \<Rightarrow> world \<Rightarrow> bool" where
  "respects_prefetch E C k [] w \<longleftrightarrow> True"
| "respects_prefetch E C k ((stop, Deliver tag props body) # items) w \<longleftrightarrow>
     window_open (prefetch_of (con_channel C) (history w)) k
   \<and> (let w' = snd (handle E C tag props body w)
      in respects_prefetch E C (if Acked (con_channel C) tag \<in> set (new_actions w w') then k else Suc k) items w')"
| "respects_prefetch E C k ((stop, item) # items) w \<longleftrightarrow> respects_prefetch E C k items w"

fun deliveries :: "(bool \<times> consume_item) list \<Rightarrow> (properties \<times> bytes) list" where
  "deliveries [] = []"
| "deliveries ((stop, Deliver tag props body) # items) = (props, body) # deliveries items"
| "deliveries ((stop, item) # items) = deliveries items"

section \<open>The handler leaves the window alone\<close>

lemma prefetch_action: "handler_action a \<Longrightarrow> prefetch_of ch (h @ [a]) = prefetch_of ch h"
  by (cases a) (simp_all add: prefetch_of_def)

interpretation handler_prefetch: handler_frame "\<lambda>w w'. prefetch_of ch (history w') = prefetch_of ch (history w)" for ch
  by unfold_locales (simp_all add: preorder_rel_def prefetch_action)

lemma prefetch_handle: "prefetch_of ch (history (snd (handle E C tag props body w))) = prefetch_of ch (history w)"
  using handler_prefetch.frame_handle [of ch E C tag props body] by (simp add: keeps_def)

lemma prefetch_set:
  assumes "mk_consumer E ch pb S w = (Return C, w0)"
  shows "prefetch_of ch (history w0) = Some (max 1 (upload_max_concurrency S))" and "con_channel C = ch"
    and "pb = \<lparr>pub_channel = ch, pub_settings = S\<rparr> \<Longrightarrow> C = worker_consumer ch S"
  using assms by (auto simp: mk_consumer_def Let_def bind_io_def call_def ret_io_def prefetch_of_def worker_consumer_def
    split: option.splits)

section \<open>Deliveries and acknowledgements\<close>

text \<open>A handler acknowledges its delivery once, or nothing at all.\<close>

lemma handle_acks:
  assumes "handle E (worker_consumer ch S) tag props body w = (r, w')"
  shows "acks ch (history w') = acks ch (history w) + (if Acked ch tag \<in> set (new_actions w w') then 1 else 0)"
    and "(\<exists>x. r = Raise x) \<Longrightarrow> \<exists>h. history w' = history w @ h \<and> no_ack h"
proof -
  have "wf_consumer (worker_consumer ch S)" by (simp add: wf_consumer_def worker_consumer_def)
  from exits_handle [OF this, of E body tag props w] assms
  have e: "case r of Return _ \<Rightarrow> \<exists>pre. history w' = history w @ pre @ [Acked ch tag] \<and> no_ack pre
      | _ \<Rightarrow> \<exists>h. history w' = history w @ h \<and> no_ack h"
    by (auto simp: exits_at_def worker_consumer_def split: outcome.splits)
  then show "acks ch (history w') = acks ch (history w) + (if Acked ch tag \<in> set (new_actions w w') then 1 else 0)"
    by (cases r) (auto simp: new_actions_append no_ack_acks, auto simp: no_ack_def)
  show "(\<exists>x. r = Raise x) \<Longrightarrow> \<exists>h. history w' = history w @ h \<and> no_ack h" using e by auto
qed

lemma going_on_pair: "going_on (stop, item) \<longleftrightarrow> \<not> stop \<and> (case item of ConsumeError _ \<Rightarrow> False | _ \<Rightarrow> True)"
  by (simp add: going_on_def)

lemma loop_within_prefetch:
  assumes "ordinary E" and "0 < upload_max_concurrency S"
    and "list_all going_on items" and "prefetch_of ch (history w) = Some n" and "1 \<le> n" and "int k \<le> n"
    and "respects_prefetch E (worker_consumer ch S) k items w"
  shows "int (k + length (deliveries items) + acks ch (history w))
    \<le> int (acks ch (history (snd (consume_loop E (worker_consumer ch S) items w)))) + n"
  using assms(3-7)
proof (induction items arbitrary: w k)
  case Nil
  then show ?case by (simp add: ret_io_def)
next
  case (Cons x items)
  obtain stop item where x: "x = (stop, item)" by fastforce
  with Cons.prems have s: "\<not> stop" "list_all going_on items" by (simp_all add: going_on_pair)
  show ?case
  proof (cases item)
    case (Deliver tag props body)
    obtain r w' where h: "handle E (worker_consumer ch S) tag props body w = (r, w')" by fastforce
    have p: "prefetch_of ch (history w') = Some n"
      using prefetch_handle [of ch E "worker_consumer ch S" tag props body w] h Cons.prems by simp
    have "con_channel (worker_consumer ch S) = ch" by (simp add: worker_consumer_def)
    with Cons.prems h have room: "int k < n"
      and rest: "respects_prefetch E (worker_consumer ch S) (if Acked ch tag \<in> set (new_actions w w') then k else Suc k) items w'"
      by (auto simp: x Deliver Let_def)
    have "int ((if Acked ch tag \<in> set (new_actions w w') then k else Suc k) + length (deliveries items) + acks ch (history w'))
      \<le> int (acks ch (history (snd (consume_loop E (worker_consumer ch S) items w')))) + n"
      by (rule Cons.IH [OF s(2) p Cons.prems(3) _ rest]) (use room in auto)
    moreover have "consume_loop E (worker_consumer ch S) (x # items) w = consume_loop E (worker_consumer ch S) items w'"
      using s by (simp add: x Deliver bind_io_def guarded_handle [OF assms(1,2)] h)
    ultimately show ?thesis using handle_acks(1) [OF h] by (simp add: x Deliver split: if_splits)
  next
    case Tick
    then show ?thesis using Cons s by (simp add: x)
  next
    case (ConsumeError exc)
    then show ?thesis using Cons.prems by (simp add: x going_on_pair)
  qed
qed

section \<open>Messages that are never acknowledged\<close>

text \<open>While the table is \<open>t\<close>, every delivery of the message ends in an exception and leaves the table as it is.\<close>

definition spoils :: "environ \<Rightarrow> consumer \<Rightarrow> db_row list \<Rightarrow> properties \<times> bytes \<Rightarrow> bool" where
  "spoils E C t = (\<lambda>(props, body). \<forall>tag w. table w = t \<longrightarrow>
     (\<exists>x w'. handle E C tag props body w = (Raise x, w') \<and> isinstance x Exception \<and> table w' = t))"

lemma spoilsD: "spoils E C t (props, body) \<Longrightarrow> table w = t \<Longrightarrow>
    \<exists>x w'. handle E C tag props body w = (Raise x, w') \<and> isinstance x Exception \<and> table w' = t"
  unfolding spoils_def by simp

lemma poison_spoils:
  assumes "from_json_bytes E body = Inr e" and "assert_supported e = Inr ()" and "\<not> select_key t (idempotencyKey e)"
    and "\<And>h st. sql_reply E h st = None" and "poison_file E S (event_path e)"
  shows "spoils E (worker_consumer ch S) t (props, body)"
  using poison_file_raises [of E _ body e S ch _ props] assms
  by (auto simp: spoils_def admitted_def bare_cr_error_def csv_error_def)

text \<open>With \<open>k\<close> places used up, spoiled messages leave \<open>n - k\<close> places, and after them nothing is delivered any more.\<close>

lemma loop_starves:
  assumes "list_all going_on items" and "prefetch_of ch (history w) = Some n" and "1 \<le> n" and "int k \<le> n" and "table w = t"
    and "respects_prefetch E (worker_consumer ch S) k items w"
    and "list_all (spoils E (worker_consumer ch S) t) (take (nat n - k) (deliveries items))"
  shows "k + length (deliveries items) \<le> nat n \<and> (\<exists>h w'. consume_loop E (worker_consumer ch S) items w = (Return (), w')
    \<and> history w' = history w @ h \<and> no_ack h \<and> table w' = t \<and> readiness w' = readiness w)"
  using assms
proof (induction items arbitrary: w k)
  case Nil
  then show ?case by (simp add: ret_io_def)
next
  case (Cons x items)
  obtain stop item where x: "x = (stop, item)" by fastforce
  with Cons.prems have s: "\<not> stop" "list_all going_on items" by (simp_all add: going_on_pair)
  show ?case
  proof (cases item)
    case (Deliver tag props body)
    have "con_channel (worker_consumer ch S) = ch" by (simp add: worker_consumer_def)
    with Cons.prems have room: "int k < n" by (auto simp: x Deliver Let_def)
    then have "nat n - k = Suc (nat n - Suc k)" by linarith
    with Cons.prems have sp: "spoils E (worker_consumer ch S) t (props, body)"
        "list_all (spoils E (worker_consumer ch S) t) (take (nat n - Suc k) (deliveries items))"
      by (simp_all add: x Deliver)
    then obtain e w1 where h: "handle E (worker_consumer ch S) tag props body w = (Raise e, w1)" "isinstance e Exception" "table w1 = t"
      using spoilsD [OF sp(1) Cons.prems(5)] by blast
    then obtain g where g: "history w1 = history w @ g" "no_ack g" using handle_acks(2) by blast
    have p: "prefetch_of ch (history w1) = Some n"
      using prefetch_handle [of ch E "worker_consumer ch S" tag props body w] h Cons.prems by simp
    have f: "readiness w1 = readiness w"
      using keepsD [OF consumer_flags.frame_handle h(1)] by (simp add: same_flags_def)
    have "Acked ch tag \<notin> set (new_actions w w1)" using g by (simp add: new_actions_append no_ack_def)
    with Cons.prems h \<open>con_channel _ = ch\<close> have rest: "respects_prefetch E (worker_consumer ch S) (Suc k) items w1"
      by (auto simp: x Deliver Let_def)
    have "Suc k + length (deliveries items) \<le> nat n \<and> (\<exists>h w'. consume_loop E (worker_consumer ch S) items w1 = (Return (), w')
      \<and> history w' = history w1 @ h \<and> no_ack h \<and> table w' = t \<and> readiness w' = readiness w1)"
      by (rule Cons.IH [OF s(2) p Cons.prems(3) _ h(3) rest sp(2)]) (use room in simp)
    moreover have "consume_loop E (worker_consumer ch S) (x # items) w = consume_loop E (worker_consumer ch S) items w1"
      using s h by (simp add: x Deliver bind_io_def try_except_def ret_io_def)
    ultimately show ?thesis using g f by (auto simp: x Deliver)
  next
    case Tick
    then show ?thesis using Cons s by (simp add: x)
  next
    case (ConsumeError exc)
    then show ?thesis using Cons.prems by (simp add: x going_on_pair)
  qed
qed

text \<open>Spoiled messages fill the window one by one.\<close>

lemma respects_spoiled:
  assumes "table w = t" and "prefetch_of ch (history w) = Some n" and "1 \<le> n" and "int (k + length (deliveries items)) \<le> n"
    and "list_all (spoils E (worker_consumer ch S) t) (deliveries items)"
  shows "respects_prefetch E (worker_consumer ch S) k items w"
  using assms
proof (induction items arbitrary: w k)
  case (Cons x items)
  obtain stop item where x: "x = (stop, item)" by fastforce
  show ?case
  proof (cases item)
    case (Deliver tag props body)
    with Cons.prems have "spoils E (worker_consumer ch S) t (props, body)" by (simp add: x)
    then obtain e w1 where h: "handle E (worker_consumer ch S) tag props body w = (Raise e, w1)" "table w1 = t"
      using spoilsD Cons.prems(1) by blast
    then obtain g where "history w1 = history w @ g" "no_ack g" using handle_acks(2) by blast
    then have a: "Acked ch tag \<notin> set (new_actions w w1)" by (simp add: new_actions_append no_ack_def)
    have p: "prefetch_of ch (history w1) = Some n"
      using prefetch_handle [of ch E "worker_consumer ch S" tag props body w] h Cons.prems by simp
    have "con_channel (worker_consumer ch S) = ch" by (simp add: worker_consumer_def)
    then show ?thesis using Cons.IH [OF h(2) p, of "Suc k"] Cons.prems h(1) a by (simp add: x Deliver Let_def)
  qed (use Cons in \<open>simp_all add: x\<close>)
qed simp

end
