(* ===== verification/Service_Properties.thy ===== *)
theory Service_Properties
  imports Worker_Lemmas Main_Thread Ingestion Prefetch
begin

text \<open>
  What the process as a whole, the health endpoint, the log and the cloud functions guarantee.
\<close>

section \<open>Readiness\<close>

text \<open>The endpoint answers by the last report of every component: after any sequence of reports \<open>/ready\<close> is
  200 exactly if every registered or reporting component reported ready last, and 503 with a printable JSON body
  otherwise, while \<open>/health\<close> is always 200 and an unknown path 404.\<close>

theorem ready_answers_last_reports:
  "let w' = snd (seq_io (map (\<lambda>(n, b). set_ready n b) reports) (w\<lparr>readiness := new_readiness names\<rparr>));
       ok = (set names \<union> fst ` set reports \<subseteq> {n. map_of (rev reports) n = Some True})
   in resp_status (do_GET L w' (lit ''/ready'')) = (if ok then 200 else 503)
    \<and> resp_body (do_GET L w' (lit ''/ready'')) = (if ok then json_pair ''status'' ''ready'' else not_ready_body (readiness w'))
    \<and> printable (not_ready_body (readiness w'))
    \<and> resp_status (do_GET L w' (lit ''/health'')) = 200
    \<and> resp_status (do_GET L w' (lit ''/'')) = 404"
proof -
  have run: "snd (seq_io (map (\<lambda>(n, b). set_ready n b) reports) v)
      = v\<lparr>readiness := fold (\<lambda>(n, b) st. AList.update n b st) reports (readiness v)\<rparr>" for v
  proof (induction reports arbitrary: v)
    case (Cons x reports)
    then show ?case by (cases x) (simp add: bind_io_def set_ready_def modify_io_def)
  qed (simp add: ret_io_def)
  have "printable_numbers (JObj [(lit ''status'', JStr (lit ''not_ready'')), (lit ''components'', detail st)])" for st
    by (auto simp: detail_def list_all_iff)
  then have body: "printable (not_ready_body st)" for st unfolding not_ready_body_def by (rule printable_dumps)
  have paths: "lit ''/ready'' \<noteq> lit ''/health''" "lit ''/'' \<noteq> lit ''/health''" "lit ''/'' \<noteq> lit ''/ready''"
    "lit ''/'' \<noteq> lit ''/metrics''"
    by simp_all
  have "all_ready (fold (\<lambda>(n, b) st. AList.update n b st) reports (new_readiness names))
    \<longleftrightarrow> set names \<union> fst ` set reports \<subseteq> {n. map_of (rev reports) n = Some True}"
    unfolding ready_last_reports by auto
  then show ?thesis
    unfolding Let_def run do_GET_def by (simp add: body respond_def)
qed

text \<open>C18. Over every interleaving of the threads, the signal and the main thread: when \<open>/ready\<close> answers 200,
  the consumer thread has reported and not ended, and the watcher thread has reported; so from the end of the consumer
  on \<open>/ready\<close> never answers 200 again.\<close>

theorem ready_means_consumer_runs:
  assumes "reachable p" and "process_step\<^sup>*\<^sup>* p q"
    and "resp_status (do_GET L (w\<lparr>readiness := flags q\<rparr>) (lit ''/ready'')) = 200"
  shows "consumer_phase q = Reported \<and> watcher_phase q \<noteq> Starting \<and> consumer_phase p \<noteq> Ended"
proof -
  have agree: "flags_agree q" by (rule reachable_agrees [OF reachable_steps [OF assms(1,2)]])
  have "all_ready (flags q)" using assms(3) by (simp add: do_GET_def respond_def split: if_splits)
  with agree_ready [OF agree] agree have "consumer_phase q = Reported" "watcher_phase q \<noteq> Starting"
    by (auto simp: flags_agree_def split: thread_phase.splits)
  then show ?thesis using steps_forward [OF assms(2)] by (auto simp: less_eq_thread_phase_def)
qed

text \<open>A process in which both threads have reported.\<close>

definition running_process :: process where
  "running_process = new_process\<lparr>watcher_phase := Reported, consumer_phase := Reported,
     flags := [(lit ''watcher'', True), (lit ''consumer'', True)]\<rparr>"

lemma running_reachable: "reachable running_process"
proof -
  have new: "flags new_process = [(lit ''watcher'', False), (lit ''consumer'', False)]"
    by (simp add: new_process_def new_readiness_def worker_components_def)
  define p where "p = new_process\<lparr>watcher_phase := Reported, flags := AList.update (lit ''watcher'') True (flags new_process)\<rparr>"
  have "process_step new_process p" unfolding p_def by (rule watcher_up) (simp_all add: new_process_def)
  moreover have "process_step p (p\<lparr>consumer_phase := Reported, flags := AList.update (lit ''consumer'') True (flags p)\<rparr>)"
    by (rule consumer_up) (simp_all add: p_def new_process_def)
  moreover have "p\<lparr>consumer_phase := Reported, flags := AList.update (lit ''consumer'') True (flags p)\<rparr> = running_process"
    by (simp add: p_def running_process_def new)
  ultimately show ?thesis by (auto simp: reachable_def)
qed

theorem ready_means_consumer_runs_witness:
  "consumer_phase running_process = Reported \<and> watcher_phase running_process \<noteq> Starting
    \<and> consumer_phase new_process \<noteq> Ended"
proof (rule ready_means_consumer_runs)
  show "reachable new_process" by (simp add: reachable_def)
  show "process_step\<^sup>*\<^sup>* new_process running_process" using running_reachable by (simp add: reachable_def)
  show "resp_status (do_GET \<lparr>generate_latest = \<lambda>_. [], CONTENT_TYPE_LATEST = []\<rparr> (sample_world\<lparr>readiness := flags running_process\<rparr>)
      (lit ''/ready'')) = 200"
    by (simp add: do_GET_def respond_def running_process_def all_ready_def)
qed

text \<open>C27. The bodies of the threads refine the process model, each beside any state of the other: from every state in
  which the thread is to start, whatever broker, files and clouds do, the flags that its run leaves behind are those of
  steps of the process in which only this thread ends; and the watcher's are steps in which the observer was started exactly if
  it was in the run, so that a watcher whose observer ran has taken its report back.\<close>

theorem threads_refine_process:
  assumes "\<not> exited p" and "flags p = readiness w"
  shows "(watcher_phase p = Starting \<and> \<not> observed p \<longrightarrow>
      (let w' = snd (watcher_thread E S seen w) in \<exists>q. process_step\<^sup>*\<^sup>* p q \<and> watcher_phase q = Ended \<and> flags q = readiness w'
        \<and> consumer_phase q = consumer_phase p \<and> (observed q \<longleftrightarrow> ObserverStart (watch_dir S) \<in> set (new_actions w w'))
        \<and> (observed q \<longrightarrow> map_of (flags q) (lit ''watcher'') = Some False)))
    \<and> (consumer_phase p = Starting \<longrightarrow> fst (run_consumer E S items w) \<noteq> Hang \<longrightarrow>
      (\<exists>q. process_step\<^sup>*\<^sup>* p q \<and> consumer_phase q = Ended \<and> flags q = readiness (snd (run_consumer E S items w))
        \<and> watcher_phase q = watcher_phase p \<and> observed q = observed p))"
proof (intro conjI impI)
  assume start: "watcher_phase p = Starting \<and> \<not> observed p"
  let ?w' = "snd (watcher_thread E S seen w)"
  obtain q where q: "process_step\<^sup>*\<^sup>* p q" "watcher_phase q = Ended" "flags q = readiness ?w'"
    "observed q \<longleftrightarrow> observes S w ?w'" "consumer_phase q = consumer_phase p"
    using watcher_thread_steps [OF assms(1) _ _ assms(2), of E S seen] start by blast
  moreover have "observes S w ?w' \<Longrightarrow> map_of (readiness ?w') (lit ''watcher'') = Some False"
    using run_watcher_flags [of E S seen w]
    by (simp add: watcher_thread_def log_and_reraise_same watcher_ends_def Let_def update_conv')
  ultimately show "let w' = ?w' in \<exists>q. process_step\<^sup>*\<^sup>* p q \<and> watcher_phase q = Ended \<and> flags q = readiness w'
        \<and> consumer_phase q = consumer_phase p \<and> (observed q \<longleftrightarrow> ObserverStart (watch_dir S) \<in> set (new_actions w w'))
        \<and> (observed q \<longrightarrow> map_of (flags q) (lit ''watcher'') = Some False)"
    unfolding Let_def observes_def by (intro exI [of _ q]) simp
next
  assume "consumer_phase p = Starting" "fst (run_consumer E S items w) \<noteq> Hang"
  then show "\<exists>q. process_step\<^sup>*\<^sup>* p q \<and> consumer_phase q = Ended \<and> flags q = readiness (snd (run_consumer E S items w))
        \<and> watcher_phase q = watcher_phase p \<and> observed q = observed p"
    using consumer_thread_steps [OF assms(1) _ assms(2) surjective_pairing] by blast
qed

lemma sample_consumer_returns: "\<exists>w'. run_consumer sample_env default_settings [] w = (Return (), w')"
  by (simp add: run_consumer_def connect_and_setup_def connect_def open_channel_def declare_topology_def queue_declare_def
    mk_publisher_def call_def bind_io_def get_io_def ret_io_def open_store_def sql_def try_finally_def log_and_reraise_same
    set_ready_def modify_io_def mk_consumer_def run_def close_store_def close_connection_def sample_env_def sample_env_of_def)

theorem threads_refine_process_witness:
  "(let w = sample_world\<lparr>readiness := flags new_process\<rparr>; w' = snd (watcher_thread sample_env default_settings [QueueTimeout] w)
    in \<exists>q. process_step\<^sup>*\<^sup>* new_process q \<and> watcher_phase q = Ended \<and> flags q = readiness w' \<and> consumer_phase q = Starting)
   \<and> (\<exists>q. process_step\<^sup>*\<^sup>* new_process q \<and> consumer_phase q = Ended \<and> watcher_phase q = Starting
      \<and> flags q = readiness (snd (run_consumer sample_env default_settings [] (sample_world\<lparr>readiness := flags new_process\<rparr>))))"
proof -
  let ?w = "sample_world\<lparr>readiness := flags new_process\<rparr>"
  obtain w' where r: "run_consumer sample_env default_settings [] ?w = (Return (), w')" using sample_consumer_returns by blast
  have p: "\<not> exited new_process" "flags new_process = readiness ?w" "watcher_phase new_process = Starting"
    "consumer_phase new_process = Starting" "\<not> observed new_process" by (simp_all add: new_process_def)
  have live: "fst (run_consumer sample_env default_settings [] ?w) \<noteq> Hang" unfolding r by simp
  note both = threads_refine_process [OF p(1,2), of sample_env default_settings "[QueueTimeout]" "[]"]
  from both [THEN conjunct1, THEN mp, OF conjI [OF p(3,5)]] both [THEN conjunct2, THEN mp, THEN mp, OF p(4) live] show ?thesis
    unfolding Let_def p(3,4) by blast
qed

section \<open>The threads beside each other\<close>

text \<open>C19. The threads leave each other's state alone: whatever the outside answers and however a thread ends, the watcher
  changes neither the idempotency table nor any counter but that of published events, the consumer leaves this counter
  alone, and each thread reports only its own readiness.\<close>

theorem threads_do_not_interfere:
  "(let w' = snd (watcher_thread E S seen w) in table w' = table w
      \<and> counters w' = (counters w)\<lparr>EVENTS_PUBLISHED_TOTAL := EVENTS_PUBLISHED_TOTAL (counters w')\<rparr>
      \<and> map_of (readiness w') (lit ''consumer'') = map_of (readiness w) (lit ''consumer''))
   \<and> (let w' = snd (run_consumer E S items w) in EVENTS_PUBLISHED_TOTAL (counters w') = EVENTS_PUBLISHED_TOTAL (counters w)
      \<and> map_of (readiness w') (lit ''watcher'') = map_of (readiness w) (lit ''watcher''))"
proof -
  have "watcher_part w (snd (run_watcher E S seen w))" using watcher_side.keeps_run by (simp add: keeps_def)
  moreover have "consumer_part w (snd (run_consumer E S items w))" using consumer_part_run by (simp add: keeps_def)
  moreover have "map_of (readiness (snd (run_watcher E S seen w))) (lit ''consumer'') = map_of (readiness w) (lit ''consumer'')"
    using conjunct2 [OF run_watcher_flags [of E S seen w]] by (auto simp: watcher_ends_def Let_def update_conv' split: if_splits)
  ultimately show ?thesis
    by (auto simp: watcher_part_def consumer_part_def others_flags_def watcher_thread_def log_and_reraise_same Let_def)
qed

section \<open>The prefetch window\<close>

text \<open>C17. The window bounds what is lost from sight: while the broker keeps to the count that \<open>Consumer.__init__\<close> sets,
  the loop handles every delivery it gets, and at any time the deliveries exceed the acknowledgements by at most
  \<open>max(1, UPLOAD_MAX_CONCURRENCY)\<close>, whatever exceptions the handlers end in.\<close>

theorem deliveries_within_prefetch:
  assumes "ordinary E" and "0 < upload_max_concurrency S"
    and "mk_consumer E ch \<lparr>pub_channel = ch, pub_settings = S\<rparr> S w = (Return C, w0)"
    and "list_all going_on items" and "respects_prefetch E C 0 items w0"
  shows "\<exists>w'. consume_loop E C items w0 = (Return (), w')
    \<and> int (length (deliveries items)) \<le> int (acks ch (history w')) - int (acks ch (history w0)) + max 1 (upload_max_concurrency S)"
proof -
  have C: "C = worker_consumer ch S" by (rule prefetch_set(3) [OF assms(3) refl])
  obtain w' where w': "consume_loop E C items w0 = (Return (), w')" using loop_isolated [OF assms(1,2,4)] C by blast
  from loop_within_prefetch [OF assms(1,2,4) prefetch_set(1) [OF assms(3)], of 0] assms(5) C w'
  show ?thesis by (auto simp: le_max_iff_disj)
qed

lemma ready_by_flags: "readiness w' = readiness w \<Longrightarrow> do_GET L w' (lit ''/ready'') = do_GET L w (lit ''/ready'')"
  by (simp add: do_GET_def)

lemma sample_qos: "mk_consumer (sample_env_of ups raw) ch pb S w
    = (Return \<lparr>con_channel = ch, con_publisher = pb, con_settings = S\<rparr>, add_action (Qos ch (max 1 (upload_max_concurrency S))) w)"
  by (simp add: mk_consumer_def Let_def bind_io_def call_def ret_io_def sample_env_of_def)

lemma worker_consumer_made: "\<lparr>con_channel = ch, con_publisher = \<lparr>pub_channel = ch, pub_settings = S\<rparr>, con_settings = S\<rparr> = worker_consumer ch S"
  by (simp add: worker_consumer_def)

theorem deliveries_within_prefetch_witness:
  "\<exists>w0 w'. consume_loop poison_env (worker_consumer 0 default_settings) [(False, Deliver 1 sample_props sample_message)] w0 = (Return (), w')
    \<and> 1 \<le> int (acks 0 (history w')) - int (acks 0 (history w0)) + 2"
proof -
  let ?w0 = "add_action (Qos 0 2) sample_world"
  have conc: "upload_max_concurrency default_settings = 2" by (simp add: default_settings_def)
  have "mk_consumer poison_env 0 \<lparr>pub_channel = 0, pub_settings = default_settings\<rparr> default_settings sample_world
      = (Return (worker_consumer 0 default_settings), ?w0)"
    by (simp add: poison_env_def sample_qos worker_consumer_made conc)
  moreover have "respects_prefetch poison_env (worker_consumer 0 default_settings) 0 [(False, Deliver 1 sample_props sample_message)] ?w0"
    by (simp add: Let_def prefetch_of_def worker_consumer_def sample_world_def)
  moreover have "ordinary poison_env" unfolding poison_env_def by (rule sample_ordinary)
  ultimately show ?thesis using deliveries_within_prefetch [of poison_env default_settings 0 sample_world "worker_consumer 0 default_settings" ?w0
      "[(False, Deliver 1 sample_props sample_message)]"]
    by (intro exI [where P = "\<lambda>v. \<exists>w'. Q v w'" for Q, of _ ?w0]) (simp add: conc going_on_def del: consume_loop.simps)
qed

text \<open>C13. A few poison files stop the worker for good, and \<open>/ready\<close> does not show it: once the first
  \<open>max(1, UPLOAD_MAX_CONCURRENCY)\<close> deliveries are of files with a bare carriage return, the broker may not deliver anything
  further, however long the loop runs and whatever is waiting; nothing is acknowledged, no exception ends the thread,
  and \<open>/ready\<close> answers as before.\<close>

theorem poison_files_starve_the_worker:
  assumes "mk_consumer E ch \<lparr>pub_channel = ch, pub_settings = S\<rparr> S w = (Return C, w0)"
    and "list_all going_on items" and "respects_prefetch E C 0 items w0" and "\<And>h st. sql_reply E h st = None"
    and "\<forall>(props, body) \<in> set (take (nat (max 1 (upload_max_concurrency S))) (deliveries items)). \<exists>e. from_json_bytes E body = Inr e
      \<and> assert_supported e = Inr () \<and> \<not> select_key (table w0) (idempotencyKey e) \<and> poison_file E S (event_path e)"
  shows "length (deliveries items) \<le> nat (max 1 (upload_max_concurrency S))
    \<and> (\<exists>h w'. consume_loop E C items w0 = (Return (), w') \<and> history w' = history w0 @ h \<and> no_ack h \<and> table w' = table w0
        \<and> do_GET L w' (lit ''/ready'') = do_GET L w0 (lit ''/ready''))"
proof -
  have C: "C = worker_consumer ch S" by (rule prefetch_set(3) [OF assms(1) refl])
  have "list_all (spoils E (worker_consumer ch S) (table w0)) (take (nat (max 1 (upload_max_concurrency S))) (deliveries items))"
    using assms(4,5) by (fastforce simp: list_all_iff intro: poison_spoils)
  moreover have "0 \<le> max 1 (upload_max_concurrency S)" by simp
  ultimately have "length (deliveries items) \<le> nat (max 1 (upload_max_concurrency S))
    \<and> (\<exists>h w'. consume_loop E (worker_consumer ch S) items w0 = (Return (), w') \<and> history w' = history w0 @ h \<and> no_ack h
        \<and> table w' = table w0 \<and> readiness w' = readiness w0)"
    using loop_starves [OF assms(2) prefetch_set(1) [OF assms(1)] _ _ refl, of 0 E S] assms(3) unfolding C by simp
  then obtain h w' where n: "length (deliveries items) \<le> nat (max 1 (upload_max_concurrency S))"
    and "consume_loop E (worker_consumer ch S) items w0 = (Return (), w')" "history w' = history w0 @ h" "no_ack h"
      "table w' = table w0" "readiness w' = readiness w0"
    by blast
  then have "consume_loop E C items w0 = (Return (), w') \<and> history w' = history w0 @ h \<and> no_ack h \<and> table w' = table w0
      \<and> do_GET L w' (lit ''/ready'') = do_GET L w0 (lit ''/ready'')"
    using ready_by_flags [of w' w0 L] C by blast
  then show ?thesis using n by blast
qed

text \<open>With the default concurrency of 2, two such files are enough.\<close>

definition sample_prometheus :: prometheus where
  "sample_prometheus = \<lparr>generate_latest = \<lambda>_. [], CONTENT_TYPE_LATEST = []\<rparr>"

definition ready_world :: world where
  "ready_world = sample_world\<lparr>readiness := [(lit ''watcher'', True), (lit ''consumer'', True)]\<rparr>"

theorem poison_files_starve_the_worker_witness:
  "\<exists>w0 w' h. consume_loop poison_env (worker_consumer 0 default_settings)
      [(False, Deliver 1 sample_props sample_message), (False, Deliver 2 sample_props sample_message), (False, Tick)] w0 = (Return (), w')
    \<and> prefetch_of 0 (history w0) = Some 2 \<and> history w' = history w0 @ h \<and> no_ack h
    \<and> resp_status (do_GET sample_prometheus w' (lit ''/ready'')) = 200"
proof -
  let ?w0 = "add_action (Qos 0 2) ready_world"
  let ?items = "[(False, Deliver 1 sample_props sample_message), (False, Deliver 2 sample_props sample_message), (False, Tick)]"
  have conc: "upload_max_concurrency default_settings = 2" by (simp add: default_settings_def)
  have mk: "mk_consumer poison_env 0 \<lparr>pub_channel = 0, pub_settings = default_settings\<rparr> default_settings ready_world
      = (Return (worker_consumer 0 default_settings), ?w0)"
    by (simp add: poison_env_def sample_qos worker_consumer_made conc)
  have sql: "sql_reply poison_env h st = None" for h st by (simp add: poison_env_def sample_env_of_def)
  have e: "from_json_bytes poison_env sample_message = Inr sample_event" "assert_supported sample_event = Inr ()"
      "\<not> select_key (table ready_world) (idempotencyKey sample_event)"
    by (simp_all add: poison_env_def sample_message_read sample_supported ready_world_def sample_world_def select_key_iff)
  note sp = poison_spoils [OF e sql poison_env_file]
  have p: "prefetch_of 0 (history ?w0) = Some 2" by (simp add: prefetch_of_def ready_world_def sample_world_def)
  have ok: "resp_status (do_GET sample_prometheus ?w0 (lit ''/ready'')) = 200"
    by (simp add: do_GET_def respond_def ready_world_def all_ready_def)
  have "respects_prefetch poison_env (worker_consumer 0 default_settings) 0 ?items ?w0"
    by (rule respects_spoiled [OF refl p]) (simp_all add: sp)
  moreover have "list_all going_on ?items" by (simp add: going_on_def)
  ultimately have "length (deliveries ?items) \<le> nat (max 1 (upload_max_concurrency default_settings))
    \<and> (\<exists>h w'. consume_loop poison_env (worker_consumer 0 default_settings) ?items ?w0 = (Return (), w')
      \<and> history w' = history ?w0 @ h \<and> no_ack h \<and> table w' = table ?w0
      \<and> do_GET sample_prometheus w' (lit ''/ready'') = do_GET sample_prometheus ?w0 (lit ''/ready''))"
    by (intro poison_files_starve_the_worker [OF mk _ _ sql]) (use e poison_env_file in \<open>simp_all add: conc numeral_2_eq_2\<close>)
  then obtain h w' where "consume_loop poison_env (worker_consumer 0 default_settings) ?items ?w0 = (Return (), w')"
      "history w' = history ?w0 @ h" "no_ack h" "do_GET sample_prometheus w' (lit ''/ready'') = do_GET sample_prometheus ?w0 (lit ''/ready'')"
    by blast
  then show ?thesis using p ok by metis
qed

section \<open>The log\<close>

text \<open>C37. One record is one line: whatever message, names, identifiers and traceback hold - line feeds, control
  characters, lone surrogates - the text written for it is printable ASCII, so no input can forge a log line.\<close>

theorem log_record_is_one_line:
  assumes "\<And>f v. extra r f = Some v \<Longrightarrow> printable_numbers v"
  shows "list_all (\<lambda>c. 32 \<le> c \<and> c \<le> 126) (log_format service r)"
  using log_format_printable [OF assms] by (simp add: printable_def)

theorem log_record_is_one_line_witness:
  "list_all (\<lambda>c. 32 \<le> c \<and> c \<le> 126) (log_format (lit ''worker'')
    \<lparr>log_time = \<lparr>ts_year = 2026, ts_month = 3, ts_day = 1, ts_hour = 10, ts_minute = 0, ts_second = 0\<rparr>,
     levelname = lit ''INFO'', log_name = lit ''src.watcher'', log_message = [10, 123, 34, 0xd800],
     extra = (\<lambda>f. if f = lit ''attempt'' then Some (JInt 2) else Some JNull), exc_info = Some [13, 10]\<rparr>)"
  by (rule log_record_is_one_line) (auto split: if_splits)

section \<open>The cloud functions\<close>

text \<open>The object key of a notification is decoded to the key the worker uploaded under, for every key of Unicode
  text and every way of URL-encoding it, plus signs for spaces included.\<close>

theorem notified_key_is_decoded:
  assumes "utf8_encode key = Inr bs" and "url_encoded (map unat bs) s"
  shows "unquote_plus s = key"
proof -
  have k: "list_all is_scalar key" and bs: "bs = map of_nat (concat (map enc_cp key))"
    using assms(1) by (auto simp: utf8_encode_def split: if_splits)
  have "map (unat \<circ> (of_nat :: nat \<Rightarrow> 8 word)) (concat (map enc_cp key)) = concat (map enc_cp key)"
    using k by (intro unat_of_nat_bytes) (auto simp: list_all_iff dest: enc_cp_byte)
  then have "map unat bs = concat (map enc_cp key)" by (simp add: bs)
  with unquote_plus_encoded [OF k] assms(2) show ?thesis by simp
qed

theorem notified_key_is_decoded_witness:
  "unquote_plus (lit ''orders/M%C3%a4rz+1%2B2.csv'') = lit ''orders/M'' @ [0xe4] @ lit ''rz 1+2.csv''"
proof -
  let ?key = "lit ''orders/M'' @ [0xe4] @ lit ''rz 1+2.csv''"
  have "utf8_encode ?key = Inr (map of_nat (concat (map enc_cp ?key)))"
    by (simp add: utf8_encode_def) (simp add: is_scalar_def is_surrogate_def)
  moreover have "url_encoded (map unat (map (of_nat :: nat \<Rightarrow> 8 word) (concat (map enc_cp ?key)))) (lit ''orders/M%C3%a4rz+1%2B2.csv'')"
  proof -
    have pct: "url_encoded (c3 # bs) (37 # a # b # s)"
      if "c3 = 16 * x + y" "hex_val a = Some x" "hex_val b = Some y" "url_encoded bs s" for c3 a b x y bs s
      unfolding that(1) by (rule enc_hex [OF that(2-4)])
    show ?thesis
      by (simp add: lit_def enc_cp_def) (intro enc_end enc_raw enc_plus pct; simp add: hex_val_def)
  qed
  ultimately show ?thesis by (rule notified_key_is_decoded)
qed

text \<open>C26. A redelivered notification changes nothing but the ingestion time: handling it again ends the same way and leaves
  the DynamoDB table as if only the second delivery had happened, and the Firestore documents as after the first - also
  when a bad row, a missing object or an encoding error stops it half-way. For DynamoDB the rows up to the bad one have
  different pairs and lie within its limits; for Firestore every row has two valid ids (a row that is too short for them is
  stored under a random one).\<close>

theorem redelivered_notification_overwrites:
  assumes "batch_laws W" and "list_all (dynamo_takes objects now) records" and "list_all (dynamo_takes objects later) records"
    and "firestore_laws F" and "\<And>content. texts bucket name = Inr content \<Longrightarrow> firestore_takes name content"
  shows "handle_s3_event W objects later records (snd (handle_s3_event W objects now records s)) = handle_s3_event W objects later records s
    \<and> fst (handle_s3_event W objects later records s) = fst (handle_s3_event W objects now records s)
    \<and> (\<exists>e d1 d2. handle_gcs_event F texts bucket name d = (e, d1) \<and> handle_gcs_event F texts bucket name d1 = (e, d2)
        \<and> contents F d2 = contents F d1)"
proof -
  obtain items items' r where w: "\<And>s. handle_s3_event W objects now records s = (r, put_items items s)"
    "\<And>s. handle_s3_event W objects later records s = (r, put_items items' s)" "map fst items' = map fst items"
    using event_writes [OF assms(1-3)] by blast
  have "fst ` set items \<subseteq> fst ` set items'" using arg_cong [OF w(3), of set] by simp
  then show ?thesis
    using w put_items_idem handle_gcs_again [where F = F and objects = texts and bucket = bucket and name = name, OF assms(4,5)] by simp
qed

text \<open>A batch writer and a document store that meet their laws, and order tables in objects.\<close>

definition strict_writer :: batch_writer where
  "strict_writer items s = (if list_all dynamo_accepts items \<and> distinct (map fst items) then (None, put_items items s)
     else (Some (mk_exn ''ClientError'' [Exception] []), s))"

lemma strict_writer_laws: "batch_laws strict_writer"
  by (simp add: batch_laws_def strict_writer_def)

text \<open>Its random ids count the documents it has set.\<close>

definition strict_firestore :: "(nat \<times> (doc_path \<Rightarrow> (order_line \<times> pystr) option)) firestore" where
  "strict_firestore = \<lparr>
     document = (\<lambda>c v (n, m). case v of
         None \<Rightarrow> Inr (lit ''auto'' @ show_nat n)
       | Some a \<Rightarrow> if valid_doc_id a then Inr a else Inl (value_error ''invalid document id'')),
     set_doc = (\<lambda>k l (n, m). if line_fits l then (None, (Suc n, m(k \<mapsto> (l, show_nat n))))
       else (Some (mk_exn ''InvalidArgument'' [Exception] []), (n, m))),
     documents = snd\<rparr>"

lemma strict_firestore_laws: "firestore_laws strict_firestore"
  by (auto simp: firestore_laws_def strict_firestore_def)

definition sample_orders :: "(pystr \<times> pystr \<times> int \<times> pystr) list" where
  "sample_orders = [(lit ''o1'', lit ''a'', 2, lit ''web''), (lit ''o1'', lit ''b'', 5, lit ''app'')]"

definition repeated_orders :: "(pystr \<times> pystr \<times> int \<times> pystr) list" where
  "repeated_orders = [(lit ''o1'', lit ''a'', 2, lit ''web''), (lit ''o1'', lit ''a'', 5, lit ''app'')]"

lemma sample_orders_ok: "orders_ok sample_orders" "orders_ok repeated_orders"
  by (simp_all add: orders_ok_def sample_orders_def repeated_orders_def field_limit_def show_nat.simps)

lemmas limit_defs = dynamo_accepts_def dynamo_key_def value_size_def value_text_def text_fits_def utf8_size_def line_accepted_def line_fits_def
  valid_doc_id_def order_item_def order_document_def

lemma sample_orders_accepted:
  "list_all dynamo_accepts (map (order_item (lit ''k'') (lit ''t'')) sample_orders)"
  "list_all dynamo_accepts (map (order_item (lit ''k'') (lit ''u'')) sample_orders)"
  "list_all dynamo_accepts (map (order_item (lit ''k'') (lit ''t'')) repeated_orders)"
  "list_all line_accepted (map (order_document (lit ''orders/x.csv'')) sample_orders)"
  "list_all line_accepted (map (order_document (lit ''orders/x.csv'')) repeated_orders)"
  by (simp_all add: limit_defs sample_orders_def repeated_orders_def lit_def is_scalar_def is_surrogate_def enc_cp_def starts_with_def)

lemma order_csv_bytes:
  "utf8_decode (map of_nat (order_csv sample_orders)) = Inr (order_csv sample_orders)"
  "utf8_decode (map of_nat (order_csv repeated_orders)) = Inr (order_csv repeated_orders)"
  by (rule utf8_decode_ascii, simp add: order_csv_def sample_orders_def repeated_orders_def quote_table_def quote_row_def
    quote_cell_def order_header_def order_row_def lit_def show_int_def show_nat.simps)+

lemma plain_key: "unquote_plus (lit ''k'') = lit ''k''"
  by (simp add: lit_def unquote_plus_def unquote_def)

lemma sample_orders_taken:
  "list_all dynamo_accepts (map (order_item (lit ''k'') t) sample_orders) \<Longrightarrow>
    dynamo_takes (\<lambda>_ _. Inr (map of_nat (order_csv sample_orders))) t \<lparr>rec_bucket = [98], rec_key = lit ''k''\<rparr>"
  by (simp add: dynamo_takes_def plain_key order_csv_bytes order_table_line_items sample_orders_ok)
    (simp add: sample_orders_def order_item_def)

theorem redelivered_notification_overwrites_witness:
  "(let objects = \<lambda>_ _. Inr (map of_nat (order_csv sample_orders)); records = [\<lparr>rec_bucket = [98], rec_key = lit ''k''\<rparr>]
    in handle_s3_event strict_writer objects (lit ''u'') records (snd (handle_s3_event strict_writer objects (lit ''t'') records (\<lambda>_. None)))
      = handle_s3_event strict_writer objects (lit ''u'') records (\<lambda>_. None))
   \<and> (\<exists>e d1 d2. handle_gcs_event strict_firestore (\<lambda>_ _. Inr (order_csv sample_orders)) [98] (lit ''orders/x.csv'') (0, \<lambda>_. None) = (e, d1)
        \<and> handle_gcs_event strict_firestore (\<lambda>_ _. Inr (order_csv sample_orders)) [98] (lit ''orders/x.csv'') d1 = (e, d2)
        \<and> contents strict_firestore d2 = contents strict_firestore d1)"
proof -
  have taken: "firestore_takes (lit ''orders/x.csv'') content" if "Inr (order_csv sample_orders) = (Inr content :: exn + pystr)" for content
    using that order_table_taken [OF sample_orders_ok(1) sample_orders_accepted(4)] by simp
  note all = redelivered_notification_overwrites [OF strict_writer_laws _ _ strict_firestore_laws,
    where objects = "\<lambda>_ _. Inr (map of_nat (order_csv sample_orders))" and now = "lit ''t''" and later = "lit ''u''"
      and records = "[\<lparr>rec_bucket = [98], rec_key = lit ''k''\<rparr>]" and texts = "\<lambda>_ _. Inr (order_csv sample_orders)"
      and bucket = "[98]" and name = "lit ''orders/x.csv''" and s = "\<lambda>_. None" and d = "(0, \<lambda>_. None)", OF _ _ taken]
  show ?thesis
    using all sample_orders_taken [OF sample_orders_accepted(1)] sample_orders_taken [OF sample_orders_accepted(2)] by (simp add: Let_def)
qed

text \<open>C36. Every row of an order table becomes one item: for a CSV with the four columns, no repeated pair of order id and sku, and
  rows within DynamoDB's limits (no empty id or sku, numbers of at most 38 digits, the sizes), the DynamoDB handler
  succeeds and writes under that pair the quantity, channel, object key and time of its row, and leaves every other item
  alone.\<close>

theorem order_table_is_stored:
  assumes "batch_laws W" and "objects bucket (unquote_plus key) = Inr raw" and "utf8_decode raw = Inr (order_csv rows)"
    and "orders_ok rows" and "distinct (map (\<lambda>(order, unit, n, ch). (order, unit)) rows)"
    and "list_all dynamo_accepts (map (order_item (unquote_plus key) now) rows)"
  shows "\<exists>s'. handle_s3_event W objects now [\<lparr>rec_bucket = bucket, rec_key = key\<rparr>] s = (None, s')
    \<and> s' = (\<lambda>k. case map_of (map (order_item (unquote_plus key) now) rows) k of Some i \<Rightarrow> Some i | None \<Rightarrow> s k)"
  using stored_rows [where objects = objects and bucket = bucket and key = key, OF assms(1-3) order_table_line_items [OF assms(4)] assms(5,6)]
  by blast

theorem order_table_is_stored_witness:
  "\<exists>s'. handle_s3_event strict_writer (\<lambda>_ _. Inr (map of_nat (order_csv sample_orders))) (lit ''t'')
      [\<lparr>rec_bucket = [98], rec_key = lit ''k''\<rparr>] (\<lambda>_. None) = (None, s')
    \<and> map_option quantity (s' (Some (lit ''o1''), Some (lit ''b''))) = Some 5"
  using order_table_is_stored [OF strict_writer_laws, where objects = "\<lambda>_ _. Inr (map of_nat (order_csv sample_orders))" and bucket = "[98]"
    and key = "lit ''k''" and now = "lit ''t''" and s = "\<lambda>_. None", OF refl order_csv_bytes(1) sample_orders_ok(1)]
    sample_orders_accepted(1)
  by (auto simp: plain_key) (auto simp: sample_orders_def order_item_def)

text \<open>C40. A repeated pair divides the clouds: a small order table within the limits of both databases, with two rows of one
  order id and sku, makes the DynamoDB handler raise on every delivery with nothing stored, while the Firestore
  handler succeeds and keeps the last row.\<close>

theorem repeated_pair_divides_the_clouds:
  assumes "batch_laws W" and "objects bucket (unquote_plus key) = Inr raw" and "utf8_decode raw = Inr (order_csv rows)"
    and "list_all dynamo_accepts (map (order_item (unquote_plus key) now) rows)"
    and "firestore_laws F" and "texts bucket name = Inr (order_csv rows)"
    and "starts_with (lit ''orders/'') name" and "ends_with (lit ''.csv'') name"
    and "list_all line_accepted (map (order_document name) rows)"
    and "orders_ok rows" and "length rows \<le> 25" and "\<not> distinct (map (\<lambda>(order, unit, n, ch). (order, unit)) rows)"
  shows "(\<exists>x. handle_s3_event W objects now [\<lparr>rec_bucket = bucket, rec_key = key\<rparr>] s = (Some x, s))
    \<and> (\<exists>d'. handle_gcs_event F texts bucket name d = (None, d')
      \<and> contents F d' = (\<lambda>k. case map_of (rev (map (order_document name) rows)) k of Some l \<Rightarrow> Some l | None \<Rightarrow> contents F d k))"
proof -
  let ?items = "map (order_item (unquote_plus key) now) rows" and ?lines = "map (order_document name) rows"
  have "map fst ?items = map (\<lambda>(order, unit). (Some order, Some unit)) (map (\<lambda>(order, unit, n, ch). (order, unit)) rows)"
    by (auto simp: order_item_def)
  then have "\<not> distinct (map fst ?items)" using assms(12) by (metis distinct_map)
  then obtain x where "W ?items s = (Some x, s)" using assms(1,4,11) unfolding batch_laws_def by fastforce
  then have "handle_s3_event W objects now [\<lparr>rec_bucket = bucket, rec_key = key\<rparr>] s = (Some x, s)"
    by (simp add: ingest_object_def assms(2,3) order_table_line_items [OF assms(10)])
  moreover obtain d' where "handle_gcs_event F texts bucket name d = (None, d')" "contents F d' = put_items ?lines (contents F d)"
    using handle_gcs_sets [where F = F and objects = texts and bucket = bucket and name = name and d = d, OF assms(5,6) order_table_taken [OF assms(10,9)] assms(7,8)]
    by (auto simp: order_table_documents [OF assms(10)])
  moreover have "put_items ?lines (contents F d) = (\<lambda>k. case map_of (rev ?lines) k of Some l \<Rightarrow> Some l | None \<Rightarrow> contents F d k)"
    using get_put_items [of ?lines "contents F d", unfolded get_item_def] by (intro ext) simp
  ultimately show ?thesis by auto
qed

theorem repeated_pair_divides_the_clouds_witness:
  "(\<exists>x. handle_s3_event strict_writer (\<lambda>_ _. Inr (map of_nat (order_csv repeated_orders))) (lit ''t'')
      [\<lparr>rec_bucket = [98], rec_key = lit ''k''\<rparr>] (\<lambda>_. None) = (Some x, \<lambda>_. None))
    \<and> (\<exists>d'. handle_gcs_event strict_firestore (\<lambda>_ _. Inr (order_csv repeated_orders)) [98] (lit ''orders/x.csv'') (0, \<lambda>_. None) = (None, d')
      \<and> map_option ol_quantity (contents strict_firestore d' (lit ''o1'', lit ''a'')) = Some 5)"
proof -
  have "starts_with (lit ''orders/'') (lit ''orders/x.csv'')" "ends_with (lit ''.csv'') (lit ''orders/x.csv'')"
      "\<not> distinct (map (\<lambda>(order, unit, n, ch). (order, unit)) repeated_orders)" "length repeated_orders \<le> 25"
    by (simp_all add: repeated_orders_def starts_with_def ends_with_def lit_def)
  moreover have "list_all dynamo_accepts (map (order_item (unquote_plus (lit ''k'')) (lit ''t'')) repeated_orders)"
    unfolding plain_key by (rule sample_orders_accepted(3))
  ultimately have "(\<exists>x. handle_s3_event strict_writer (\<lambda>_ _. Inr (map of_nat (order_csv repeated_orders))) (lit ''t'')
      [\<lparr>rec_bucket = [98], rec_key = lit ''k''\<rparr>] (\<lambda>_. None) = (Some x, \<lambda>_. None))
    \<and> (\<exists>d'. handle_gcs_event strict_firestore (\<lambda>_ _. Inr (order_csv repeated_orders)) [98] (lit ''orders/x.csv'') (0, \<lambda>_. None) = (None, d')
      \<and> contents strict_firestore d' = (\<lambda>k. case map_of (rev (map (order_document (lit ''orders/x.csv'')) repeated_orders)) k of
          Some l \<Rightarrow> Some l | None \<Rightarrow> contents strict_firestore (0, \<lambda>_. None) k))"
    by (intro repeated_pair_divides_the_clouds [where objects = "\<lambda>_ _. Inr (map of_nat (order_csv repeated_orders))"
        and texts = "\<lambda>_ _. Inr (order_csv repeated_orders)" and rows = repeated_orders and raw = "map of_nat (order_csv repeated_orders)"]
      strict_writer_laws refl order_csv_bytes(2) strict_firestore_laws sample_orders_accepted(5) sample_orders_ok(2))
  then show ?thesis by (auto simp: repeated_orders_def order_document_def)
qed

end
