(* ===== verification/Script_World.thy ===== *)
theory Script_World
  imports Config Utils Json_Text
begin

text \<open>
  The world of the operator scripts below \<open>scripts/\<close>: the list of the calls they make (programs run,
  URLs opened, temporary files, random draws, waits) and the answers of the outside as functions of
  the calls so far. The readers of JSON and XML and the
  text of a Python list are parameters too. Header names are kept as the scripts write them (HTTP ignores
  their case). Output to the terminal is left out.
\<close>

section \<open>Calls and answers\<close>

record http_request =
  req_url :: pystr
  req_method :: string
  req_headers :: "(pystr \<times> pystr) list"
  req_data :: "bytes option"

text \<open>An XML element: tag with its namespace in braces, text before the first child, children.\<close>

datatype xml = Element (xml_tag: pystr) (xml_text: "pystr option") (xml_children: "xml list")

text \<open>\<open>urlopen\<close>: a response, an \<open>HTTPError\<close> with its response, a \<open>URLError\<close>, or another exception.\<close>

datatype http_reply = HttpOk nat bytes | HttpFailed nat bytes | UrlFailed exn | OpenRaised exn

datatype script_call =
    RunProgram "pystr list"
  | OpenUrl http_request
  | WriteTemp pystr pystr | Chmod pystr nat | Unlink pystr
  | Draw | Sleep nat | AskClock | AskUuid

record script_env =
  run_reply :: "script_call list \<Rightarrow> pystr list \<Rightarrow> exn + int \<times> bytes"
  open_reply :: "script_call list \<Rightarrow> http_request \<Rightarrow> http_reply"
  temp_name :: "script_call list \<Rightarrow> pystr"
  draw_int :: "script_call list \<Rightarrow> int \<Rightarrow> int \<Rightarrow> int"
  draw_index :: "script_call list \<Rightarrow> nat \<Rightarrow> nat"
  wall_clock :: "script_call list \<Rightarrow> timestamp"
  utc_clock :: "script_call list \<Rightarrow> timestamp"
  deadline_passed :: "script_call list \<Rightarrow> bool"
  uuid_bytes :: "script_call list \<Rightarrow> bytes"
  parse_json :: "bytes \<Rightarrow> exn + json"
  parse_xml :: "bytes \<Rightarrow> exn + xml"
  list_text :: "json list \<Rightarrow> pystr"

type_synonym 'a script = "(script_call list, 'a) io"

definition record_call :: "script_call \<Rightarrow> unit script" where
  "record_call c = modify_io (\<lambda>h. h @ [c])"

text \<open>An answer computed from the history, with its call recorded.\<close>

definition consult :: "(script_call list \<Rightarrow> 'a) \<Rightarrow> script_call \<Rightarrow> 'a script" where
  "consult f c = bind_io (get_io f) (\<lambda>x. bind_io (record_call c) (\<lambda>_. ret_io x))"

definition run_program :: "script_env \<Rightarrow> pystr list \<Rightarrow> (int \<times> bytes) script" where
  "run_program E argv = bind_io (consult (\<lambda>h. run_reply E h argv) (RunProgram argv)) lift_sum"

text \<open>\<open>subprocess.run(argv, check=True)\<close>\<close>

definition called_process_error :: exn where
  "called_process_error = mk_exn ''CalledProcessError'' [Exception] []"

definition run_checked :: "script_env \<Rightarrow> pystr list \<Rightarrow> bytes script" where
  "run_checked E argv = bind_io (run_program E argv) (\<lambda>(code, out).
     if code = 0 then ret_io out else raise_io called_process_error)"

definition open_url :: "script_env \<Rightarrow> http_request \<Rightarrow> http_reply script" where
  "open_url E r = consult (\<lambda>h. open_reply E h r) (OpenUrl r)"

definition get_request :: "pystr \<Rightarrow> http_request" where
  "get_request url = \<lparr>req_url = url, req_method = ''GET'', req_headers = [], req_data = None\<rparr>"

definition http_error :: exn where
  "http_error = mk_exn ''HTTPError'' [Exception] []"

text \<open>A call of \<open>urlopen\<close> outside every \<open>try\<close>: the body of the response.\<close>

definition fetch :: "script_env \<Rightarrow> http_request \<Rightarrow> bytes script" where
  "fetch E r = bind_io (open_url E r) (\<lambda>reply. case reply of
      HttpOk _ body \<Rightarrow> ret_io body
    | HttpFailed _ _ \<Rightarrow> raise_io http_error
    | UrlFailed x \<Rightarrow> raise_io x
    | OpenRaised x \<Rightarrow> raise_io x)"

text \<open>The draws keep to their ranges, whatever the generator gives.\<close>

definition randint :: "script_env \<Rightarrow> int \<Rightarrow> int \<Rightarrow> int script" where
  "randint E a b = consult (\<lambda>h. a + (draw_int E h a b - a) mod (b - a + 1)) Draw"

definition choice :: "script_env \<Rightarrow> 'a list \<Rightarrow> 'a script" where
  "choice E xs = consult (\<lambda>h. xs ! (draw_index E h (length xs) mod length xs)) Draw"

definition now_is_past :: "script_env \<Rightarrow> bool script" where
  "now_is_past E = consult (deadline_passed E) AskClock"

definition random_uuid :: "script_env \<Rightarrow> pystr script" where
  "random_uuid E = bind_io (consult (uuid_bytes E) AskUuid) (\<lambda>bs. ret_io (uuid_text bs))"

definition utc_now :: "script_env \<Rightarrow> timestamp script" where
  "utc_now E = consult (utc_clock E) AskClock"

definition local_now :: "script_env \<Rightarrow> timestamp script" where
  "local_now E = consult (wall_clock E) AskClock"

text \<open>\<open>strftime("%Y%m%d%H%M%S")\<close>\<close>

definition compact_time :: "timestamp \<Rightarrow> pystr" where
  "compact_time t = show_pad 4 (ts_year t) @ show_pad 2 (ts_month t) @ show_pad 2 (ts_day t)
     @ show_pad 2 (ts_hour t) @ show_pad 2 (ts_minute t) @ show_pad 2 (ts_second t)"

text \<open>
  \<open>Path.parent\<close> and \<open>path / name\<close> on resolved absolute paths, and the compose file of the repository a script
  lies in: \<open>Path(__file__).resolve().parent.parent / "infra" / "docker-compose.yml"\<close>.
\<close>

definition path_parent :: "pystr \<Rightarrow> pystr" where
  "path_parent p = (let head = rev (dropWhile (\<lambda>c. c \<noteq> 47) (rev p)) in if length head \<le> 1 then head else butlast head)"

definition path_div :: "pystr \<Rightarrow> pystr \<Rightarrow> pystr" where
  "path_div p name = (if ends_with [47] p then p @ name else p @ [47] @ name)"

definition repository_file :: "pystr \<Rightarrow> pystr list \<Rightarrow> pystr" where
  "repository_file script names = foldl path_div (path_parent (path_parent script)) names"

text \<open>The command line prefix \<open>docker compose -f FILE\<close>.\<close>

definition compose :: "pystr \<Rightarrow> pystr list" where
  "compose file = [lit ''docker'', lit ''compose'', lit ''-f'', file]"

text \<open>\<open>gcs_has(key)\<close>: an HTTP or URL error means no.\<close>

definition gcs_object_url :: "pystr \<Rightarrow> pystr \<Rightarrow> exn + pystr" where
  "gcs_object_url bucket key = bind_sum (url_quote key) (\<lambda>q.
     Inr (lit ''http://localhost:4443/storage/v1/b/'' @ bucket @ lit ''/o/'' @ q))"

definition gcs_has :: "script_env \<Rightarrow> pystr \<Rightarrow> pystr \<Rightarrow> bool script" where
  "gcs_has E bucket key = bind_io (lift_sum (gcs_object_url bucket key)) (\<lambda>url.
     bind_io (open_url E (get_request url)) (\<lambda>r. case r of
        HttpOk _ _ \<Rightarrow> ret_io True
      | HttpFailed _ _ \<Rightarrow> ret_io False
      | UrlFailed _ \<Rightarrow> ret_io False
      | OpenRaised x \<Rightarrow> raise_io x))"

section \<open>Values\<close>

text \<open>\<open>a > b\<close> on floats: false as soon as one is not a number.\<close>

fun fgreater :: "pyfloat \<Rightarrow> pyfloat \<Rightarrow> bool" where
  "fgreater (Finite a) (Finite b) = (b < a)"
| "fgreater NaN y = False"
| "fgreater x NaN = False"
| "fgreater PosInf y = (y \<noteq> PosInf)"
| "fgreater x NegInf = (x \<noteq> NegInf)"
| "fgreater x y = False"

text \<open>\<open>bool(value)\<close> of a parsed document.\<close>

fun truthy :: "json \<Rightarrow> bool" where
  "truthy JNull = False"
| "truthy (JBool b) = b"
| "truthy (JInt n) = (n \<noteq> 0)"
| "truthy (JNum t) = (py_float t \<noteq> Inr (Finite 0))"
| "truthy (JStr s) = (s \<noteq> [])"
| "truthy (JArr js) = (js \<noteq> [])"
| "truthy (JObj kvs) = (kvs \<noteq> [])"

definition attribute_error :: exn where
  "attribute_error = mk_exn ''AttributeError'' [Exception] []"

definition wrong_type :: exn where
  "wrong_type = mk_exn ''TypeError'' [Exception] []"

text \<open>\<open>base64.b64encode\<close>\<close>

definition b64_char :: "nat \<Rightarrow> nat" where
  "b64_char n = (if n < 26 then 65 + n else if n < 52 then 71 + n else if n < 62 then n - 4
     else if n = 62 then 43 else 47)"

fun b64encode :: "nat list \<Rightarrow> pystr" where
  "b64encode (a # b # c # s) = map b64_char [a div 4, a mod 4 * 16 + b div 16, b mod 16 * 4 + c div 64, c mod 64] @ b64encode s"
| "b64encode [a, b] = map b64_char [a div 4, a mod 4 * 16 + b div 16, b mod 16 * 4] @ [61]"
| "b64encode [a] = map b64_char [a div 4, a mod 4 * 16] @ [61, 61]"
| "b64encode [] = []"

section \<open>Waiting loops\<close>

text \<open>
  \<open>while time.monotonic() < deadline\<close>: test, then sleep. Only the outside ends the loop; without \<open>fuel\<close>
  it gives \<open>Hang\<close>.
\<close>

fun poll_until :: "nat \<Rightarrow> script_env \<Rightarrow> nat \<Rightarrow> bool script \<Rightarrow> bool script" where
  "poll_until 0 E pause test = hang_io"
| "poll_until (Suc fuel) E pause test = bind_io (now_is_past E) (\<lambda>past.
     if past then ret_io False
     else bind_io test (\<lambda>ok.
       if ok then ret_io True
       else bind_io (record_call (Sleep pause)) (\<lambda>_. poll_until fuel E pause test)))"

section \<open>Temporary files\<close>

text \<open>\<open>NamedTemporaryFile("w", delete=False)\<close>, one \<open>write\<close>, then \<open>chmod\<close> to 0644.\<close>

definition write_temp :: "script_env \<Rightarrow> pystr \<Rightarrow> pystr script" where
  "write_temp E text = bind_io (get_io (temp_name E)) (\<lambda>path.
     bind_io (record_call (WriteTemp path text)) (\<lambda>_.
     bind_io (record_call (Chmod path 420)) (\<lambda>_. ret_io path)))"

fun unlink_all :: "pystr list \<Rightarrow> unit script" where
  "unlink_all [] = ret_io ()"
| "unlink_all (path # paths) = bind_io (record_call (Unlink path)) (\<lambda>_. unlink_all paths)"

end
