(* ===== verification/Sts.thy ===== *)
theory Sts
  imports Script_World "HOL-Library.List_Lexorder"
begin

text \<open>
  \<open>scripts/test-minio-sts.py\<close>: an identity token of Dex is exchanged for temporary S3 credentials of MinIO,
  and requests signed with them (AWS Signature Version 4) put, get and try to delete an object.
\<close>

section \<open>Settings\<close>

record sts_settings =
  sts_compose_file :: pystr
  sts_user :: pystr
  sts_password :: pystr
  sts_bucket :: pystr
  sts_region :: pystr

definition sts_compose_path :: "pystr \<Rightarrow> pystr" where
  "sts_compose_path script = repository_file script [lit ''infra'', lit ''docker-compose.yml'']"

definition sts_compose :: "sts_settings \<Rightarrow> pystr list" where
  "sts_compose S = [lit ''docker'', lit ''compose'', lit ''-f'', sts_compose_file S]"

definition dex_token_url :: pystr where
  "dex_token_url = lit ''http://localhost:5556/dex/token''"

definition sts_settings_of :: "pystr \<Rightarrow> environment \<Rightarrow> sts_settings" where
  "sts_settings_of compose_file env = \<lparr>sts_compose_file = compose_file,
     sts_user = cfg_str env ''MINIO_ROOT_USER'' (lit ''minioadmin''),
     sts_password = cfg_str env ''MINIO_ROOT_PASSWORD'' (lit ''minioadmin''),
     sts_bucket = cfg_str env ''S3_BUCKET'' (lit ''wms-orders-processed''),
     sts_region = cfg_str env ''S3_REGION'' (lit ''us-east-1'')\<rparr>"

definition minio_host :: pystr where
  "minio_host = lit ''localhost:9000''"

definition minio_url :: pystr where
  "minio_url = lit ''http://'' @ minio_host"

section \<open>The role\<close>

text \<open>
  \<open>re.search(r"roleARN:\s*(\S+)", text)\<close>: the first occurrence decides, because a later one
  would itself be text after the spaces of the first.
\<close>

fun find_role_arn :: "pystr \<Rightarrow> pystr option" where
  "find_role_arn [] = None"
| "find_role_arn (c # s) = (if starts_with (lit ''roleARN:'') (c # s)
     then (let arn = takeWhile (\<lambda>c. \<not> is_space c) (dropWhile is_space (drop 8 (c # s)))
           in if arn = [] then None else Some arn)
     else find_role_arn s)"

definition runtime_error :: "string \<Rightarrow> exn" where
  "runtime_error msg = mk_exn ''RuntimeError'' [Exception] (lit msg)"

text \<open>\<open>text=True\<close>: UTF-8 with universal newlines, decoded before the exit code is looked at.\<close>

definition captured_text :: "bytes \<Rightarrow> exn + pystr" where
  "captured_text bs = (case utf8_decode bs of
      Inl e \<Rightarrow> Inl (mk_exn ''UnicodeDecodeError'' [UnicodeDecodeError, ValueError, Exception] (utf8_reason e))
    | Inr t \<Rightarrow> Inr (replace_str [13] [10] (replace_str [13, 10] [10] t)))"

definition role_script :: "sts_settings \<Rightarrow> pystr" where
  "role_script S = lit ''mc alias set local http://minio:9000 '' @ [39] @ sts_user S @ [39] @ lit '' '' @ [39] @ sts_password S @ [39]
     @ lit '' >/dev/null 2>&1 && mc idp openid info local''"

definition discover_role_arn :: "script_env \<Rightarrow> sts_settings \<Rightarrow> pystr script" where
  "discover_role_arn E S =
     bind_io (run_program E (sts_compose S @ [lit ''run'', lit ''--rm'', lit ''--entrypoint'', lit ''sh'',
        lit ''minio-init'', lit ''-c'', role_script S])) (\<lambda>(code, out).
     bind_io (lift_sum (captured_text out)) (\<lambda>stdout.
     if code \<noteq> 0 then raise_io called_process_error
     else (case find_role_arn stdout of
         None \<Rightarrow> raise_io (runtime_error ''could not find roleARN in `mc admin idp openid info` output'')
       | Some arn \<Rightarrow> ret_io arn)))"

section \<open>Forms\<close>

definition form_byte :: "8 word \<Rightarrow> pystr" where
  "form_byte b = (if b = 32 then [43] else quote_byte b)"

text \<open>\<open>urllib.parse.quote_plus\<close> and \<open>urlencode\<close> of a dictionary of texts.\<close>

definition quote_plus :: "pystr \<Rightarrow> exn + pystr" where
  "quote_plus s = bind_sum (utf8_encode s) (\<lambda>bs. Inr (concat (map form_byte bs)))"

fun form_fields :: "(pystr \<times> pystr) list \<Rightarrow> exn + pystr list" where
  "form_fields [] = Inr []"
| "form_fields ((k, v) # kvs) =
     bind_sum (quote_plus k) (\<lambda>k'. bind_sum (quote_plus v) (\<lambda>v'.
     bind_sum (form_fields kvs) (\<lambda>fs. Inr ((k' @ [61] @ v') # fs))))"

definition urlencode :: "(pystr \<times> pystr) list \<Rightarrow> exn + pystr" where
  "urlencode kvs = bind_sum (form_fields kvs) (\<lambda>fs. Inr (join_str [38] fs))"

definition missing_key :: exn where
  "missing_key = mk_exn ''KeyError'' [Exception] []"

text \<open>The password grant for the demo user.\<close>

definition token_form :: "(pystr \<times> pystr) list" where
  "token_form = [(lit ''grant_type'', lit ''password''), (lit ''username'', lit ''worker@example.com''),
     (lit ''password'', lit ''password''), (lit ''scope'', lit ''openid''), (lit ''client_id'', lit ''minio-worker''),
     (lit ''client_secret'', lit ''minio-worker-secret'')]"

definition token_of :: "json \<Rightarrow> exn + json" where
  "token_of j = (case j of
      JObj kvs \<Rightarrow> (case obj_get kvs ''id_token'' of Some t \<Rightarrow> Inr t | None \<Rightarrow> Inl missing_key)
    | _ \<Rightarrow> Inl wrong_type)"

definition fetch_dex_id_token :: "script_env \<Rightarrow> json script" where
  "fetch_dex_id_token E =
     bind_io (lift_sum (bind_sum (urlencode token_form) utf8_encode)) (\<lambda>form.
     bind_io (fetch E \<lparr>req_url = dex_token_url, req_method = ''POST'',
        req_headers = [(lit ''Content-Type'', lit ''application/x-www-form-urlencoded'')], req_data = Some form\<rparr>) (\<lambda>body.
     lift_sum (bind_sum (parse_json E body) token_of)))"

text \<open>\<open>id_token[:40]\<close> needs a text or a list; a list is sent on as its \<open>str()\<close>.\<close>

definition token_text :: "script_env \<Rightarrow> json \<Rightarrow> exn + pystr" where
  "token_text E j = (case j of JStr t \<Rightarrow> Inr t | JArr js \<Rightarrow> Inr (list_text E js) | _ \<Rightarrow> Inl wrong_type)"

section \<open>Temporary credentials\<close>

record sts_creds =
  AccessKeyId :: "pystr option"
  SecretAccessKey :: "pystr option"
  SessionToken :: "pystr option"
  Expiration :: "pystr option"

definition sts_tag :: "string \<Rightarrow> pystr" where
  "sts_tag name = lit ''{https://sts.amazonaws.com/doc/2011-06-15/}'' @ lit name"

text \<open>The elements below one, in document order.\<close>

fun below :: "xml \<Rightarrow> xml list" where
  "below (Element t c xs) = concat (map (\<lambda>x. x # below x) xs)"

definition child_text :: "xml \<Rightarrow> string \<Rightarrow> exn + pystr option" where
  "child_text x name = (case List.find (\<lambda>y. xml_tag y = sts_tag name) (xml_children x) of
      Some y \<Rightarrow> Inr (xml_text y) | None \<Rightarrow> Inl attribute_error)"

definition creds_of :: "xml \<Rightarrow> exn + sts_creds" where
  "creds_of doc = (case List.find (\<lambda>y. xml_tag y = sts_tag ''Credentials'') (below doc) of
      None \<Rightarrow> Inl attribute_error
    | Some c \<Rightarrow>
        bind_sum (child_text c ''AccessKeyId'') (\<lambda>k.
        bind_sum (child_text c ''SecretAccessKey'') (\<lambda>s.
        bind_sum (child_text c ''SessionToken'') (\<lambda>t.
        bind_sum (child_text c ''Expiration'') (\<lambda>e.
        Inr \<lparr>AccessKeyId = k, SecretAccessKey = s, SessionToken = t, Expiration = e\<rparr>)))))"

definition role_form :: "pystr \<Rightarrow> pystr \<Rightarrow> (pystr \<times> pystr) list" where
  "role_form id_token role_arn = [(lit ''Action'', lit ''AssumeRoleWithWebIdentity''), (lit ''Version'', lit ''2011-06-15''),
     (lit ''WebIdentityToken'', id_token), (lit ''RoleArn'', role_arn), (lit ''DurationSeconds'', lit ''900'')]"

definition assume_role_with_web_identity :: "script_env \<Rightarrow> pystr \<Rightarrow> pystr \<Rightarrow> sts_creds script" where
  "assume_role_with_web_identity E id_token role_arn =
     bind_io (lift_sum (urlencode (role_form id_token role_arn))) (\<lambda>params.
     bind_io (fetch E \<lparr>req_url = minio_url @ lit ''/?'' @ params, req_method = ''POST'', req_headers = [], req_data = None\<rparr>) (\<lambda>body.
     lift_sum (bind_sum (parse_xml E body) creds_of)))"

section \<open>Signature Version 4\<close>

definition date_text :: "timestamp \<Rightarrow> pystr" where
  "date_text t = show_pad 4 (ts_year t) @ show_pad 2 (ts_month t) @ show_pad 2 (ts_day t)"

definition amz_text :: "timestamp \<Rightarrow> pystr" where
  "amz_text t = date_text t @ lit ''T'' @ show_pad 2 (ts_hour t) @ show_pad 2 (ts_minute t) @ show_pad 2 (ts_second t) @ lit ''Z''"

text \<open>\<open>str()\<close> of a value that may be \<open>None\<close>\<close>

definition opt_text :: "pystr option \<Rightarrow> pystr" where
  "opt_text x = (case x of Some s \<Rightarrow> s | None \<Rightarrow> lit ''None'')"

definition unsigned_headers :: "pystr \<Rightarrow> pystr \<Rightarrow> pystr \<Rightarrow> (pystr \<times> pystr) list" where
  "unsigned_headers payload_hash amz_date token = [(lit ''host'', minio_host), (lit ''x-amz-content-sha256'', payload_hash),
     (lit ''x-amz-date'', amz_date), (lit ''x-amz-security-token'', token)]"

definition header_line :: "(pystr \<times> pystr) list \<Rightarrow> pystr \<Rightarrow> pystr" where
  "header_line hs k = k @ [58] @ (case map_of hs k of Some v \<Rightarrow> v | None \<Rightarrow> []) @ [10]"

definition signed_keys :: "(pystr \<times> pystr) list \<Rightarrow> pystr list" where
  "signed_keys hs = sort (map fst hs)"

definition canonical_request :: "pystr \<Rightarrow> pystr \<Rightarrow> (pystr \<times> pystr) list \<Rightarrow> pystr \<Rightarrow> pystr" where
  "canonical_request meth path hs payload_hash = join_str [10] [meth, path, [],
     concat (map (header_line hs) (signed_keys hs)), join_str [59] (signed_keys hs), payload_hash]"

definition credential_scope :: "sts_settings \<Rightarrow> timestamp \<Rightarrow> pystr" where
  "credential_scope S t = join_str [47] [date_text t, sts_region S, lit ''s3'', lit ''aws4_request'']"

definition string_to_sign :: "pystr \<Rightarrow> pystr \<Rightarrow> bytes \<Rightarrow> pystr" where
  "string_to_sign amz_date scope request = join_str [10] [lit ''AWS4-HMAC-SHA256'', amz_date, scope, hex_of (sha256 request)]"

definition hmac_text :: "bytes \<Rightarrow> pystr \<Rightarrow> exn + bytes" where
  "hmac_text key msg = bind_sum (utf8_encode msg) (\<lambda>m. Inr (hmac_sha256 key m))"

definition signing_key :: "sts_settings \<Rightarrow> sts_creds \<Rightarrow> timestamp \<Rightarrow> exn + bytes" where
  "signing_key S c t = (case SecretAccessKey c of
      None \<Rightarrow> Inl wrong_type
    | Some secret \<Rightarrow>
        bind_sum (utf8_encode (lit ''AWS4'' @ secret)) (\<lambda>k0.
        bind_sum (hmac_text k0 (date_text t)) (\<lambda>k_date.
        bind_sum (hmac_text k_date (sts_region S)) (\<lambda>k_region.
        bind_sum (hmac_text k_region (lit ''s3'')) (\<lambda>k_service.
        hmac_text k_service (lit ''aws4_request''))))))"

definition authorization :: "sts_creds \<Rightarrow> pystr \<Rightarrow> pystr list \<Rightarrow> pystr \<Rightarrow> pystr" where
  "authorization c scope keys signature = lit ''AWS4-HMAC-SHA256 Credential='' @ opt_text (AccessKeyId c) @ lit ''/'' @ scope
     @ lit '', SignedHeaders='' @ join_str [59] keys @ lit '', Signature='' @ signature"

definition sigv4_headers ::
  "sts_settings \<Rightarrow> timestamp \<Rightarrow> pystr \<Rightarrow> pystr \<Rightarrow> bytes \<Rightarrow> sts_creds \<Rightarrow> exn + (pystr \<times> pystr) list" where
  "sigv4_headers S now meth path payload c =
     (let payload_hash = hex_of (sha256 payload);
          hs = unsigned_headers payload_hash (amz_text now) (opt_text (SessionToken c));
          scope = credential_scope S now
      in bind_sum (utf8_encode (canonical_request meth path hs payload_hash)) (\<lambda>request.
         bind_sum (signing_key S c now) (\<lambda>key.
         bind_sum (utf8_encode (string_to_sign (amz_text now) scope request)) (\<lambda>m.
         Inr (hs @ [(lit ''Authorization'', authorization c scope (signed_keys hs) (hex_of (hmac_sha256 key m)))])))))"

definition s3_request_of :: "pystr \<Rightarrow> pystr \<Rightarrow> bytes \<Rightarrow> (pystr \<times> pystr) list \<Rightarrow> http_request" where
  "s3_request_of meth path payload hs = \<lparr>req_url = minio_url @ path, req_method = map char_of meth,
     req_headers = hs, req_data = (if payload = [] then None else Some payload)\<rparr>"

text \<open>An HTTP error is an answer like any other; every other exception is passed on.\<close>

definition s3_request :: "script_env \<Rightarrow> sts_settings \<Rightarrow> pystr \<Rightarrow> pystr \<Rightarrow> sts_creds \<Rightarrow> bytes \<Rightarrow> (nat \<times> bytes) script" where
  "s3_request E S meth path c payload =
     bind_io (utc_now E) (\<lambda>now.
     bind_io (lift_sum (sigv4_headers S now meth path payload c)) (\<lambda>hs.
     bind_io (open_url E (s3_request_of meth path payload hs)) (\<lambda>reply. case reply of
        HttpOk status body \<Rightarrow> ret_io (status, body)
      | HttpFailed status body \<Rightarrow> ret_io (status, body)
      | UrlFailed x \<Rightarrow> raise_io x
      | OpenRaised x \<Rightarrow> raise_io x)))"

section \<open>The run\<close>

definition ascii_bytes :: "string \<Rightarrow> bytes" where
  "ascii_bytes s = map of_char s"

definition sts_body :: bytes where
  "sts_body = ascii_bytes ''hello from MinIO STS / Workload Identity Federation PoC'' @ [10]"

text \<open>\<open>needle in body\<close>\<close>

fun occurs_in :: "bytes \<Rightarrow> bytes \<Rightarrow> bool" where
  "occurs_in needle [] = (needle = [])"
| "occurs_in needle (b # bs) = (take (length needle) (b # bs) = needle \<or> occurs_in needle bs)"

definition put_get_delete :: "script_env \<Rightarrow> sts_settings \<Rightarrow> pystr \<Rightarrow> sts_creds \<Rightarrow> int script" where
  "put_get_delete E S path c =
     bind_io (s3_request E S (lit ''PUT'') path c sts_body) (\<lambda>(status, _).
     if status \<noteq> 200 then ret_io 1
     else bind_io (s3_request E S (lit ''GET'') path c []) (\<lambda>(status, body).
       if status \<noteq> 200 \<or> body \<noteq> sts_body then ret_io 1
       else bind_io (s3_request E S (lit ''DELETE'') path c []) (\<lambda>(status, body).
         if status = 403 \<and> occurs_in (ascii_bytes ''AccessDenied'') body then ret_io 0 else ret_io 1)))"

text \<open>\<open>creds['SessionToken'][:40]\<close> ends the script when there is no token text.\<close>

definition sts_main :: "script_env \<Rightarrow> sts_settings \<Rightarrow> int script" where
  "sts_main E S =
     bind_io (discover_role_arn E S) (\<lambda>role_arn.
     bind_io (fetch_dex_id_token E) (\<lambda>token.
     bind_io (lift_sum (token_text E token)) (\<lambda>id_token.
     bind_io (assume_role_with_web_identity E id_token role_arn) (\<lambda>c.
     if SessionToken c = None then raise_io wrong_type
     else bind_io (random_uuid E) (\<lambda>uid.
       put_get_delete E S (lit ''/'' @ sts_bucket S @ lit ''/sts-poc/'' @ replace_str (lit ''-'') [] uid @ lit ''.txt'') c)))))"

definition sts_script :: "script_env \<Rightarrow> pystr \<Rightarrow> environment \<Rightarrow> int script" where
  "sts_script E script env = sts_main E (sts_settings_of (sts_compose_path script) env)"

end
