(* ===== verification/Drop_Files.thy ===== *)
theory Drop_Files
  imports Script_World
begin

text \<open>
  \<open>scripts/drop-test-files.py\<close>: order CSVs with random rows are dropped onto the SFTP server, and the
  script waits until every one of them is in both object stores. The waiting loop ends when the clock passes
  its deadline, which only the outside decides; it runs on \<open>fuel\<close> and gives \<open>Hang\<close> without.
\<close>

record drop_settings =
  drop_compose_file :: pystr
  drop_s3_bucket :: pystr
  drop_gcs_bucket :: pystr
  minio_user :: pystr
  minio_password :: pystr
  drop_timeout :: pyfloat
  file_count :: int
  verify :: bool

definition drop_compose_path :: "pystr \<Rightarrow> pystr" where
  "drop_compose_path script = repository_file script [lit ''infra'', lit ''docker-compose.yml'']"

text \<open>The module's constants; a malformed number ends the script at import.\<close>

definition drop_settings_of :: "pystr \<Rightarrow> environment \<Rightarrow> exn + drop_settings" where
  "drop_settings_of compose_file env =
     bind_sum (cfg_float env ''TIMEOUT'' (Finite 60)) (\<lambda>timeout.
     bind_sum (cfg_int env ''FILE_COUNT'' 5) (\<lambda>n.
     Inr \<lparr>drop_compose_file = compose_file,
       drop_s3_bucket = cfg_str env ''S3_BUCKET'' (lit ''wms-orders-processed''),
       drop_gcs_bucket = cfg_str env ''GCS_BUCKET'' (lit ''wms-orders-processed''),
       minio_user = cfg_str env ''MINIO_ROOT_USER'' (lit ''minioadmin''),
       minio_password = cfg_str env ''MINIO_ROOT_PASSWORD'' (lit ''minioadmin''),
       drop_timeout = timeout, file_count = n,
       verify = (cfg_str env ''VERIFY'' (lit ''1'') \<noteq> lit ''0'')\<rparr>))"

definition channels :: "pystr list" where
  "channels = [lit ''storefront'', lit ''ebay'', lit ''amazon'']"

definition csv_header :: pystr where
  "csv_header = lit ''order_id,sku,quantity,channel''"

definition order_line_text :: "pystr \<Rightarrow> pystr \<Rightarrow> nat \<Rightarrow> int \<Rightarrow> int \<Rightarrow> pystr \<Rightarrow> pystr" where
  "order_line_text ts idx line_no sku qty ch =
     lit ''ORD-'' @ ts @ lit ''-'' @ idx @ lit ''-'' @ show_nat line_no @ lit '',SKU-'' @ show_int sku @ lit '','' @ show_int qty @ lit '','' @ ch"

text \<open>\<open>k\<close> more lines, the next one having the number \<open>line_no\<close>.\<close>

fun csv_lines :: "script_env \<Rightarrow> pystr \<Rightarrow> pystr \<Rightarrow> nat \<Rightarrow> nat \<Rightarrow> pystr list script" where
  "csv_lines E ts idx 0 line_no = ret_io []"
| "csv_lines E ts idx (Suc k) line_no =
     bind_io (randint E 1000 9999) (\<lambda>sku.
     bind_io (randint E 1 10) (\<lambda>qty.
     bind_io (choice E channels) (\<lambda>ch.
     bind_io (csv_lines E ts idx k (Suc line_no)) (\<lambda>rest.
     ret_io (order_line_text ts idx line_no sku qty ch # rest)))))"

definition build_csv :: "script_env \<Rightarrow> pystr \<Rightarrow> pystr \<Rightarrow> pystr script" where
  "build_csv E ts idx = bind_io (randint E 1 5) (\<lambda>n.
     bind_io (csv_lines E ts idx (nat n) 1) (\<lambda>lines.
     ret_io (join_str [10] (csv_header # lines) @ [10])))"

definition drop_filename :: "pystr \<Rightarrow> pystr \<Rightarrow> pystr" where
  "drop_filename ts idx = lit ''ORD-'' @ ts @ lit ''-'' @ idx @ lit ''.csv''"

text \<open>The first loop of \<open>main\<close>: file names and temporary paths.\<close>

fun make_files :: "script_env \<Rightarrow> pystr \<Rightarrow> nat \<Rightarrow> nat \<Rightarrow> (pystr \<times> pystr) list script" where
  "make_files E ts 0 i = ret_io []"
| "make_files E ts (Suc k) i =
     bind_io (build_csv E ts (show_pad 3 i)) (\<lambda>text.
     bind_io (write_temp E text) (\<lambda>path.
     bind_io (make_files E ts k (Suc i)) (\<lambda>rest.
     ret_io ((drop_filename ts (show_pad 3 i), path) # rest))))"

fun copy_files :: "script_env \<Rightarrow> drop_settings \<Rightarrow> (pystr \<times> pystr) list \<Rightarrow> unit script" where
  "copy_files E D [] = ret_io ()"
| "copy_files E D ((filename, path) # files) =
     bind_io (run_checked E (compose (drop_compose_file D) @ [lit ''cp'', path, lit ''sftp:/config/upload/'' @ filename]))
       (\<lambda>_. copy_files E D files)"

definition chown_script :: "pystr \<Rightarrow> pystr" where
  "chown_script pattern = lit ''chown sftpuser:sftpuser /config/upload/'' @ pattern
     @ lit '' && chmod 664 /config/upload/'' @ pattern"

definition exec_sftp :: "pystr \<Rightarrow> pystr \<Rightarrow> pystr list" where
  "exec_sftp compose_file command = compose compose_file @ [lit ''exec'', lit ''-T'', lit ''sftp'', lit ''sh'', lit ''-c'', command]"

text \<open>\<open>all(gcs_has(key) for key in keys)\<close> stops at the first missing key.\<close>

fun gcs_has_all :: "script_env \<Rightarrow> pystr \<Rightarrow> pystr list \<Rightarrow> bool script" where
  "gcs_has_all E bucket [] = ret_io True"
| "gcs_has_all E bucket (key # keys) = bind_io (gcs_has E bucket key) (\<lambda>b.
     if b then gcs_has_all E bucket keys else ret_io False)"

definition quoted :: "pystr \<Rightarrow> pystr" where
  "quoted s = [39] @ s @ [39]"

definition s3_check_script :: "drop_settings \<Rightarrow> pystr list \<Rightarrow> pystr" where
  "s3_check_script D keys =
     lit ''mc alias set local http://minio:9000 '' @ quoted (minio_user D) @ lit '' '' @ quoted (minio_password D)
     @ lit '' >/dev/null 2>&1 && '' @ join_str (lit '' && '')
        (map (\<lambda>key. lit ''mc stat '' @ quoted (lit ''local/'' @ drop_s3_bucket D @ lit ''/'' @ key) @ lit '' >/dev/null 2>&1'') keys)"

definition s3_has_all :: "script_env \<Rightarrow> drop_settings \<Rightarrow> pystr list \<Rightarrow> bool script" where
  "s3_has_all E D keys = bind_io
     (run_program E (compose (drop_compose_file D) @ [lit ''run'', lit ''--rm'', lit ''--entrypoint'', lit ''sh'', lit ''minio-init'',
        lit ''-c'', s3_check_script D keys]))
     (\<lambda>(code, out). ret_io (code = 0))"

definition all_landed :: "script_env \<Rightarrow> drop_settings \<Rightarrow> pystr list \<Rightarrow> bool script" where
  "all_landed E D keys = bind_io (gcs_has_all E (drop_gcs_bucket D) keys) (\<lambda>b.
     if b then s3_has_all E D keys else ret_io False)"

definition wait_for_files :: "nat \<Rightarrow> script_env \<Rightarrow> drop_settings \<Rightarrow> pystr list \<Rightarrow> bool script" where
  "wait_for_files fuel E D keys = poll_until fuel E 2 (all_landed E D keys)"

definition drop_main :: "nat \<Rightarrow> script_env \<Rightarrow> drop_settings \<Rightarrow> int script" where
  "drop_main fuel E D =
     bind_io (local_now E) (\<lambda>now. let ts = compact_time now in
     bind_io (make_files E ts (nat (file_count D)) 1) (\<lambda>files.
     bind_io (try_finally
         (bind_io (copy_files E D files) (\<lambda>_.
            run_checked E (exec_sftp (drop_compose_file D) (chown_script (lit ''ORD-'' @ ts @ lit ''-*.csv'')))))
         (unlink_all (map snd files))) (\<lambda>_.
     if \<not> verify D then ret_io 0
     else bind_io (record_call AskClock) (\<lambda>_.
       bind_io (wait_for_files fuel E D (map fst files)) (\<lambda>ok.
       if ok then ret_io 0
       else bind_io (run_program E (compose (drop_compose_file D) @ [lit ''logs'', lit ''--tail=50'', lit ''worker''])) (\<lambda>_.
         ret_io 1))))))"

text \<open>\<open>raise SystemExit(main())\<close>: the program, from its path and environment to its exit code.\<close>

definition drop_script :: "nat \<Rightarrow> script_env \<Rightarrow> pystr \<Rightarrow> environment \<Rightarrow> int script" where
  "drop_script fuel E script env = bind_io (lift_sum (drop_settings_of (drop_compose_path script) env)) (drop_main fuel E)"

end
