(* ===== verification/Replay.thy ===== *)
theory Replay
  imports Script_World
begin

text \<open>
  \<open>scripts/replay-duplicate-event.py\<close>: one order CSV is dropped onto the SFTP server; once it is in the
  object store, a fresh event with the idempotency key of that file is published through RabbitMQ's
  management API, and the script waits until the worker's metrics count the duplicate. Both waiting loops end
  by the clock; they run on \<open>fuel\<close> and give \<open>Hang\<close> without.
\<close>

section \<open>Settings\<close>

record replay_settings =
  rp_compose_file :: pystr
  rp_s3_bucket :: pystr
  rp_s3_region :: pystr
  rp_gcs_bucket :: pystr
  rp_user :: pystr
  rp_pass :: pystr
  rp_vhost :: pystr
  rp_queue :: pystr
  rp_secret :: pystr
  rp_watch_dir :: pystr
  rp_timeout :: pyfloat

definition replay_compose_path :: "pystr \<Rightarrow> pystr" where
  "replay_compose_path script = repository_file script [lit ''infra'', lit ''docker-compose.yml'']"

definition replay_compose :: "replay_settings \<Rightarrow> pystr list" where
  "replay_compose R = [lit ''docker'', lit ''compose'', lit ''-f'', rp_compose_file R]"

definition metrics_url :: pystr where
  "metrics_url = lit ''http://localhost:8080/metrics''"

definition replay_settings_of :: "pystr \<Rightarrow> environment \<Rightarrow> exn + replay_settings" where
  "replay_settings_of compose_file env = bind_sum (cfg_float env ''TIMEOUT'' (Finite 60)) (\<lambda>timeout.
     Inr \<lparr>rp_compose_file = compose_file,
       rp_s3_bucket = cfg_str env ''S3_BUCKET'' (lit ''wms-orders-processed''),
       rp_s3_region = cfg_str env ''S3_REGION'' (lit ''us-east-1''),
       rp_gcs_bucket = cfg_str env ''GCS_BUCKET'' (lit ''wms-orders-processed''),
       rp_user = cfg_str env ''RABBITMQ_USER'' (lit ''guest''),
       rp_pass = cfg_str env ''RABBITMQ_PASS'' (lit ''guest''),
       rp_vhost = cfg_str env ''RABBITMQ_VHOST'' (lit ''/''),
       rp_queue = cfg_str env ''QUEUE_NAME'' (lit ''orders.inbound''),
       rp_secret = cfg_str env ''CORRELATION_SECRET'' (lit ''dev-secret-change-me''),
       rp_watch_dir = cfg_str env ''WATCH_DIR'' (lit ''/watch''),
       rp_timeout = timeout\<rparr>)"

section \<open>Its own copies\<close>

text \<open>The script repeats \<open>gcs_has\<close> of the drop script and \<open>compute_idempotency_key\<close> of the worker.\<close>

definition replay_gcs_has :: "script_env \<Rightarrow> replay_settings \<Rightarrow> pystr \<Rightarrow> bool script" where
  "replay_gcs_has E R key = bind_io (lift_sum (url_quote key)) (\<lambda>q.
     bind_io (open_url E (get_request (lit ''http://localhost:4443/storage/v1/b/'' @ rp_gcs_bucket R @ lit ''/o/'' @ q))) (\<lambda>r. case r of
        HttpOk _ _ \<Rightarrow> ret_io True
      | HttpFailed _ _ \<Rightarrow> ret_io False
      | UrlFailed _ \<Rightarrow> ret_io False
      | OpenRaised x \<Rightarrow> raise_io x))"

definition replay_idempotency_key :: "pystr \<Rightarrow> pystr \<Rightarrow> nat \<Rightarrow> pystr \<Rightarrow> exn + pystr" where
  "replay_idempotency_key secret source_path size_bytes checksum =
     bind_sum (utf8_encode (source_path @ lit ''|'' @ show_nat size_bytes @ lit ''|'' @ checksum)) (\<lambda>message.
     bind_sum (utf8_encode secret) (\<lambda>key.
     Inr (lit ''sha256:'' @ hex_of (hmac_sha256 key message))))"

text \<open>The copies agree with the originals.\<close>

lemma replay_gcs_has_same: "replay_gcs_has E R key = gcs_has E (rp_gcs_bucket R) key"
  by (cases "url_quote key") (simp_all add: replay_gcs_has_def gcs_has_def gcs_object_url_def lift_sum_def)

lemma replay_key_same: "replay_idempotency_key secret path n checksum = compute_idempotency_key secret path (int n) checksum"
  by (simp add: replay_idempotency_key_def compute_idempotency_key_def key_message_def show_int_def lit_def)

section \<open>Metrics\<close>

text \<open>
  The pattern \<open>^name ([0-9.e+-]+)$\<close> in multi-line mode: a whole line that starts with the name and a space
  and has only characters of numbers after it. The name is matched literally and has no line feed.
\<close>

definition number_char :: "nat \<Rightarrow> bool" where
  "number_char c \<longleftrightarrow> (48 \<le> c \<and> c \<le> 57) \<or> List.member (lit ''.e+-'') c"

definition metric_value :: "pystr \<Rightarrow> pystr \<Rightarrow> pystr option" where
  "metric_value series line = (let value = drop (length series + 1) line in
     if starts_with (series @ [32]) line \<and> value \<noteq> [] \<and> list_all number_char value then Some value else None)"

definition find_metric :: "pystr \<Rightarrow> pystr \<Rightarrow> pystr option" where
  "find_metric series text = (case List.find (\<lambda>l. metric_value series l \<noteq> None) (split_on 10 text) of
      Some line \<Rightarrow> metric_value series line | None \<Rightarrow> None)"

definition series_name :: "pystr \<Rightarrow> pystr option \<Rightarrow> pystr" where
  "series_name name label = (case label of None \<Rightarrow> name | Some l \<Rightarrow> name @ lit ''{'' @ l @ lit ''}'')"

definition read_metric :: "pystr \<Rightarrow> pystr \<Rightarrow> exn + pyfloat" where
  "read_metric series text = (case find_metric series text of Some v \<Rightarrow> py_float v | None \<Rightarrow> Inr (Finite 0))"

definition decoded :: "bytes \<Rightarrow> exn + pystr" where
  "decoded bs = (case utf8_decode bs of
      Inl e \<Rightarrow> Inl (mk_exn ''UnicodeDecodeError'' [UnicodeDecodeError, ValueError, Exception] (utf8_reason e))
    | Inr t \<Rightarrow> Inr t)"

text \<open>\<open>HTTPError\<close> is a \<open>URLError\<close>: both count as an absent metric.\<close>

definition get_metric :: "script_env \<Rightarrow> pystr \<Rightarrow> pystr option \<Rightarrow> pyfloat script" where
  "get_metric E name label = bind_io (open_url E (get_request metrics_url)) (\<lambda>reply. case reply of
      HttpOk _ body \<Rightarrow> lift_sum (bind_sum (decoded body) (read_metric (series_name name label)))
    | HttpFailed _ _ \<Rightarrow> ret_io (Finite 0)
    | UrlFailed _ \<Rightarrow> ret_io (Finite 0)
    | OpenRaised x \<Rightarrow> raise_io x)"

definition hits_metric :: "script_env \<Rightarrow> pyfloat script" where
  "hits_metric E = get_metric E (lit ''idempotency_hits_total'') None"

definition duplicates_metric :: "script_env \<Rightarrow> pyfloat script" where
  "duplicates_metric E = get_metric E (lit ''events_consumed_total'') (Some (lit ''result='' @ [34] @ lit ''duplicate'' @ [34]))"

section \<open>Publishing through the management API\<close>

definition publish_body :: "pystr \<Rightarrow> pystr \<Rightarrow> json" where
  "publish_body queue payload = JObj [
     (lit ''properties'', JObj [(lit ''content_type'', JStr (lit ''application/json'')), (lit ''delivery_mode'', JInt 2)]),
     (lit ''routing_key'', JStr queue),
     (lit ''payload'', JStr payload),
     (lit ''payload_encoding'', JStr (lit ''string''))]"

definition publish_request :: "replay_settings \<Rightarrow> pystr \<Rightarrow> exn + http_request" where
  "publish_request R payload =
     bind_sum (url_quote (rp_vhost R)) (\<lambda>vhost.
     bind_sum (utf8_encode (dumps (publish_body (rp_queue R) payload))) (\<lambda>body.
     bind_sum (utf8_encode (rp_user R @ lit '':'' @ rp_pass R)) (\<lambda>creds.
     Inr \<lparr>req_url = lit ''http://localhost:15672/api/exchanges/'' @ vhost @ lit ''/amq.default/publish'',
       req_method = ''POST'',
       req_headers = [(lit ''Content-Type'', lit ''application/json''),
         (lit ''Authorization'', lit ''Basic '' @ b64encode (map unat creds))],
       req_data = Some body\<rparr>)))"

definition routed_of :: "json \<Rightarrow> exn + bool" where
  "routed_of j = (case j of
      JObj kvs \<Rightarrow> Inr (case obj_get kvs ''routed'' of Some v \<Rightarrow> truthy v | None \<Rightarrow> False)
    | _ \<Rightarrow> Inl attribute_error)"

definition rabbitmq_publish :: "script_env \<Rightarrow> replay_settings \<Rightarrow> pystr \<Rightarrow> bool script" where
  "rabbitmq_publish E R payload =
     bind_io (lift_sum (publish_request R payload)) (\<lambda>r.
     bind_io (fetch E r) (\<lambda>body.
     lift_sum (bind_sum (parse_json E body) routed_of)))"

section \<open>The event\<close>

definition replay_file :: "pystr \<Rightarrow> pystr" where
  "replay_file ts = lit ''ORD-'' @ ts @ lit ''-dup.csv''"

definition replay_content :: "pystr \<Rightarrow> pystr" where
  "replay_content ts = lit ''order_id,sku,quantity,channel'' @ [10] @ lit ''ORD-'' @ ts @ lit ''-dup-1,SKU-1234,3,storefront'' @ [10]"

definition replay_event ::
  "replay_settings \<Rightarrow> pystr \<Rightarrow> nat \<Rightarrow> pystr \<Rightarrow> pystr \<Rightarrow> pystr \<Rightarrow> pystr \<Rightarrow> pystr \<Rightarrow> json" where
  "replay_event R filename size_bytes checksum key event_id correlation_id now = JObj [
     (lit ''schemaVersion'', JStr (lit ''1.0'')),
     (lit ''eventType'', JStr (lit ''file.transfer.requested'')),
     (lit ''eventId'', JStr event_id),
     (lit ''correlationId'', JStr correlation_id),
     (lit ''idempotencyKey'', JStr key),
     (lit ''occurredAt'', JStr now),
     (lit ''source'', JObj [(lit ''provider'', JStr (lit ''sftp'')), (lit ''path'', JStr (rp_watch_dir R @ lit ''/'' @ filename))]),
     (lit ''file'', JObj [(lit ''name'', JStr filename), (lit ''sizeBytes'', JInt (int size_bytes)),
        (lit ''checksumSha256'', JStr checksum), (lit ''contentType'', JStr (lit ''text/csv''))]),
     (lit ''destinations'', JArr [
        JObj [(lit ''provider'', JStr (lit ''aws-s3'')), (lit ''bucket'', JStr (rp_s3_bucket R)), (lit ''key'', JStr filename),
          (lit ''region'', JStr (rp_s3_region R))],
        JObj [(lit ''provider'', JStr (lit ''gcp-gcs'')), (lit ''bucket'', JStr (rp_gcs_bucket R)), (lit ''key'', JStr filename)]])]"

section \<open>The run\<close>

definition replay_logs :: "script_env \<Rightarrow> replay_settings \<Rightarrow> pystr \<Rightarrow> int \<Rightarrow> int script" where
  "replay_logs E R tail code = bind_io (run_program E (replay_compose R @ [lit ''logs'', tail, lit ''worker'']))
     (\<lambda>_. ret_io code)"

text \<open>\<open>while not gcs_has(filename)\<close>: whether the file was seen before the deadline.\<close>

fun wait_for_object :: "nat \<Rightarrow> script_env \<Rightarrow> replay_settings \<Rightarrow> pystr \<Rightarrow> bool script" where
  "wait_for_object 0 E R filename = hang_io"
| "wait_for_object (Suc fuel) E R filename = bind_io (replay_gcs_has E R filename) (\<lambda>there.
     if there then ret_io True
     else bind_io (now_is_past E) (\<lambda>past.
       if past then ret_io False
       else bind_io (record_call (Sleep 2)) (\<lambda>_. wait_for_object fuel E R filename)))"

definition metrics_grew :: "script_env \<Rightarrow> pyfloat \<Rightarrow> pyfloat \<Rightarrow> bool script" where
  "metrics_grew E hits_before dup_before =
     bind_io (hits_metric E) (\<lambda>hits_after.
     bind_io (duplicates_metric E) (\<lambda>dup_after.
     ret_io (fgreater hits_after hits_before \<and> fgreater dup_after dup_before)))"

definition wait_for_metrics :: "nat \<Rightarrow> script_env \<Rightarrow> pyfloat \<Rightarrow> pyfloat \<Rightarrow> bool script" where
  "wait_for_metrics fuel E hits_before dup_before = poll_until fuel E 1 (metrics_grew E hits_before dup_before)"

text \<open>Lines 124-156: the file is dropped and its temporary copy removed.\<close>

definition drop_replay_file :: "script_env \<Rightarrow> replay_settings \<Rightarrow> pystr \<Rightarrow> unit script" where
  "drop_replay_file E R ts =
     bind_io (write_temp E (replay_content ts)) (\<lambda>path.
     try_finally
       (bind_io (run_checked E (replay_compose R @ [lit ''cp'', path, lit ''sftp:/config/upload/'' @ replay_file ts])) (\<lambda>_.
        bind_io (run_checked E (replay_compose R @ [lit ''exec'', lit ''-T'', lit ''sftp'', lit ''sh'', lit ''-c'',
          lit ''chown sftpuser:sftpuser /config/upload/'' @ replay_file ts @ lit '' && chmod 664 /config/upload/'' @ replay_file ts])) (\<lambda>_.
        ret_io ())))
       (record_call (Unlink path)))"

text \<open>Lines 168-190: the fresh event of the processed file.\<close>

definition fresh_event :: "script_env \<Rightarrow> replay_settings \<Rightarrow> pystr \<Rightarrow> bytes \<Rightarrow> json script" where
  "fresh_event E R filename content =
     bind_io (lift_sum (replay_idempotency_key (rp_secret R) (rp_watch_dir R @ lit ''/'' @ filename)
        (length content) (hex_of (sha256 content)))) (\<lambda>key.
     bind_io (random_uuid E) (\<lambda>event_id.
     bind_io (random_uuid E) (\<lambda>correlation_id.
     bind_io (utc_now E) (\<lambda>now.
     ret_io (replay_event R filename (length content) (hex_of (sha256 content)) key event_id correlation_id (iso_text now @ lit ''Z''))))))"

text \<open>Lines 192-218: publish and wait for both counters.\<close>

definition replay_and_wait :: "nat \<Rightarrow> script_env \<Rightarrow> replay_settings \<Rightarrow> json \<Rightarrow> int script" where
  "replay_and_wait fuel E R event =
     bind_io (hits_metric E) (\<lambda>hits_before.
     bind_io (duplicates_metric E) (\<lambda>dup_before.
     bind_io (rabbitmq_publish E R (dumps event)) (\<lambda>routed.
     if \<not> routed then ret_io 1
     else bind_io (record_call AskClock) (\<lambda>_.
       bind_io (wait_for_metrics fuel E hits_before dup_before) (\<lambda>ok.
       if ok then replay_logs E R (lit ''--tail=20'') 0 else replay_logs E R (lit ''--tail=50'') 1)))))"

definition replay_main :: "nat \<Rightarrow> script_env \<Rightarrow> replay_settings \<Rightarrow> int script" where
  "replay_main fuel E R =
     bind_io (local_now E) (\<lambda>now. let ts = compact_time now in
     bind_io (lift_sum (utf8_encode (replay_content ts))) (\<lambda>content.
     bind_io (drop_replay_file E R ts) (\<lambda>_.
     bind_io (record_call AskClock) (\<lambda>_.
     bind_io (wait_for_object fuel E R (replay_file ts)) (\<lambda>ok.
     if \<not> ok then replay_logs E R (lit ''--tail=50'') 1
     else bind_io (fresh_event E R (replay_file ts) content) (replay_and_wait fuel E R))))))"

definition replay_script :: "nat \<Rightarrow> script_env \<Rightarrow> pystr \<Rightarrow> environment \<Rightarrow> int script" where
  "replay_script fuel E script env = bind_io (lift_sum (replay_settings_of (replay_compose_path script) env)) (replay_main fuel E)"

end
