(* ===== verification/Script_Lemmas.thy ===== *)
theory Script_Lemmas
  imports Drop_Files Replay Sts Url_Text Ingestion Csv_Security Watcher_Lemmas
begin

text \<open>
  Lemmas on the operator scripts: their calls only extend the history and never wait for ever (\<open>calm\<close>),
  the waiting loops end by the deadline, the generated order files are plain order tables, and a form is read
  back as the fields it was made from.
\<close>

section \<open>Calls extend the history and come back\<close>

named_theorems calm_rules \<open>calls that come back\<close>

definition calm :: "'a script \<Rightarrow> bool" where
  "calm m \<longleftrightarrow> (\<forall>h. fst (m h) \<noteq> Hang \<and> (\<exists>g. snd (m h) = h @ g))"

lemma calmE:
  assumes "calm m" and "m h = (r, h')"
  obtains g where "r \<noteq> Hang" and "h' = h @ g"
  using assms by (metis calm_def fst_conv snd_conv)

lemma calm_basic [calm_rules]: "calm (ret_io x)" "calm (raise_io e)" "calm (get_io f)" "calm (record_call c)"
  by (simp_all add: calm_def ret_io_def raise_io_def get_io_def record_call_def modify_io_def)

lemma calm_lift_sum [calm_rules]: "calm (lift_sum r)"
  by (cases r) (simp_all add: lift_sum_def calm_basic)

lemma calm_bind [calm_rules]:
  assumes "calm m" and "\<And>x. calm (f x)"
  shows "calm (bind_io m f)"
  unfolding calm_def
proof
  fix h
  obtain r h1 where m: "m h = (r, h1)" by fastforce
  then obtain g where g: "r \<noteq> Hang" "h1 = h @ g" using assms(1) by (blast elim: calmE)
  show "fst (bind_io m f h) \<noteq> Hang \<and> (\<exists>g. snd (bind_io m f h) = h @ g)"
  proof (cases r)
    case (Return x)
    obtain r2 h2 where f: "f x h1 = (r2, h2)" by fastforce
    then obtain g2 where "r2 \<noteq> Hang" "h2 = h1 @ g2" using assms(2) by (blast elim: calmE)
    then show ?thesis using m f Return g by (simp add: bind_io_def)
  qed (use m g in \<open>auto simp: bind_io_def\<close>)
qed

lemma calm_finally [calm_rules]:
  assumes "calm m" and "calm f"
  shows "calm (try_finally m f)"
  unfolding calm_def
proof
  fix h
  obtain r h1 where m: "m h = (r, h1)" by fastforce
  then obtain g where g: "r \<noteq> Hang" "h1 = h @ g" using assms(1) by (blast elim: calmE)
  obtain r2 h2 where f: "f h1 = (r2, h2)" by fastforce
  then obtain g2 where "r2 \<noteq> Hang" "h2 = h1 @ g2" using assms(2) by (blast elim: calmE)
  then show "fst (try_finally m f h) \<noteq> Hang \<and> (\<exists>g. snd (try_finally m f h) = h @ g)"
    using m f g by (cases r; cases r2) (auto simp: try_finally_def)
qed

lemma calm_if [calm_rules]: "calm m \<Longrightarrow> calm n \<Longrightarrow> calm (if b then m else n)"
  by simp

lemma calm_cases [calm_rules]:
  "(\<And>a b. calm (p a b)) \<Longrightarrow> calm (case x of (a, b) \<Rightarrow> p a b)"
  "(\<And>n b. calm (ok n b)) \<Longrightarrow> (\<And>n b. calm (failed n b)) \<Longrightarrow> (\<And>x. calm (url x)) \<Longrightarrow> (\<And>x. calm (raised x)) \<Longrightarrow>
     calm (case reply of HttpOk n b \<Rightarrow> ok n b | HttpFailed n b \<Rightarrow> failed n b | UrlFailed x \<Rightarrow> url x | OpenRaised x \<Rightarrow> raised x)"
  "calm none \<Longrightarrow> (\<And>y. calm (some y)) \<Longrightarrow> calm (case z of None \<Rightarrow> none | Some y \<Rightarrow> some y)"
  by (simp_all split: prod.split http_reply.split option.split)

lemma calm_consult [calm_rules]: "calm (consult f c)"
  unfolding consult_def by (intro calm_rules)

lemma calm_calls [calm_rules]: "calm (run_program E argv)" "calm (open_url E r)" "calm (randint E a b)" "calm (choice E xs)"
    "calm (now_is_past E)" "calm (local_now E)" "calm (utc_now E)" "calm (random_uuid E)" "calm (write_temp E t)"
  unfolding run_program_def open_url_def randint_def choice_def now_is_past_def local_now_def utc_now_def random_uuid_def
    write_temp_def by (intro calm_rules)+

lemma calm_run_checked [calm_rules]: "calm (run_checked E argv)"
  unfolding run_checked_def by (intro calm_rules)

lemma calm_fetch [calm_rules]: "calm (fetch E r)" "calm (gcs_has E b k)" "calm (replay_gcs_has E R k)" "calm (get_metric E name label)"
  unfolding replay_gcs_has_same fetch_def gcs_has_def get_metric_def by (intro calm_rules)+

lemma calm_unlink_all [calm_rules]: "calm (unlink_all paths)"
  by (induction paths) (auto intro!: calm_rules)

section \<open>Waiting loops end by the deadline\<close>

definition sleeps :: "script_call list \<Rightarrow> nat" where
  "sleeps h = length (filter (\<lambda>c. \<exists>n. c = Sleep n) h)"

lemma sleeps_simps [simp]: "sleeps (g @ h) = sleeps g + sleeps h" "sleeps [] = 0"
    "sleeps (c # h) = (if \<exists>n. c = Sleep n then Suc (sleeps h) else sleeps h)"
  by (simp_all add: sleeps_def)

text \<open>How a loop over \<open>test\<close> ends: the test succeeded last, the deadline has passed, or the test raised.\<close>

definition polled :: "script_env \<Rightarrow> bool script \<Rightarrow> bool outcome \<Rightarrow> script_call list \<Rightarrow> bool" where
  "polled E test r h' \<longleftrightarrow> (case r of
      Return True \<Rightarrow> \<exists>g. test g = (Return True, h')
    | Return False \<Rightarrow> \<exists>g. deadline_passed E g \<and> h' = g @ [AskClock]
    | Raise x \<Rightarrow> \<exists>g. test g = (Raise x, h')
    | Hang \<Rightarrow> False)"

lemma now_is_past_runs: "now_is_past E h = (Return (deadline_passed E h), h @ [AskClock])"
  by (simp add: now_is_past_def consult_def bind_io_def get_io_def record_call_def modify_io_def ret_io_def)

lemma poll_until_ends:
  assumes past: "\<And>h. n \<le> sleeps h \<Longrightarrow> deadline_passed E h" and test: "calm test" and "n - sleeps h < fuel"
  shows "\<exists>r h'. poll_until fuel E pause test h = (r, h') \<and> polled E test r h' \<and> (\<exists>g. h' = h @ g)"
  using assms(3)
proof (induction fuel arbitrary: h)
  case (Suc fuel)
  show ?case
  proof (cases "deadline_passed E h")
    case True
    then show ?thesis by (auto simp: bind_io_def now_is_past_runs ret_io_def polled_def)
  next
    case False
    then have n: "sleeps h < n" using past [of h] by linarith
    obtain r h2 where t: "test (h @ [AskClock]) = (r, h2)" by fastforce
    then obtain g where g: "r \<noteq> Hang" "h2 = (h @ [AskClock]) @ g" using test by (blast elim: calmE)
    show ?thesis
    proof (cases "r = Return False")
      case False
      then show ?thesis using t g \<open>\<not> deadline_passed E h\<close>
        by (cases r) (auto simp: replay_gcs_has_same bind_io_def now_is_past_runs ret_io_def polled_def)
    next
      case True
      have "n - sleeps (h2 @ [Sleep pause]) < fuel" using n Suc.prems g by simp
      from Suc.IH [OF this] obtain r' h' g' where "poll_until fuel E pause test (h2 @ [Sleep pause]) = (r', h')"
        "polled E test r' h'" "h' = (h2 @ [Sleep pause]) @ g'" by blast
      then show ?thesis using t g True \<open>\<not> deadline_passed E h\<close>
        by (auto simp: bind_io_def now_is_past_runs record_call_def modify_io_def)
    qed
  qed
qed simp

text \<open>The loop of the replay script tests before it looks at the clock.\<close>

lemma wait_for_object_ends:
  assumes past: "\<And>h. n \<le> sleeps h \<Longrightarrow> deadline_passed E h" and "n - sleeps h < fuel"
  shows "\<exists>r h'. wait_for_object fuel E R f h = (r, h') \<and> polled E (gcs_has E (rp_gcs_bucket R) f) r h' \<and> (\<exists>g. h' = h @ g)"
  using assms(2)
proof (induction fuel arbitrary: h)
  case (Suc fuel)
  obtain r h1 where t: "gcs_has E (rp_gcs_bucket R) f h = (r, h1)" by fastforce
  then obtain g where g: "r \<noteq> Hang" "h1 = h @ g" using calm_fetch(2) by (blast elim: calmE)
  show ?case
  proof (cases "r = Return False \<and> \<not> deadline_passed E h1")
    case True
    then have "sleeps h1 < n" using past [of h1] by linarith
    then have "n - sleeps (h1 @ [AskClock, Sleep 2]) < fuel" using Suc.prems g by simp
    from Suc.IH [OF this] obtain r' h' g' where "wait_for_object fuel E R f (h1 @ [AskClock, Sleep 2]) = (r', h')"
      "polled E (gcs_has E (rp_gcs_bucket R) f) r' h'" "h' = (h1 @ [AskClock, Sleep 2]) @ g'" by blast
    then show ?thesis using t g True by (auto simp: replay_gcs_has_same bind_io_def now_is_past_runs record_call_def modify_io_def)
  next
    case False
    then show ?thesis using t g
      by (cases r) (auto simp: replay_gcs_has_same bind_io_def now_is_past_runs ret_io_def polled_def)
  qed
qed simp

section \<open>The files of the drop script\<close>

lemma calm_gcs_has_all [calm_rules]: "calm (gcs_has_all E bucket keys)"
  by (induction keys) (auto intro!: calm_rules)

lemma calm_all_landed [calm_rules]: "calm (all_landed E D keys)"
  unfolding all_landed_def s3_has_all_def by (intro calm_rules)

lemma calm_csv_lines [calm_rules]: "calm (csv_lines E ts idx k line_no)"
  by (induction k arbitrary: line_no) (auto intro!: calm_rules)

lemma calm_build_csv [calm_rules]: "calm (build_csv E ts idx)"
  unfolding build_csv_def by (intro calm_rules)

lemma calm_make_files [calm_rules]: "calm (make_files E ts k i)"
  by (induction k arbitrary: i) (auto intro!: calm_rules)

lemma calm_copy_files [calm_rules]: "calm (copy_files E D files)"
  by (induction files) (auto intro!: calm_rules)

lemma calm_metrics [calm_rules]: "calm (metrics_grew E a b)" "calm (rabbitmq_publish E R p)" "calm (fresh_event E R f c)"
    "calm (replay_logs E R t code)" "calm (drop_replay_file E R ts)"
  unfolding metrics_grew_def hits_metric_def duplicates_metric_def rabbitmq_publish_def fresh_event_def replay_logs_def
    drop_replay_file_def by (intro calm_rules)+

lemma bind_Return_io: "bind_io m f h = (Return y, h') \<longleftrightarrow> (\<exists>x h1. m h = (Return x, h1) \<and> f x h1 = (Return y, h'))"
  by (auto simp: bind_io_def split: prod.splits outcome.splits)

lemma consult_Return: "consult f c h = (Return x, h') \<longleftrightarrow> x = f h \<and> h' = h @ [c]"
  by (auto simp: consult_def bind_io_def get_io_def record_call_def modify_io_def ret_io_def)

lemma lift_sum_Return: "lift_sum r h = (Return x, h') \<longleftrightarrow> r = Inr x \<and> h' = h"
  by (auto simp: lift_sum_def raise_io_def ret_io_def split: sum.split)

lemma make_files_names:
  "make_files E ts k i h = (Return fs, h') \<Longrightarrow> map fst fs = map (\<lambda>j. drop_filename ts (show_pad 3 j)) [i..<i + k]"
proof (induction k arbitrary: i h fs)
  case (Suc k)
  then obtain rest h1 p where r: "make_files E ts k (Suc i) h1 = (Return rest, h')"
    "fs = (drop_filename ts (show_pad 3 i), p) # rest"
    by (auto simp: bind_Return_io ret_io_def)
  then show ?case using Suc.IH [OF r(1)] upt_conv_Cons [of i "i + Suc k"] by simp
qed (simp add: ret_io_def)

section \<open>The generated order files are plain order tables\<close>

text \<open>A row the script may generate as line \<open>line_no\<close> of a file.\<close>

definition demo_row :: "pystr \<Rightarrow> pystr \<Rightarrow> nat \<Rightarrow> pystr \<times> pystr \<times> int \<times> pystr \<Rightarrow> bool" where
  "demo_row ts idx line_no = (\<lambda>(order, unit, n, ch). order = lit ''ORD-'' @ ts @ lit ''-'' @ idx @ lit ''-'' @ show_nat line_no
     \<and> (\<exists>k. 1000 \<le> k \<and> k \<le> 9999 \<and> unit = lit ''SKU-'' @ show_int k) \<and> 1 \<le> n \<and> n \<le> 10 \<and> ch \<in> set channels)"

definition demo_rows :: "pystr \<Rightarrow> pystr \<Rightarrow> nat \<Rightarrow> (pystr \<times> pystr \<times> int \<times> pystr) list \<Rightarrow> bool" where
  "demo_rows ts idx line_no rows \<longleftrightarrow> (\<forall>i < length rows. demo_row ts idx (line_no + i) (rows ! i))"

lemma demo_rows_Cons: "demo_rows ts idx l (r # rows) \<longleftrightarrow> demo_row ts idx l r \<and> demo_rows ts idx (Suc l) rows"
  by (auto simp: demo_rows_def nth_Cons split: nat.splits)

lemma demo_rows_mem:
  assumes "demo_rows ts idx l rows" and "r \<in> set rows"
  obtains i where "demo_row ts idx (l + i) r" and "i < length rows"
  using assms by (auto simp: demo_rows_def in_set_conv_nth)

definition comma_line :: "pystr \<times> pystr \<times> int \<times> pystr \<Rightarrow> pystr" where
  "comma_line x = join_str [44] (order_row x)"

lemma randint_range: "randint E a b h = (Return x, h') \<Longrightarrow> a \<le> b \<Longrightarrow> a \<le> x \<and> x \<le> b"
proof -
  assume r: "randint E a b h = (Return x, h')" and le: "a \<le> b"
  from r obtain d where "x = a + d mod (b - a + 1)"
    by (auto simp: randint_def consult_def bind_Return_io get_io_def ret_io_def)
  moreover have "0 \<le> d mod (b - a + 1)" "d mod (b - a + 1) < b - a + 1" using le by (simp, intro pos_mod_bound) simp
  ultimately show ?thesis by linarith
qed

lemma choice_member: "choice E xs h = (Return x, h') \<Longrightarrow> xs \<noteq> [] \<Longrightarrow> x \<in> set xs"
  by (auto simp: choice_def consult_def bind_Return_io get_io_def ret_io_def)

lemma draws_run: "\<exists>x. randint E a b h = (Return x, h @ [Draw])" "\<exists>x. choice E xs h = (Return x, h @ [Draw])"
  by (simp_all add: randint_def choice_def consult_def bind_io_def get_io_def record_call_def modify_io_def ret_io_def)

lemma csv_lines_run: "\<exists>ls h'. csv_lines E ts idx k line_no h = (Return ls, h')"
proof (induction k arbitrary: line_no h)
  case (Suc k)
  obtain a b c where "randint E 1000 9999 h = (Return a, h @ [Draw])" "randint E 1 10 (h @ [Draw]) = (Return b, (h @ [Draw]) @ [Draw])"
    "choice E channels ((h @ [Draw]) @ [Draw]) = (Return c, ((h @ [Draw]) @ [Draw]) @ [Draw])"
    using draws_run by metis
  then show ?case using Suc [of "Suc line_no" "((h @ [Draw]) @ [Draw]) @ [Draw]"] by (auto simp: bind_io_def ret_io_def)
qed (simp add: ret_io_def)

lemma build_csv_run: "\<exists>text h'. build_csv E ts idx h = (Return text, h')"
proof -
  obtain n where "randint E 1 5 h = (Return n, h @ [Draw])" using draws_run(1) by blast
  then show ?thesis using csv_lines_run [of E ts idx "nat n" 1 "h @ [Draw]"] by (auto simp: build_csv_def bind_io_def ret_io_def)
qed

lemma csv_lines_rows:
  "csv_lines E ts idx k line_no h = (Return ls, h') \<Longrightarrow> \<exists>rows. length rows = k \<and> demo_rows ts idx line_no rows \<and> ls = map comma_line rows"
proof (induction k arbitrary: line_no h ls)
  case 0
  then show ?case by (intro exI [of _ "[]"]) (simp add: demo_rows_def ret_io_def)
next
  case (Suc k)
  then obtain unit n ch rest h1 h2 h3 where d: "randint E 1000 9999 h = (Return unit, h1)" "randint E 1 10 h1 = (Return n, h2)"
    "choice E channels h2 = (Return ch, h3)" "csv_lines E ts idx k (Suc line_no) h3 = (Return rest, h')"
    "ls = order_line_text ts idx line_no unit n ch # rest"
    by (auto simp: bind_Return_io ret_io_def)
  then obtain rows where rows: "length rows = k" "demo_rows ts idx (Suc line_no) rows" "rest = map comma_line rows"
    using Suc.IH by blast
  define row where "row = (lit ''ORD-'' @ ts @ lit ''-'' @ idx @ lit ''-'' @ show_nat line_no, lit ''SKU-'' @ show_int unit, n, ch)"
  have "demo_row ts idx line_no row"
    using randint_range [OF d(1)] randint_range [OF d(2)] choice_member [OF d(3)]
    by (auto simp: demo_row_def row_def channels_def)
  moreover have "comma_line row = order_line_text ts idx line_no unit n ch"
    by (simp add: comma_line_def order_row_def row_def order_line_text_def lit_def)
  ultimately show ?case using rows d(5) by (intro exI [of _ "row # rows"]) (simp add: demo_rows_Cons)
qed

lemma build_csv_rows:
  assumes "build_csv E ts idx h = (Return text, h')"
  shows "\<exists>rows. 1 \<le> length rows \<and> length rows \<le> 5 \<and> demo_rows ts idx 1 rows
    \<and> text = join_str [10] (csv_header # map comma_line rows) @ [10]"
proof -
  obtain n h1 ls where d: "randint E 1 5 h = (Return n, h1)" "csv_lines E ts idx (nat n) 1 h1 = (Return ls, h')"
    "text = join_str [10] (csv_header # ls) @ [10]"
    using assms by (auto simp: build_csv_def bind_Return_io ret_io_def)
  have "1 \<le> n \<and> n \<le> 5" using randint_range [OF d(1)] by simp
  moreover obtain rows where "length rows = nat n" "demo_rows ts idx 1 rows" "ls = map comma_line rows"
    using csv_lines_rows [OF d(2)] by blast
  moreover have "1 \<le> nat n \<and> nat n \<le> 5" using calculation(1) by linarith
  ultimately show ?thesis using d(3) by (intro exI [of _ rows]) simp
qed

lemma join_lines: "xs \<noteq> [] \<Longrightarrow> join_str [10] xs @ [10] = concat (map (\<lambda>(l, e). l @ e) (map (\<lambda>l. (l, [10])) xs))"
  by (induction "[10 :: nat]" xs rule: join_str.induct) simp_all

text \<open>The cells of such a row, when the time stamp and the number of the file are digits.\<close>

definition digits :: "pystr \<Rightarrow> bool" where
  "digits s \<longleftrightarrow> list_all (\<lambda>c. 48 \<le> c \<and> c < 58) s"

definition cell_char :: "nat \<Rightarrow> bool" where
  "cell_char c \<longleftrightarrow> (48 \<le> c \<and> c < 58) \<or> c = 45 \<or> (65 \<le> c \<and> c \<le> 90) \<or> (97 \<le> c \<and> c \<le> 122)"

lemma digits_show [simp]: "digits (show_nat n)" "digits (show_pad k n)"
  using show_nat_ascii [of _ n] show_pad_ascii [of _ k n] by (auto simp: digits_def list_all_iff)

lemma digits_cell: "digits s \<Longrightarrow> list_all cell_char s"
  by (auto simp: digits_def cell_char_def list_all_iff)

lemma show_int_pos: "0 \<le> n \<Longrightarrow> show_int n = show_nat (nat n)"
  by (simp add: show_int_def)

lemma demo_row_cells:
  assumes row: "demo_row ts idx line_no r" and ts: "digits ts" "digits idx"
  shows "list_all (list_all cell_char) (order_row r)" and "list_all (\<lambda>c. \<not> is_formula c) (order_row r)"
proof -
  obtain order unit n ch where r: "r = (order, unit, n, ch)" by (cases r)
  then obtain k where d: "order = lit ''ORD-'' @ ts @ lit ''-'' @ idx @ lit ''-'' @ show_nat line_no"
    "unit = lit ''SKU-'' @ show_int k" "1000 \<le> k" "1 \<le> n" "ch \<in> set channels"
    using row by (auto simp: demo_row_def)
  have lits: "list_all cell_char (lit ''ORD-'')" "list_all cell_char (lit ''-'')" "list_all cell_char (lit ''SKU-'')"
    "list_all cell_char ch"
    using d(5) by (auto simp: channels_def lit_def cell_char_def)
  then show "list_all (list_all cell_char) (order_row r)"
    using d(3,4) ts by (simp add: r order_row_def d(1,2) digits_cell show_int_pos)
  have "\<not> is_formula (show_nat (nat n))"
  proof (cases "show_nat (nat n)")
    case (Cons c cs)
    then have "48 \<le> c \<and> c < 58" using show_nat_ascii [of c "nat n"] by simp
    with Cons show ?thesis by (auto simp: is_formula_def formula_prefixes_def)
  qed (simp add: is_formula_def)
  then show "list_all (\<lambda>c. \<not> is_formula c) (order_row r)"
    using d(4,5) by (auto simp: r order_row_def d(1,2) show_int_pos channels_def lit_def is_formula_def formula_prefixes_def)
qed

lemma length_show_nat: "length (show_nat n) \<le> Suc n"
proof (induction n rule: show_nat.induct)
  case (1 n)
  show ?case
  proof (cases "n < 10")
    case False
    then have "length (show_nat (n div 10)) \<le> Suc (n div 10)" "Suc (n div 10) \<le> n" using 1 by simp_all
    then show ?thesis using False by (subst show_nat.simps) simp
  qed (subst show_nat.simps, simp)
qed

lemma demo_row_plain:
  assumes row: "demo_row ts idx line_no r" and ts: "digits ts" "digits idx" "length ts + length idx \<le> 100000" and "line_no \<le> 10"
  shows "plain (comma_line r)" "plain_row (comma_line r) = order_row r"
proof -
  obtain order unit n ch where r: "r = (order, unit, n, ch)" by (cases r)
  then obtain k where d: "order = lit ''ORD-'' @ ts @ lit ''-'' @ idx @ lit ''-'' @ show_nat line_no"
    "unit = lit ''SKU-'' @ show_int k" "1000 \<le> k" "k \<le> 9999" "1 \<le> n" "n \<le> 10" "ch \<in> set channels"
    using row by (auto simp: demo_row_def)
  have cells: "c \<in> set x \<Longrightarrow> cell_char c" if "x \<in> set (order_row r)" for c x
    using demo_row_cells(1) [OF row ts(1,2)] that by (auto simp: list_all_iff)
  then have no: "c \<notin> set x" if "x \<in> set (order_row r)" "c \<in> {10, 13, 34, 44}" for c x
  proof -
    have "\<not> cell_char c" using that(2) by (auto simp: cell_char_def)
    with that(1) cells show ?thesis by blast
  qed
  have l: "comma_line r = order @ [44] @ unit @ [44] @ show_int n @ [44] @ ch"
    by (simp add: comma_line_def order_row_def r)
  have "order_row r = [order, unit, show_int n, ch]" by (simp add: order_row_def r)
  then have "c \<notin> set (comma_line r)" if "c \<in> {10, 13, 34}" for c
    using no that by (auto simp: l)
  moreover have "length (show_nat (nat k)) \<le> 10000" "length (show_nat (nat n)) \<le> 11" "length (show_nat line_no) \<le> 11"
    using length_show_nat [of "nat k"] length_show_nat [of "nat n"] length_show_nat [of line_no] d(3-6) assms(5) by linarith+
  then have "length (comma_line r) \<le> field_limit"
    using d(3,5,7) ts(3) by (auto simp: l d(1,2) show_int_pos channels_def field_limit_def)
  ultimately show "plain (comma_line r)" by (simp add: plain_def)
  have "order_row r \<noteq> []" by (simp add: order_row_def r)
  then have "split_on 44 (comma_line r) = order_row r"
    unfolding comma_line_def using no by (intro split_on_join) auto
  moreover have "comma_line r \<noteq> []" by (simp add: l)
  ultimately show "plain_row (comma_line r) = order_row r" by (simp add: plain_row_def)
qed

text \<open>A generated file in the eyes of the CSV reader and of the scan.\<close>

lemma demo_text_rows:
  assumes rows: "demo_rows ts idx 1 rows" and "length rows \<le> 5" and ts: "digits ts" "digits idx" "length ts + length idx \<le> 100000"
  shows "csv_rows (join_str [10] (csv_header # map comma_line rows) @ [10]) = (order_header # map order_row rows, None)"
    and "list_all (\<lambda>c. c < 128 \<and> c \<noteq> 0) (join_str [10] (csv_header # map comma_line rows) @ [10])"
proof -
  have row: "plain (comma_line r) \<and> plain_row (comma_line r) = order_row r \<and> list_all (list_all cell_char) (order_row r)"
    if "r \<in> set rows" for r
  proof -
    obtain i where i: "demo_row ts idx (1 + i) r" "i < length rows" using rows \<open>r \<in> set rows\<close> by (rule demo_rows_mem)
    then have "1 + i \<le> 10" using assms(2) by simp
    from demo_row_plain [OF i(1) ts this] demo_row_cells [OF i(1) ts(1,2)] show ?thesis by simp
  qed
  have header: "plain csv_header" "plain_row csv_header = order_header" "list_all (\<lambda>c. c < 128 \<and> c \<noteq> 0) csv_header"
    by (simp_all add: plain_def csv_header_def plain_row_def order_header_def lit_def field_limit_def)
  let ?ls = "map (\<lambda>l. (l, [10])) (csv_header # map comma_line rows)"
  have joined: "join_str [10] (csv_header # map comma_line rows) @ [10] = concat (map (\<lambda>(l, e). l @ e) ?ls)"
    by (rule join_lines) simp
  have "\<forall>(l, e) \<in> set ?ls. plain l \<and> line_end e" using row header(1) by (auto simp: line_end_def)
  from csv_rows_plain_table [OF this] show "csv_rows (join_str [10] (csv_header # map comma_line rows) @ [10]) = (order_header # map order_row rows, None)"
    unfolding joined using row header(2) by (simp add: comp_def)
  have "list_all (\<lambda>c. c < 128 \<and> c \<noteq> 0) (comma_line r)" if "r \<in> set rows" for r
    using row [OF that] by (cases r) (auto simp: comma_line_def order_row_def list_all_iff cell_char_def)
  then show "list_all (\<lambda>c. c < 128 \<and> c \<noteq> 0) (join_str [10] (csv_header # map comma_line rows) @ [10])"
    unfolding joined using header(3) by (auto simp: list_all_iff)
qed

lemma ascii_encode: "list_all (\<lambda>c. c < 128 \<and> c \<noteq> 0) t \<Longrightarrow> utf8_encode t = Inr (map of_nat t) \<and> 0 \<notin> set (map of_nat t :: bytes)"
proof -
  assume t: "list_all (\<lambda>c. c < 128 \<and> c \<noteq> 0) t"
  then have "list_all is_scalar t" "concat (map enc_cp t) = t"
    by (auto simp: list_all_iff is_scalar_def is_surrogate_def enc_cp_def concat_eq_concat_iff cong: map_cong)
  moreover have "(of_nat c :: 8 word) \<noteq> 0" if "c < 128" "c \<noteq> 0" for c
    using that unat_of_nat [of c, where 'a = 8] by (auto simp flip: unat_eq_0)
  then have "0 \<notin> set (map of_nat t :: bytes)" using t by (auto simp: list_all_iff)
  ultimately show ?thesis by (simp add: utf8_encode_def)
qed

lemma demo_rows_distinct:
  assumes "demo_rows ts idx l rows"
  shows "distinct (map (\<lambda>(order, unit, n, ch). (order, unit)) rows)"
proof -
  have order: "fst (rows ! i) = lit ''ORD-'' @ ts @ lit ''-'' @ idx @ lit ''-'' @ show_nat (l + i)" if "i < length rows" for i
  proof -
    have "demo_row ts idx (l + i) (rows ! i)" using assms that by (simp add: demo_rows_def)
    then show ?thesis by (simp add: demo_row_def case_prod_unfold)
  qed
  have "i = j" if "i < length rows" "j < length rows" "fst (rows ! i) = fst (rows ! j)" for i j
  proof -
    have "show_nat (l + i) = show_nat (l + j)" using that order by simp
    then show ?thesis using show_nat_inj by fastforce
  qed
  then show ?thesis by (auto simp: distinct_conv_nth case_prod_unfold)
qed

section \<open>The main functions end\<close>

lemma polled_calm:
  assumes "\<And>h. \<exists>r h'. m h = (r, h') \<and> polled E test r h' \<and> (\<exists>g. h' = h @ g)"
  shows "calm m"
  unfolding calm_def
proof
  fix h
  obtain r h' g where "m h = (r, h')" "polled E test r h'" "h' = h @ g" using assms by blast
  then show "fst (m h) \<noteq> Hang \<and> (\<exists>g. snd (m h) = h @ g)" by (auto simp: polled_def)
qed

lemma calm_waits:
  assumes "\<And>h. n \<le> sleeps h \<Longrightarrow> deadline_passed E h" and "n < fuel"
  shows "calm (wait_for_files fuel E D keys)" "calm (wait_for_object fuel E R f)" "calm (wait_for_metrics fuel E a b)"
proof -
  have fuel: "n - sleeps h < fuel" for h using assms(2) by simp
  have poll: "calm (poll_until fuel E k test)" if "calm test" for k test
    by (rule polled_calm) (rule poll_until_ends [OF assms(1) that fuel])
  show "calm (wait_for_files fuel E D keys)" "calm (wait_for_metrics fuel E a b)"
    unfolding wait_for_files_def wait_for_metrics_def by (intro poll calm_rules)+
  show "calm (wait_for_object fuel E R f)"
    by (rule polled_calm) (rule wait_for_object_ends [OF assms(1) fuel])
qed

lemma calm_mains:
  assumes "\<And>h. n \<le> sleeps h \<Longrightarrow> deadline_passed E h" and "n < fuel"
  shows "calm (drop_main fuel E D)" "calm (replay_main fuel E R)"
proof -
  note waits = calm_waits [OF assms]
  show "calm (drop_main fuel E D)"
    unfolding drop_main_def Let_def by (intro calm_rules waits)
  have "calm (replay_and_wait fuel E R e)" for e
    unfolding replay_and_wait_def hits_metric_def duplicates_metric_def by (intro calm_rules waits)
  then show "calm (replay_main fuel E R)"
    unfolding replay_main_def Let_def by (intro calm_rules waits)
qed

text \<open>The names of the files the drop script makes when it starts at \<open>h\<close>.\<close>

definition dropped_names :: "script_env \<Rightarrow> drop_settings \<Rightarrow> script_call list \<Rightarrow> pystr list" where
  "dropped_names E D h = map (\<lambda>j. drop_filename (compact_time (wall_clock E h)) (show_pad 3 j)) [1..<1 + nat (file_count D)]"

lemma drop_main_success:
  assumes "\<And>h. n \<le> sleeps h \<Longrightarrow> deadline_passed E h" and "n < fuel" and "drop_main fuel E D h = (Return 0, h')" and "verify D"
  shows "\<exists>g. all_landed E D (dropped_names E D h) g = (Return True, h')"
proof -
  obtain files h1 h2 ok h3 h4 where m: "make_files E (compact_time (wall_clock E h)) (nat (file_count D)) (Suc 0) h1 = (Return files, h2)"
    and w: "wait_for_files fuel E D (map fst files) h3 = (Return ok, h4)"
    and r: "(if ok then ret_io 0 else bind_io (run_program E (compose (drop_compose_file D) @ [lit ''logs'', lit ''--tail=50'', lit ''worker'']))
        (\<lambda>_. ret_io 1)) h4 = (Return (0 :: int), h')"
    using assms(3) unfolding drop_main_def Let_def bind_Return_io local_now_def consult_Return
    by (clarsimp simp: assms(4) bind_Return_io)
  have ok: "ok" "h4 = h'" using r by (auto simp: bind_Return_io ret_io_def split: if_splits)
  have "n - sleeps h3 < fuel" using assms(2) by simp
  from poll_until_ends [where pause = 2 and test = "all_landed E D (map fst files)", OF assms(1) calm_all_landed this] w ok
  have "\<exists>g. all_landed E D (map fst files) g = (Return True, h')"
    by (auto simp: wait_for_files_def polled_def)
  then show ?thesis using make_files_names [OF m] by (simp add: dropped_names_def)
qed

text \<open>Such rows lie within DynamoDB's limits.\<close>

lemma cell_size: "list_all cell_char t \<Longrightarrow> list_all is_scalar t \<and> utf8_size t = length t"
  by (induction t) (auto simp: utf8_size_def cell_char_def is_scalar_def is_surrogate_def enc_cp_def)

lemma show_nat_length: "n < 10 ^ Suc k \<Longrightarrow> length (show_nat n) \<le> Suc k"
proof (induction k arbitrary: n)
  case 0
  then show ?case by (subst show_nat.simps) simp
next
  case (Suc k)
  have "n div 10 < 10 ^ Suc k" using Suc.prems by (simp add: less_mult_imp_div_less)
  from Suc.IH [OF this] show ?case by (subst show_nat.simps) simp
qed

lemma demo_rows_accepted:
  assumes "demo_rows ts idx 1 rows" and "length rows \<le> 5" and "digits ts" and "digits idx" and "length ts + length idx \<le> 1000"
    and "text_fits 1024 key" and "text_fits 100 now"
  shows "list_all dynamo_accepts (map (order_item key now) rows)"
  unfolding list_all_iff
proof
  fix item assume "item \<in> set (map (order_item key now) rows)"
  then obtain r where r: "r \<in> set rows" "item = order_item key now r" by auto
  obtain i where i: "demo_row ts idx (1 + i) r" "i < length rows" using demo_rows_mem [OF assms(1) r(1)] .
  obtain order unit n ch where x: "r = (order, unit, n, ch)" by (cases r)
  then obtain k where d: "order = lit ''ORD-'' @ ts @ lit ''-'' @ idx @ lit ''-'' @ show_nat (1 + i)"
    "unit = lit ''SKU-'' @ show_int k" "1000 \<le> k" "k \<le> 9999" "1 \<le> n" "n \<le> 10" "ch \<in> set channels"
    using i(1) by (auto simp: demo_row_def)
  have "list_all (list_all cell_char) (order_row r)" by (rule demo_row_cells [OF i(1) assms(3,4)])
  then have u: "list_all is_scalar order \<and> utf8_size order = length order" "list_all is_scalar unit \<and> utf8_size unit = length unit"
      "list_all is_scalar ch \<and> utf8_size ch = length ch"
    using cell_size by (simp_all add: x order_row_def)
  have "length (show_nat (1 + i)) \<le> 1" using show_nat_length [of "1 + i" 0] i(2) assms(2) by simp
  then have "length order \<le> 1007" using assms(5) by (simp add: d(1) lit_def)
  moreover have "length (show_nat (nat k)) \<le> 4" using show_nat_length [of "nat k" 3] d(4) by simp
  then have "length unit \<le> 8" using d(3) by (simp add: d(2) lit_def show_int_pos)
  moreover have "length ch \<le> 100" using d(7) by (auto simp: channels_def lit_def)
  moreover have "order \<noteq> []" "unit \<noteq> []" by (simp_all add: d(1,2) lit_def)
  moreover have "\<bar>n\<bar> < 10 ^ 38" using d(5,6) by simp
  ultimately show "dynamo_accepts item"
    using u assms(6,7) by (simp add: r(2) x order_item_def dynamo_accepts_def dynamo_key_def text_fits_def value_size_def value_text_def)
qed

text \<open>
  What it means that a poll found the files: each object's URL was opened, in turn, and then a shell in which \<open>mc stat\<close> of every
  key succeeds ended with code 0.
\<close>

fun all_opened :: "script_env \<Rightarrow> pystr \<Rightarrow> pystr list \<Rightarrow> script_call list \<Rightarrow> script_call list \<Rightarrow> bool" where
  "all_opened E bucket [] h h' \<longleftrightarrow> h' = h"
| "all_opened E bucket (key # keys) h h' \<longleftrightarrow> (\<exists>q r n body. url_quote key = Inr q
     \<and> r = \<lparr>req_url = lit ''http://localhost:4443/storage/v1/b/'' @ bucket @ lit ''/o/'' @ q, req_method = ''GET'', req_headers = [], req_data = None\<rparr>
     \<and> open_reply E h r = HttpOk n body \<and> all_opened E bucket keys (h @ [OpenUrl r]) h')"

definition all_stat :: "script_env \<Rightarrow> drop_settings \<Rightarrow> pystr list \<Rightarrow> script_call list \<Rightarrow> script_call list \<Rightarrow> bool" where
  "all_stat E D keys h h' \<longleftrightarrow> (\<exists>argv out. run_reply E h argv = Inr (0, out) \<and> h' = h @ [RunProgram argv]
     \<and> argv = compose (drop_compose_file D) @ [lit ''run'', lit ''--rm'', lit ''--entrypoint'', lit ''sh'', lit ''minio-init'', lit ''-c'',
          lit ''mc alias set local http://minio:9000 '' @ [39] @ minio_user D @ [39, 32, 39] @ minio_password D @ [39] @ lit '' >/dev/null 2>&1 && ''
          @ join_str (lit '' && '') (map (\<lambda>key. lit ''mc stat '' @ [39] @ lit ''local/'' @ drop_s3_bucket D @ lit ''/'' @ key @ [39]
              @ lit '' >/dev/null 2>&1'') keys)])"

lemma gcs_has_True:
  assumes "gcs_has E bucket key h = (Return True, h')"
  shows "\<exists>url n body. gcs_object_url bucket key = Inr url \<and> open_reply E h (get_request url) = HttpOk n body
    \<and> h' = h @ [OpenUrl (get_request url)]"
proof -
  obtain url where u: "gcs_object_url bucket key = Inr url"
    "(case open_reply E h (get_request url) of HttpOk _ _ \<Rightarrow> ret_io True | HttpFailed _ _ \<Rightarrow> ret_io False | UrlFailed _ \<Rightarrow> ret_io False
      | OpenRaised x \<Rightarrow> raise_io x) (h @ [OpenUrl (get_request url)]) = (Return True, h')"
    using assms unfolding gcs_has_def open_url_def bind_Return_io lift_sum_Return consult_Return by blast
  then show ?thesis by (cases "open_reply E h (get_request url)") (auto simp: ret_io_def raise_io_def)
qed

lemma gcs_has_all_True: "gcs_has_all E bucket keys h = (Return True, h') \<Longrightarrow> all_opened E bucket keys h h'"
proof (induction keys arbitrary: h)
  case (Cons key keys)
  then obtain b h1 where b: "gcs_has E bucket key h = (Return b, h1)"
    "(if b then gcs_has_all E bucket keys else ret_io False) h1 = (Return True, h')"
    unfolding gcs_has_all.simps bind_Return_io by blast
  then have "gcs_has E bucket key h = (Return True, h1)" "gcs_has_all E bucket keys h1 = (Return True, h')"
    by (cases b; simp add: ret_io_def)+
  from gcs_has_True [OF this(1)] Cons.IH [OF this(2)] show ?case
    by (auto simp: gcs_object_url_def bind_sum_Inr get_request_def)
qed (simp add: ret_io_def)

lemma all_landed_True:
  assumes "all_landed E D keys h = (Return True, h')"
  shows "\<exists>g. all_opened E (drop_gcs_bucket D) keys h g \<and> all_stat E D keys g h'"
proof -
  obtain g where g: "gcs_has_all E (drop_gcs_bucket D) keys h = (Return True, g)" "s3_has_all E D keys g = (Return True, h')"
    using assms by (auto simp: all_landed_def bind_Return_io ret_io_def split: if_splits)
  have "all_stat E D keys g h'"
    using g(2) by (auto simp: s3_has_all_def bind_Return_io run_program_def consult_Return lift_sum_Return ret_io_def all_stat_def
      s3_check_script_def quoted_def lit_def)
  then show ?thesis using gcs_has_all_True [OF g(1)] by blast
qed

end
