(* ===== verification/Sts_Lemmas.thy ===== *)
theory Sts_Lemmas
  imports Sts Script_Lemmas
begin

text \<open>
  Lemmas on the STS script: an encoded form is read back as its fields, the text under the signature is a list
  of lines, and signing succeeds for every text that UTF-8 can encode.
\<close>

section \<open>Forms\<close>

lemma utf8_encode_ok: "str_ok s \<Longrightarrow> \<exists>bs. utf8_encode s = Inr bs"
  by (simp add: utf8_encode_def str_ok_def)

lemma str_ok_parts [simp]: "str_ok (a @ b) \<longleftrightarrow> str_ok a \<and> str_ok b" "str_ok (lit x)" "str_ok []"
    "str_ok (c # a) \<longleftrightarrow> is_scalar c \<and> str_ok a"
  by (simp_all add: str_ok_def)

lemma hex_of_ok [simp]: "str_ok (hex_of bs)"
  using hex_of_lower [of bs]
  by (auto simp: str_ok_def list_all_iff is_hex_lower_def is_scalar_def is_surrogate_def)

lemma hex_val_upper: "d < 16 \<Longrightarrow> hex_val (hex_upper d) = Some d"
  by (simp add: hex_val_def hex_upper_def)

lemma form_byte_encoded: "url_encoded bs s \<Longrightarrow> url_encoded (unat b # bs) (form_byte b @ s)"
proof -
  assume bs: "url_encoded bs s"
  have lt: "unat b < 256" by (rule unat_byte)
  consider "b = 32" | "b \<noteq> 32" "is_unreserved (unat b)" | "b \<noteq> 32" "\<not> is_unreserved (unat b)" by blast
  then show ?thesis
  proof cases
    case 1
    then show ?thesis using enc_plus [OF bs] by (simp add: form_byte_def)
  next
    case 2
    then show ?thesis using enc_raw [OF _ _ _ bs, of "unat b"] by (auto simp: form_byte_def quote_byte_def is_unreserved_def lit_def)
  next
    case 3
    have "unat b div 16 < 16" "unat b mod 16 < 16" using lt by simp_all
    from enc_hex [OF this [THEN hex_val_upper] bs] show ?thesis using 3 by (simp add: form_byte_def quote_byte_def)
  qed
qed

lemma form_byte_chars: "c \<in> set (form_byte b) \<Longrightarrow> c = 43 \<or> c = 37 \<or> is_unreserved c"
proof -
  assume c: "c \<in> set (form_byte b)"
  have hex: "is_unreserved (hex_upper d)" if "d < 16" for d
    using that by (simp add: hex_upper_def is_unreserved_def)
  have lt: "unat b div 16 < 16" "unat b mod 16 < 16" using unat_byte [of b] by simp_all
  show ?thesis
    using c hex [OF lt(1)] hex [OF lt(2)] unfolding form_byte_def quote_byte_def by (cases "b = 32"; cases "is_unreserved (unat b)") auto
qed

lemma quote_plus_encoded:
  assumes "quote_plus s = Inr q"
  shows "unquote_plus q = s" and "38 \<notin> set q" and "61 \<notin> set q"
proof -
  obtain bs where bs: "utf8_encode s = Inr bs" and q: "q = concat (map form_byte bs)"
    using assms by (auto simp: quote_plus_def bind_sum_Inr)
  have s: "list_all is_scalar s" "bs = map of_nat (concat (map enc_cp s))"
    using bs by (auto simp: utf8_encode_def split: if_splits)
  have "map (unat \<circ> (of_nat :: nat \<Rightarrow> 8 word)) (concat (map enc_cp s)) = concat (map enc_cp s)"
    using s(1) by (intro unat_of_nat_bytes) (auto simp: list_all_iff dest: enc_cp_byte)
  then have "map unat bs = concat (map enc_cp s)" by (simp add: s(2))
  moreover have "url_encoded (map unat bs) (concat (map form_byte bs))" for bs :: bytes
    by (induction bs) (simp_all add: enc_end form_byte_encoded)
  ultimately show "unquote_plus q = s" using unquote_plus_encoded [OF s(1)] q by metis
  have "\<not> is_unreserved 38" "\<not> is_unreserved 61" by (simp_all add: is_unreserved_def lit_def)
  then have "x \<notin> set (form_byte b)" if "x \<in> {38, 61}" for x b using form_byte_chars [of x b] that by auto
  then show "38 \<notin> set q" "61 \<notin> set q" by (simp_all add: q)
qed

text \<open>How a form is read: split at ampersands, each field at its first equals sign.\<close>

definition read_field :: "pystr \<Rightarrow> pystr \<times> pystr" where
  "read_field f = (unquote_plus (takeWhile (\<lambda>c. c \<noteq> 61) f), unquote_plus (drop 1 (dropWhile (\<lambda>c. c \<noteq> 61) f)))"

definition read_form :: "pystr \<Rightarrow> (pystr \<times> pystr) list" where
  "read_form s = map read_field (split_on 38 s)"

lemma form_fields_read:
  "form_fields kvs = Inr fs \<Longrightarrow> map read_field fs = kvs \<and> (\<forall>f \<in> set fs. 38 \<notin> set f)"
proof (induction kvs arbitrary: fs rule: form_fields.induct)
  case (2 k v kvs)
  then obtain k' v' gs where q: "quote_plus k = Inr k'" "quote_plus v = Inr v'" "form_fields kvs = Inr gs"
    and fs: "fs = (k' @ [61] @ v') # gs"
    by (auto simp: bind_sum_Inr)
  have "takeWhile (\<lambda>c. c \<noteq> 61) (k' @ 61 # v') = k'" "dropWhile (\<lambda>c. c \<noteq> 61) (k' @ 61 # v') = 61 # v'"
    using quote_plus_encoded(3) [OF q(1)] by (auto intro: takeWhile_append_stop dropWhile_append_stop)
  then have "read_field (k' @ 61 # v') = (k, v)"
    using quote_plus_encoded(1) [OF q(1)] quote_plus_encoded(1) [OF q(2)] by (simp add: read_field_def)
  then show ?case using 2 q quote_plus_encoded(2) [OF q(1)] quote_plus_encoded(2) [OF q(2)] by (simp add: fs)
qed simp

lemma read_urlencode:
  assumes "urlencode kvs = Inr s" and "kvs \<noteq> []"
  shows "read_form s = kvs"
proof -
  obtain fs where fs: "form_fields kvs = Inr fs" "s = join_str [38] fs"
    using assms(1) by (auto simp: urlencode_def bind_sum_Inr)
  note r = form_fields_read [OF fs(1)]
  then have "fs \<noteq> []" using assms(2) by auto
  then have "split_on 38 s = fs" using r by (simp add: fs(2) split_on_join)
  then show ?thesis using r by (simp add: read_form_def)
qed

lemma join_str_ok: "str_ok sep \<Longrightarrow> \<forall>x \<in> set xs. str_ok x \<Longrightarrow> str_ok (join_str sep xs)"
  by (induction sep xs rule: join_str.induct) (simp_all add: str_ok_def)

lemma urlencode_ok:
  assumes "\<forall>(k, v) \<in> set kvs. str_ok k \<and> str_ok v"
  shows "\<exists>s. urlencode kvs = Inr s \<and> str_ok s"
proof -
  have q: "\<exists>q. quote_plus s = Inr q \<and> str_ok q" if "str_ok s" for s
  proof -
    obtain bs where "utf8_encode s = Inr bs" using \<open>str_ok s\<close> utf8_encode_ok by blast
    moreover have "is_scalar c" if "is_unreserved c" for c
      using that by (auto simp: is_unreserved_def is_scalar_def is_surrogate_def lit_def)
    then have "is_scalar c" if "c \<in> set (form_byte b)" for c b
      using form_byte_chars [OF that] by (auto simp: is_scalar_def is_surrogate_def)
    then have "str_ok (concat (map form_byte bs))" by (auto simp: str_ok_def list_all_iff)
    ultimately show ?thesis by (simp add: quote_plus_def)
  qed
  have "\<exists>fs. form_fields kvs = Inr fs \<and> (\<forall>f \<in> set fs. str_ok f)"
    using assms
  proof (induction kvs)
    case (Cons x kvs)
    obtain k v where x: "x = (k, v)" by (cases x)
    with Cons obtain fs where fs: "form_fields kvs = Inr fs" "\<forall>f \<in> set fs. str_ok f" by auto
    from x Cons.prems q [of k] q [of v] obtain k' v' where "quote_plus k = Inr k'" "quote_plus v = Inr v'" "str_ok k'" "str_ok v'"
      by auto
    then show ?case using fs by (auto simp: x str_ok_def is_scalar_def is_surrogate_def)
  qed simp
  then obtain fs where "form_fields kvs = Inr fs" "\<forall>f \<in> set fs. str_ok f" by blast
  moreover have "str_ok [38]" by (simp add: str_ok_def is_scalar_def is_surrogate_def)
  ultimately show ?thesis using join_str_ok by (simp add: urlencode_def)
qed

section \<open>The text under the signature\<close>

text \<open>The request as the signature sees it.\<close>

definition request_text :: "pystr \<Rightarrow> pystr \<Rightarrow> bytes \<Rightarrow> timestamp \<Rightarrow> pystr \<Rightarrow> pystr" where
  "request_text meth path payload now token =
     canonical_request meth path (unsigned_headers (hex_of (sha256 payload)) (amz_text now) token) (hex_of (sha256 payload))"

lemma signed_keys_unsigned: "signed_keys (unsigned_headers h d t) =
    [lit ''host'', lit ''x-amz-content-sha256'', lit ''x-amz-date'', lit ''x-amz-security-token'']"
  by (simp add: signed_keys_def unsigned_headers_def lit_def)

lemma canonical_lines:
  "canonical_request meth path (unsigned_headers h d t) hash = join_str [10] [meth, path, [],
     lit ''host:'' @ minio_host, lit ''x-amz-content-sha256:'' @ h, lit ''x-amz-date:'' @ d, lit ''x-amz-security-token:'' @ t, [],
     lit ''host;x-amz-content-sha256;x-amz-date;x-amz-security-token'', hash]"
  by (simp add: canonical_request_def signed_keys_unsigned) (simp add: unsigned_headers_def header_line_def lit_def)

definition one_line :: "pystr \<Rightarrow> bool" where
  "one_line s \<longleftrightarrow> 10 \<notin> set s"

lemma amz_one_line: "one_line (amz_text now)"
  using show_pad_ascii by (fastforce simp: one_line_def amz_text_def date_text_def lit_def)

lemma hex_one_line: "one_line (hex_of bs)"
  using hex_of_lower [of bs] by (auto simp: one_line_def list_all_iff is_hex_lower_def)

lemma request_text_inj:
  assumes "one_line m" "one_line p" "one_line t" "one_line m'" "one_line p'" "one_line t'"
    and "request_text m p b now t = request_text m' p' b' now' t'"
  shows "m = m' \<and> p = p' \<and> sha256 b = sha256 b' \<and> amz_text now = amz_text now' \<and> t = t'"
proof -
  let ?ls = "\<lambda>m p b now t. [m, p, [], lit ''host:'' @ minio_host, lit ''x-amz-content-sha256:'' @ hex_of (sha256 b),
     lit ''x-amz-date:'' @ amz_text now, lit ''x-amz-security-token:'' @ t, [],
     lit ''host;x-amz-content-sha256;x-amz-date;x-amz-security-token'', hex_of (sha256 b)]"
  have "split_on 10 (request_text m p b now t) = ?ls m p b now t" if "one_line m" "one_line p" "one_line t" for m p b now t
    unfolding request_text_def canonical_lines
    by (rule split_on_join) (use that amz_one_line hex_one_line in \<open>auto simp: one_line_def minio_host_def lit_def\<close>)
  from this [OF assms(1-3), of b now] this [OF assms(4-6), of b' now'] assms(7)
  have "?ls m p b now t = ?ls m' p' b' now' t'" by metis
  then show ?thesis using hex_of_inj by auto
qed

section \<open>Signing succeeds\<close>

lemma date_ok [simp]: "str_ok (date_text now)" "str_ok (amz_text now)"
proof -
  have "str_ok (show_pad k n)" for k n
    using show_pad_ascii [of _ k n] by (fastforce simp: str_ok_def list_all_iff is_scalar_def is_surrogate_def)
  then show "str_ok (date_text now)" "str_ok (amz_text now)" by (simp_all add: date_text_def amz_text_def)
qed

lemma scalar_chars [simp]: "is_scalar 10" "is_scalar 47"
  by (simp_all add: is_scalar_def is_surrogate_def)

lemma hmac_text_ok: "str_ok m \<Longrightarrow> \<exists>d. hmac_text k m = Inr d"
  using utf8_encode_ok [of m] by (auto simp: hmac_text_def)

lemma sigv4_ok:
  assumes "str_ok meth" "str_ok path" "str_ok (sts_region S)" "SecretAccessKey c = Some secret" "str_ok secret"
    and "str_ok (opt_text (SessionToken c))"
  shows "\<exists>hs. sigv4_headers S now meth path payload c = Inr hs"
proof -
  have "str_ok (lit ''AWS4'' @ secret)" using assms(5) by simp
  then obtain k0 where k0: "utf8_encode (lit ''AWS4'' @ secret) = Inr k0" using utf8_encode_ok by blast
  obtain k1 where k1: "hmac_text k0 (date_text now) = Inr k1" using hmac_text_ok [OF date_ok(1)] by blast
  obtain k2 where k2: "hmac_text k1 (sts_region S) = Inr k2" using hmac_text_ok [OF assms(3)] by blast
  obtain k3 where k3: "hmac_text k2 (lit ''s3'') = Inr k3" using hmac_text_ok [OF str_ok_parts(2)] by blast
  obtain k4 where k4: "hmac_text k3 (lit ''aws4_request'') = Inr k4" using hmac_text_ok [OF str_ok_parts(2)] by blast
  have key: "signing_key S c now = Inr k4" by (simp add: signing_key_def assms(4) k0 k1 k2 k3 k4)
  let ?hs = "unsigned_headers (hex_of (sha256 payload)) (amz_text now) (opt_text (SessionToken c))"
  have "str_ok (canonical_request meth path ?hs (hex_of (sha256 payload)))"
    using assms by (simp add: canonical_lines minio_host_def)
  then obtain r where r: "utf8_encode (canonical_request meth path ?hs (hex_of (sha256 payload))) = Inr r" using utf8_encode_ok by blast
  have "str_ok (string_to_sign (amz_text now) (credential_scope S now) r)"
    using assms(3) by (simp add: string_to_sign_def credential_scope_def)
  then obtain m where "utf8_encode (string_to_sign (amz_text now) (credential_scope S now) r) = Inr m" using utf8_encode_ok by blast
  then show ?thesis using r key by (simp add: sigv4_headers_def Let_def)
qed

section \<open>Signed requests and their answers\<close>

definition answers :: "script_env \<Rightarrow> script_call list \<Rightarrow> http_request \<Rightarrow> nat \<Rightarrow> bytes \<Rightarrow> bool" where
  "answers E h r status body \<longleftrightarrow> open_reply E h r \<in> {HttpOk status body, HttpFailed status body}"

text \<open>A signed request is sent from \<open>h\<close> and answered.\<close>

definition exchanged ::
  "script_env \<Rightarrow> sts_settings \<Rightarrow> sts_creds \<Rightarrow> string \<Rightarrow> pystr \<Rightarrow> bytes \<Rightarrow> script_call list \<Rightarrow> nat \<Rightarrow> bytes \<Rightarrow> script_call list \<Rightarrow> bool" where
  "exchanged E S c meth path payload h status body h' \<longleftrightarrow> (\<exists>hs. sigv4_headers S (utc_clock E h) (lit meth) path payload c = Inr hs
     \<and> answers E (h @ [AskClock]) (s3_request_of (lit meth) path payload hs) status body
     \<and> h' = h @ [AskClock, OpenUrl (s3_request_of (lit meth) path payload hs)])"

lemma reply_Return:
  "(case reply of HttpOk n b \<Rightarrow> ret_io (n, b) | HttpFailed n b \<Rightarrow> ret_io (n, b) | UrlFailed x \<Rightarrow> raise_io x | OpenRaised x \<Rightarrow> raise_io x) h
     = (Return (status, body), h') \<longleftrightarrow> reply \<in> {HttpOk status body, HttpFailed status body} \<and> h' = h"
  by (cases reply) (auto simp: ret_io_def raise_io_def)

lemma s3_request_Return:
  "s3_request E S (lit meth) path c payload h = (Return (status, body), h') \<longleftrightarrow> exchanged E S c meth path payload h status body h'"
  unfolding s3_request_def exchanged_def answers_def bind_Return_io utc_now_def open_url_def consult_Return lift_sum_Return reply_Return
  by auto

lemma put_get_delete_0:
  "put_get_delete E S path c h = (Return 0, h') \<longleftrightarrow> (\<exists>b h1 h2 body.
     exchanged E S c ''PUT'' path sts_body h 200 b h1 \<and> exchanged E S c ''GET'' path [] h1 200 sts_body h2
     \<and> exchanged E S c ''DELETE'' path [] h2 403 body h' \<and> occurs_in (ascii_bytes ''AccessDenied'') body)"
  unfolding put_get_delete_def bind_Return_io
  by (auto simp: s3_request_Return bind_Return_io ret_io_def split: if_splits)

text \<open>The calls before the first signed request only extend the history.\<close>

lemma raise_not_Return: "raise_io e h \<noteq> (Return x, h')"
  by (simp add: raise_io_def)

lemma calm_start [calm_rules]: "calm (discover_role_arn E S)" "calm (fetch_dex_id_token E)"
    "calm (assume_role_with_web_identity E t arn)"
  unfolding discover_role_arn_def fetch_dex_id_token_def assume_role_with_web_identity_def
  by (intro calm_rules)+

lemma calm_Return: "calm m \<Longrightarrow> m h = (Return x, h') \<Longrightarrow> \<exists>g. h' = h @ g"
  by (metis calm_def snd_conv)

text \<open>
  What a signed request is, written out: the four headers, and in \<open>Authorization\<close> the HMAC of the string to sign under the key
  derived from the temporary secret, date, region and service.
\<close>

definition signed_by :: "sts_settings \<Rightarrow> sts_creds \<Rightarrow> timestamp \<Rightarrow> string \<Rightarrow> pystr \<Rightarrow> bytes \<Rightarrow> (pystr \<times> pystr) list \<Rightarrow> bool" where
  "signed_by S c now meth path payload hs \<longleftrightarrow> (\<exists>secret token scope request text k d r s a.
     SecretAccessKey c = Some secret \<and> SessionToken c = Some token
   \<and> scope = join_str [47] [date_text now, sts_region S, lit ''s3'', lit ''aws4_request'']
   \<and> utf8_encode (join_str [10] [lit meth, path, [], lit ''host:'' @ minio_host,
       lit ''x-amz-content-sha256:'' @ hex_of (sha256 payload), lit ''x-amz-date:'' @ amz_text now, lit ''x-amz-security-token:'' @ token, [],
       lit ''host;x-amz-content-sha256;x-amz-date;x-amz-security-token'', hex_of (sha256 payload)]) = Inr request
   \<and> utf8_encode (join_str [10] [lit ''AWS4-HMAC-SHA256'', amz_text now, scope, hex_of (sha256 request)]) = Inr text
   \<and> utf8_encode (lit ''AWS4'' @ secret) = Inr k \<and> utf8_encode (date_text now) = Inr d \<and> utf8_encode (sts_region S) = Inr r
   \<and> utf8_encode (lit ''s3'') = Inr s \<and> utf8_encode (lit ''aws4_request'') = Inr a
   \<and> hs = [(lit ''host'', minio_host), (lit ''x-amz-content-sha256'', hex_of (sha256 payload)), (lit ''x-amz-date'', amz_text now),
       (lit ''x-amz-security-token'', token),
       (lit ''Authorization'', lit ''AWS4-HMAC-SHA256 Credential='' @ opt_text (AccessKeyId c) @ lit ''/'' @ scope
          @ lit '', SignedHeaders=host;x-amz-content-sha256;x-amz-date;x-amz-security-token, Signature=''
          @ hex_of (hmac_sha256 (hmac_sha256 (hmac_sha256 (hmac_sha256 (hmac_sha256 k d) r) s) a) text))])"

lemma sigv4_signed:
  assumes "sigv4_headers S now (lit meth) path payload c = Inr hs" and "SessionToken c = Some token"
  shows "signed_by S c now meth path payload hs"
proof -
  have o: "opt_text (SessionToken c) = token" by (simp add: opt_text_def assms(2))
  obtain request key m where r: "utf8_encode (canonical_request (lit meth) path
      (unsigned_headers (hex_of (sha256 payload)) (amz_text now) token) (hex_of (sha256 payload))) = Inr request"
    "signing_key S c now = Inr key"
    "utf8_encode (string_to_sign (amz_text now) (credential_scope S now) request) = Inr m"
    "hs = unsigned_headers (hex_of (sha256 payload)) (amz_text now) token @ [(lit ''Authorization'', authorization c (credential_scope S now)
        [lit ''host'', lit ''x-amz-content-sha256'', lit ''x-amz-date'', lit ''x-amz-security-token''] (hex_of (hmac_sha256 key m)))]"
    using assms(1) by (auto simp: sigv4_headers_def Let_def bind_sum_Inr signed_keys_unsigned o)
  obtain secret k d g s a where k: "SecretAccessKey c = Some secret" "utf8_encode (lit ''AWS4'' @ secret) = Inr k"
    "utf8_encode (date_text now) = Inr d" "utf8_encode (sts_region S) = Inr g" "utf8_encode (lit ''s3'') = Inr s"
    "utf8_encode (lit ''aws4_request'') = Inr a"
    "key = hmac_sha256 (hmac_sha256 (hmac_sha256 (hmac_sha256 k d) g) s) a"
    using r(2) by (auto simp: signing_key_def hmac_text_def bind_sum_Inr split: option.splits)
  have names: "join_str [59] [lit ''host'', lit ''x-amz-content-sha256'', lit ''x-amz-date'', lit ''x-amz-security-token'']
      = lit ''host;x-amz-content-sha256;x-amz-date;x-amz-security-token''"
    by (simp add: lit_def)
  have "authorization c scope [lit ''host'', lit ''x-amz-content-sha256'', lit ''x-amz-date'', lit ''x-amz-security-token''] sig
      = lit ''AWS4-HMAC-SHA256 Credential='' @ opt_text (AccessKeyId c) @ lit ''/'' @ scope
          @ lit '', SignedHeaders=host;x-amz-content-sha256;x-amz-date;x-amz-security-token, Signature='' @ sig" for scope sig
    unfolding authorization_def names by (simp add: lit_def)
  then show ?thesis
    unfolding signed_by_def using r(1) [unfolded canonical_lines] r(3,4) k assms(2)
    by (simp add: string_to_sign_def credential_scope_def unsigned_headers_def)
qed

definition signed_exchange ::
  "script_env \<Rightarrow> sts_settings \<Rightarrow> sts_creds \<Rightarrow> string \<Rightarrow> pystr \<Rightarrow> bytes \<Rightarrow> script_call list \<Rightarrow> nat \<Rightarrow> bytes \<Rightarrow> script_call list \<Rightarrow> bool" where
  "signed_exchange E S c meth path payload h status body h' \<longleftrightarrow> (\<exists>hs r. signed_by S c (utc_clock E h) meth path payload hs
     \<and> r = \<lparr>req_url = minio_url @ path, req_method = meth, req_headers = hs, req_data = (if payload = [] then None else Some payload)\<rparr>
     \<and> answers E (h @ [AskClock]) r status body \<and> h' = h @ [AskClock, OpenUrl r])"

lemma exchanged_signed:
  "exchanged E S c meth path payload h status body h' \<Longrightarrow> SessionToken c = Some token \<Longrightarrow> signed_exchange E S c meth path payload h status body h'"
  unfolding exchanged_def signed_exchange_def
  using sigv4_signed by (fastforce simp: s3_request_of_def lit_def comp_def)

lemma sts_main_0:
  assumes "sts_main E S h = (Return 0, h')"
  shows "\<exists>id arn g1 c g2 path b h1 h2 body. assume_role_with_web_identity E id arn (h @ g1) = (Return c, h @ g1 @ g2)
    \<and> starts_with (lit ''/'' @ sts_bucket S @ lit ''/sts-poc/'') path
    \<and> signed_exchange E S c ''PUT'' path sts_body (h @ g1 @ g2 @ [AskUuid]) 200 b h1
    \<and> signed_exchange E S c ''GET'' path [] h1 200 sts_body h2
    \<and> signed_exchange E S c ''DELETE'' path [] h2 403 body h' \<and> occurs_in (ascii_bytes ''AccessDenied'') body"
proof -
  obtain arn h1 tok h2 c h3 uid h4 id where r: "discover_role_arn E S h = (Return arn, h1)" "fetch_dex_id_token E h1 = (Return tok, h2)"
    "assume_role_with_web_identity E id arn h2 = (Return c, h3)" "random_uuid E h3 = (Return uid, h4)" "SessionToken c \<noteq> None"
    and p: "put_get_delete E S (lit ''/'' @ sts_bucket S @ lit ''/sts-poc/'' @ replace_str (lit ''-'') [] uid @ lit ''.txt'') c h4 = (Return 0, h')"
    using assms unfolding sts_main_def bind_Return_io lift_sum_Return
    by (auto simp: raise_not_Return bind_Return_io split: if_splits)
  obtain ga gb gc where g: "h1 = h @ ga" "h2 = h1 @ gb" "h3 = h2 @ gc"
    using calm_Return [OF calm_start(1) r(1)] calm_Return [OF calm_start(2) r(2)] calm_Return [OF calm_start(3) r(3)] by blast
  have "h4 = h3 @ [AskUuid]"
    using r(4) by (auto simp: random_uuid_def bind_io_def consult_def get_io_def record_call_def modify_io_def ret_io_def lift_sum_def)
  then have h: "h2 = h @ (ga @ gb)" "h3 = h @ (ga @ gb) @ gc" "h4 = h @ (ga @ gb) @ gc @ [AskUuid]" using g by simp_all
  moreover have "starts_with (lit ''/'' @ sts_bucket S @ lit ''/sts-poc/'') (lit ''/'' @ sts_bucket S @ lit ''/sts-poc/'' @ x)" for x
    by (simp add: starts_with_iff)
  moreover obtain token where "SessionToken c = Some token" using r(5) by blast
  note signed = exchanged_signed [OF _ this]
  ultimately show ?thesis using p [unfolded put_get_delete_0] r(3) signed by metis
qed

end
