(* ===== verification/Replay_Lemmas.thy ===== *)
theory Replay_Lemmas
  imports Script_Lemmas Sts_Lemmas
begin

text \<open>
  The replayed event read by the worker: it is the event the watcher builds for the same file, with fresh ids.
\<close>

text \<open>The script and the worker are configured alike.\<close>

definition same_setup :: "replay_settings \<Rightarrow> settings \<Rightarrow> bool" where
  "same_setup R S \<longleftrightarrow> rp_s3_bucket R = s3_bucket S \<and> rp_s3_region R = s3_region S \<and> rp_gcs_bucket R = gcs_bucket S
     \<and> rp_secret R = correlation_secret S \<and> rp_watch_dir R = watch_dir S"

definition replay_path :: "replay_settings \<Rightarrow> pystr \<Rightarrow> pystr" where
  "replay_path R ts = rp_watch_dir R @ lit ''/'' @ replay_file ts"

lemma replay_file_chars:
  assumes "digits ts"
  shows "47 \<notin> set (replay_file ts)" and "46 \<notin> set (lit ''ORD-'' @ ts @ lit ''-dup'')"
  using assms by (auto simp: replay_file_def digits_def list_all_iff lit_def)

lemma replay_basename: "digits ts \<Longrightarrow> basename (replay_path R ts) = replay_file ts"
proof -
  assume "digits ts"
  then have "takeWhile (\<lambda>c. c \<noteq> 47) (rev (replay_file ts) @ 47 # rev (rp_watch_dir R)) = rev (replay_file ts)"
    using replay_file_chars(1) by (intro takeWhile_append_stop) auto
  then show ?thesis by (simp add: basename_def replay_path_def lit_def)
qed

lemma replay_content_type: "digits ts \<Longrightarrow> guess_content_type (replay_path R ts) = lit ''text/csv''"
proof -
  assume ts: "digits ts"
  let ?stem = "lit ''ORD-'' @ ts @ lit ''-dup''"
  have name: "replay_file ts = ?stem @ [46, 99, 115, 118]" by (simp add: replay_file_def lit_def)
  have "takeWhile (\<lambda>c. c \<noteq> 46) (rev (replay_file ts)) = [118, 115, 99]" by (simp add: name)
  moreover have "list_ex (\<lambda>c. c \<noteq> 46) ?stem" by (simp add: lit_def)
  ultimately have "snd (splitext (replay_path R ts)) = [46, 99, 115, 118]"
    using replay_basename [OF ts, of R] unfolding splitext_def by (simp add: Let_def name)
  then show ?thesis by (simp add: guess_content_type_def content_types_def lower_ascii_def lit_def)
qed

lemma replay_event_read:
  assumes "same_setup R S" and "digits ts" and "\<And>n. lax_int P (JInt n) = Some n"
  shows "event_of_json P (replay_event R (replay_file ts) n digest key i c now) =
    Some (event_for S (replay_path R ts) n digest (replay_file ts) key i c now)"
proof -
  have "rp_watch_dir R @ lit ''/'' @ replay_file ts = replay_path R ts" by (simp add: replay_path_def)
  then show ?thesis using assms(1)
  by (simp add: event_of_json_def replay_event_def source_of_json_def file_of_json_def destination_of_json_def obj_get_def
      keys_ok_def guard_opt_def opt_field_def assms(3) event_for_def replay_basename [OF assms(2)] replay_content_type [OF assms(2)]
      same_setup_def)
qed

lemma fresh_event_is_replay:
  assumes "fresh_event E R (replay_file ts) content h = (Return ev, h')" and "\<And>h. length (uuid_bytes E h) = 16"
  shows "\<exists>key i c g. compute_idempotency_key (rp_secret R) (replay_path R ts) (int (length content)) (hex_of (sha256 content)) = Inr key
    \<and> ev = replay_event R (replay_file ts) (length content) (hex_of (sha256 content)) key i c (iso_text (utc_clock E g) @ lit ''Z'')
    \<and> uuid_ok i \<and> str_ok i \<and> uuid_ok c \<and> str_ok c"
proof -
  have uuid: "random_uuid E h = (Return x, h') \<Longrightarrow> uuid_ok x \<and> str_ok x" for h x h'
    using assms(2) uuid_text_ok by (auto simp: random_uuid_def bind_Return_io consult_Return ret_io_def)
  show ?thesis
    using assms(1) unfolding fresh_event_def replay_key_same bind_Return_io lift_sum_Return utc_now_def consult_Return replay_path_def
    by (auto simp: ret_io_def dest!: uuid)
qed

lemma replayed_event_read:
  assumes "fresh_event E R (replay_file ts) content h = (Return ev, h')" and "\<And>h. length (uuid_bytes E h) = 16"
    and "same_setup R S" and "settings_ok S" and "digits ts" and "located S (replay_path R ts) [replay_file ts]"
    and "\<And>n. lax_int P (JInt n) = Some n" and "\<And>h. fromisoformat_ok P (iso_text (utc_clock E h) @ lit ''+00:00'')"
    and "json_loads P body = Some ev"
  shows "\<exists>e. from_json_bytes P body = Inr e \<and> describes S (replay_path R ts) (length content) content (replay_file ts) e
    \<and> assert_supported e = Inr ()"
proof -
  let ?sum = "hex_of (sha256 content)"
  obtain key i c g where k: "compute_idempotency_key (rp_secret R) (replay_path R ts) (int (length content)) ?sum = Inr key"
    and ev: "ev = replay_event R (replay_file ts) (length content) ?sum key i c (iso_text (utc_clock E g) @ lit ''Z'')"
    and ids: "uuid_ok i" "str_ok i" "uuid_ok c" "str_ok c"
    using fresh_event_is_replay [OF assms(1,2)] by blast
  define e where "e = event_for S (replay_path R ts) (length content) ?sum (replay_file ts) key i c (iso_text (utc_clock E g) @ lit ''Z'')"
  have read: "event_of_json P ev = Some e" unfolding ev e_def by (rule replay_event_read [OF assms(3,5,7)])
  have "occurred_at_ok P (iso_text (utc_clock E g) @ lit ''Z'')"
    using assms(8) by (simp add: occurred_at_ok_def iso_text_zulu)
  moreover have "str_ok (replay_file ts)" using located_relpath(3) [OF assms(6)] by simp
  ultimately have "valid_event P e"
    unfolding e_def using k ids iso_text_zulu
    by (intro event_for_valid [OF assms(4)] located_relpath [OF assms(6)]) (simp_all add: hex_of_lower)
  then have "from_json_bytes P body = Inr e" by (simp add: from_json_bytes_def assms(9) read mk_transfer_event_def)
  moreover have "describes S (replay_path R ts) (length content) content (replay_file ts) e"
    using k assms(3) by (auto simp: describes_def e_def same_setup_def)
  ultimately show ?thesis using event_for_supported e_def by blast
qed

end
