(* ===== verification/Script_Properties.thy ===== *)
theory Script_Properties
  imports Sts_Lemmas Replay_Lemmas Watcher_Properties Consumer_Properties Service_Properties
begin

text \<open>
  What the operator scripts rely on and show: the demonstration files are good order files, the replayed event
  is a duplicate for the worker, the waiting loops end, forms are read back, signatures cover the whole request,
  and success of the STS script means that the temporary credentials can put and get but not delete.
\<close>

section \<open>A sample outside\<close>

definition demo_time :: timestamp where
  "demo_time = \<lparr>ts_year = 2026, ts_month = 3, ts_day = 1, ts_hour = 10, ts_minute = 0, ts_second = 0\<rparr>"

definition sts_doc :: xml where
  "sts_doc = Element (lit ''r'') None [Element (sts_tag ''Credentials'') None
     [Element (sts_tag ''AccessKeyId'') (Some (lit ''k'')) [], Element (sts_tag ''SecretAccessKey'') (Some (lit ''s'')) [],
      Element (sts_tag ''SessionToken'') (Some (lit ''t'')) [], Element (sts_tag ''Expiration'') None []]]"

text \<open>
  The clock passes every deadline after the second sleep; the storage allows to put and get but not to delete.
\<close>

definition demo_env :: script_env where
  "demo_env = \<lparr>run_reply = \<lambda>_ _. Inr (0, ascii_bytes ''roleARN: arn''),
     open_reply = \<lambda>_ r. if req_method r = ''DELETE'' then HttpFailed 403 (ascii_bytes ''AccessDenied'') else HttpOk 200 sts_body,
     temp_name = \<lambda>_. lit ''/tmp/f'', draw_int = \<lambda>_ a b. a, draw_index = \<lambda>_ _. 0,
     wall_clock = \<lambda>_. demo_time, utc_clock = \<lambda>_. demo_time, deadline_passed = \<lambda>h. 2 \<le> sleeps h,
     uuid_bytes = \<lambda>_. replicate 16 0, parse_json = \<lambda>_. Inr (JObj [(lit ''id_token'', JStr (lit ''jwt''))]),
     parse_xml = \<lambda>_. Inr sts_doc, list_text = \<lambda>_. []\<rparr>"

definition demo_replay :: replay_settings where
  "demo_replay = \<lparr>rp_compose_file = lit ''dc.yml'', rp_s3_bucket = lit ''wms-orders-processed'', rp_s3_region = lit ''us-east-1'',
     rp_gcs_bucket = lit ''wms-orders-processed'', rp_user = lit ''guest'', rp_pass = lit ''guest'', rp_vhost = lit ''/'',
     rp_queue = lit ''orders.inbound'', rp_secret = lit ''dev-secret-change-me'', rp_watch_dir = lit ''/watch'', rp_timeout = Finite 60\<rparr>"

section \<open>Demonstration files\<close>

text \<open>C21. A generated order file is accepted and stored: it has one to five order lines, each with its own order id; the
  worker's scan finds nothing in it; and when the time stamp, the object key and the ingestion time are short enough for
  DynamoDB's limits, the DynamoDB handler that is notified of it stores every line under its order id and sku and leaves
  every other item alone.\<close>

theorem generated_file_is_accepted:
  assumes "build_csv E ts idx h = (Return text, h')" and "digits ts" and "digits idx" and "length ts + length idx \<le> 1000"
    and "batch_laws W" and "objects bucket (unquote_plus key) = utf8_encode text"
    and "text_fits 1024 (unquote_plus key)" and "text_fits 100 now"
  shows "\<exists>rows raw. 1 \<le> length rows \<and> length rows \<le> 5 \<and> demo_rows ts idx 1 rows
    \<and> utf8_encode text = Inr raw \<and> scan_raw raw = Inr []
    \<and> handle_s3_event W objects now [\<lparr>rec_bucket = bucket, rec_key = key\<rparr>] s =
      (None, \<lambda>k. case map_of (map (order_item (unquote_plus key) now) rows) k of Some i \<Rightarrow> Some i | None \<Rightarrow> s k)"
proof -
  obtain rows where r: "1 \<le> length rows" "length rows \<le> 5" "demo_rows ts idx 1 rows"
    "text = join_str [10] (csv_header # map comma_line rows) @ [10]"
    using build_csv_rows [OF assms(1)] by blast
  have short: "length ts + length idx \<le> 100000" using assms(4) by simp
  note t = demo_text_rows [OF r(3,2) assms(2,3) short, folded r(4)]
  define raw :: bytes where "raw = map of_nat text"
  have raw: "utf8_encode text = Inr raw" "0 \<notin> set raw" using ascii_encode [OF t(2)] by (simp_all add: raw_def)
  have cells: "\<not> is_formula c" if "x \<in> set rows" "c \<in> set (order_row x)" for x c
    using demo_rows_mem [OF r(3) that(1)] demo_row_cells(2) [OF _ assms(2,3), of _ x] that(2) by (auto simp: list_all_iff)
  have "scan_rows 1 (order_header # map order_row rows) = []"
    using cells by (auto simp: scan_rows_Nil_iff order_header_def is_formula_def formula_prefixes_def lit_def)
  then have clean: "scan_raw raw = Inr []"
    using raw by (simp add: scan_raw_def utf8_decode_encode [OF raw(1)] scan_text_def t(1))
  have items: "csv_items (line_item_of (unquote_plus key) now) text = (map (order_item (unquote_plus key) now) rows, None)"
    using t(1)
  proof (rule order_rows_items)
    fix order unit n ch assume "(order, unit, n, ch) \<in> set rows"
    from demo_rows_mem [OF r(3) this] have "1 \<le> n \<and> n \<le> 10" by (auto simp: demo_row_def)
    then have "length (show_nat (nat \<bar>n\<bar>)) \<le> 4300" using length_show_nat [of "nat \<bar>n\<bar>"] by linarith
    then show "line_item_of (unquote_plus key) now (dict_row order_header [order, unit, show_int n, ch]) = Inr (order_item (unquote_plus key) now (order, unit, n, ch))"
      by (rule order_row_item)
  qed
  have fits: "list_all dynamo_accepts (map (order_item (unquote_plus key) now) rows)"
    using demo_rows_accepted [OF r(3,2) assms(2-4,7,8)] .
  have "objects bucket (unquote_plus key) = Inr raw" using assms(6) raw(1) by simp
  note stored = stored_rows [where objects = objects and bucket = bucket and key = key,
      OF assms(5) this utf8_decode_encode [OF raw(1)] items demo_rows_distinct [OF r(3)] fits]
  show ?thesis
    by (intro exI [of _ rows] exI [of _ raw] conjI r(1-3) raw(1) stored) (rule clean)
qed

theorem generated_file_is_accepted_witness:
  "\<exists>text rows raw. fst (build_csv demo_env (compact_time demo_time) (show_pad 3 1) []) = Return text \<and> length rows \<le> 5
    \<and> demo_rows (compact_time demo_time) (show_pad 3 1) 1 rows \<and> utf8_encode text = Inr raw \<and> scan_raw raw = Inr []
    \<and> fst (handle_s3_event strict_writer (\<lambda>_ _. Inr raw) (lit ''t'') [\<lparr>rec_bucket = [98], rec_key = lit ''k''\<rparr>] (\<lambda>_. None)) = None"
proof -
  obtain body h' where b: "build_csv demo_env (compact_time demo_time) (show_pad 3 1) [] = (Return body, h')"
    using build_csv_run by blast
  have d: "length (compact_time demo_time) + length (show_pad 3 1) \<le> 1000" "digits (compact_time demo_time)"
    by (simp_all add: compact_time_def demo_time_def show_pad_def show_nat.simps digits_def)
  have f: "text_fits 1024 (unquote_plus (lit ''k''))" "text_fits 100 (lit ''t'')"
    unfolding plain_key by (simp_all add: text_fits_def utf8_size_def lit_def is_scalar_def is_surrogate_def enc_cp_def)
  from generated_file_is_accepted [OF b d(2) digits_show(2) d(1) strict_writer_laws _ f,
      where objects = "\<lambda>_ _. utf8_encode body" and bucket = "[98]" and s = "\<lambda>_. None"] b
  show ?thesis by fastforce
qed

section \<open>The replayed event\<close>

text \<open>C20. The replayed event is the file's event: for script and worker configured alike, with the same secret, the event the
  script makes for its file is read by the worker as a valid event that describes the file as the watcher's own event
  does, with the same idempotency key. If this key is already in the table, the worker only looks it up and
  acknowledges, and the table stays; the script itself waits for the object in Cloud Storage, not for the mark.\<close>

theorem replayed_event_is_a_duplicate:
  assumes "fresh_event E R (replay_file ts) content h = (Return ev, h')" and "\<And>h. length (uuid_bytes E h) = 16"
    and "same_setup R S" and "settings_ok S" and "digits ts" and "located S (replay_path R ts) [replay_file ts]"
    and "\<And>n. lax_int W (JInt n) = Some n" and "\<And>h. fromisoformat_ok W (iso_text (utc_clock E h) @ lit ''+00:00'')"
    and "utf8_encode (dumps ev) = Inr body" and "json_loads W body = Some ev"
    and "describes S (replay_path R ts) (length content) content (replay_file ts) e0" and "select_key (table w) (idempotencyKey e0)"
  shows "\<exists>e. from_json_bytes W body = Inr e \<and> describes S (replay_path R ts) (length content) content (replay_file ts) e
    \<and> idempotencyKey e = idempotencyKey e0
    \<and> (let w' = snd (handle W (worker_consumer ch S) tag props body w)
       in table w' = table w \<and> (\<exists>x y. new_actions w w' \<in> {
         [Sql (SelectKey (idempotencyKey e0)), Acked ch tag],
         [Sql (SelectKey (idempotencyKey e0)), AckFailed ch tag x],
         [SqlFailed (SelectKey (idempotencyKey e0)) y]}))"
proof -
  obtain e where e: "from_json_bytes W body = Inr e" "describes S (replay_path R ts) (length content) content (replay_file ts) e"
    "assert_supported e = Inr ()"
    using replayed_event_read [OF assms(1-8,10)] by blast
  have "idempotencyKey e = idempotencyKey e0"
    using e(2) assms(11) by (auto simp: describes_def event_for_def)
  then show ?thesis
    using e duplicate_is_only_acked [OF e(1,3), of w ch S tag props] assms(12) by (intro exI [of _ e]) simp
qed

definition demo_stamp :: pystr where
  "demo_stamp = lit ''20260301''"

text \<open>The sample worker with a JSON reader that reads this event from the text the script writes.\<close>

definition reading_env :: "json \<Rightarrow> environ" where
  "reading_env ev = sample_env\<lparr>json_loads := \<lambda>bs. if utf8_encode (dumps ev) = Inr bs then Some ev else None\<rparr>"

definition seen_world :: "pystr \<Rightarrow> world" where
  "seen_world key = sample_world\<lparr>table := [\<lparr>row_key = key, row_correlation = [], row_processed_at = []\<rparr>]\<rparr>"

lemma demo_stamp_digits: "digits demo_stamp"
  by (simp add: demo_stamp_def digits_def lit_def)

lemma demo_same_setup: "same_setup demo_replay default_settings"
  by (simp add: same_setup_def demo_replay_def default_settings_def)

lemma demo_located: "located default_settings (replay_path demo_replay demo_stamp) [replay_file demo_stamp]"
  unfolding located_def
  by (intro exI [of _ "[lit ''watch'']"])
    (simp add: default_settings_def demo_replay_def replay_path_def replay_file_def demo_stamp_def root_path_def plain_part_def
      curdir_def pardir_def lit_def str_ok_def is_scalar_def is_surrogate_def)

lemma demo_fresh: "\<exists>ev h'. fresh_event demo_env demo_replay (replay_file demo_stamp) [] [] = (Return ev, h') \<and> printable_numbers ev"
proof -
  have "str_ok (rp_secret demo_replay)" "str_ok (rp_watch_dir demo_replay @ lit ''/'' @ replay_file demo_stamp)"
    by (simp_all add: demo_replay_def replay_file_def demo_stamp_def)
  from compute_key_scalar [OF this hex_of_lower, of "int 0"] obtain key where
    "compute_idempotency_key (rp_secret demo_replay) (rp_watch_dir demo_replay @ lit ''/'' @ replay_file demo_stamp) 0 (hex_of (sha256 [])) = Inr key"
    by auto
  then show ?thesis
    by (simp add: fresh_event_def replay_key_same lift_sum_def random_uuid_def utc_now_def consult_def bind_io_def get_io_def record_call_def
        modify_io_def ret_io_def replay_event_def)
qed

theorem replayed_event_is_a_duplicate_witness:
  "\<exists>ev body e. fst (fresh_event demo_env demo_replay (replay_file demo_stamp) [] []) = Return ev \<and> utf8_encode (dumps ev) = Inr body
    \<and> from_json_bytes (reading_env ev) body = Inr e
    \<and> table (snd (handle (reading_env ev) (worker_consumer 0 default_settings) 7 sample_props body (seen_world (idempotencyKey e))))
      = table (seen_world (idempotencyKey e))"
proof -
  obtain ev h' where ev: "fresh_event demo_env demo_replay (replay_file demo_stamp) [] [] = (Return ev, h')" "printable_numbers ev"
    using demo_fresh by blast
  have "str_ok (dumps ev)" using printable_dumps [OF ev(2)]
    by (auto simp: printable_def str_ok_def list_all_iff is_scalar_def is_surrogate_def)
  then obtain body where body: "utf8_encode (dumps ev) = Inr body" using utf8_encode_ok by blast
  have uuid: "length (uuid_bytes demo_env h) = 16" for h by (simp add: demo_env_def)
  have lax: "lax_int (reading_env ev) (JInt n) = Some n" for n by (simp add: reading_env_def sample_env_def sample_env_of_def)
  have iso: "fromisoformat_ok (reading_env ev) (iso_text (utc_clock demo_env h) @ lit ''+00:00'')" for h
    using sample_timestamp by (simp add: reading_env_def demo_env_def demo_time_def sample_env_def sample_env_of_def lit_append [symmetric])
  have loads: "json_loads (reading_env ev) body = Some ev" by (simp add: reading_env_def body)
  obtain e0 where e0: "describes default_settings (replay_path demo_replay demo_stamp) (length ([] :: bytes)) [] (replay_file demo_stamp) e0"
    using replayed_event_read [OF ev(1) uuid demo_same_setup sample_settings_ok demo_stamp_digits demo_located lax iso loads] by blast
  have "select_key (table (seen_world (idempotencyKey e0))) (idempotencyKey e0)" by (simp add: seen_world_def select_key_iff)
  from replayed_event_is_a_duplicate [OF ev(1) uuid demo_same_setup sample_settings_ok demo_stamp_digits demo_located lax iso body loads e0 this,
      of 0 7 sample_props]
  show ?thesis using ev(1) body by (fastforce simp: Let_def)
qed

section \<open>Waiting\<close>

text \<open>C22. The scripts end: once \<open>n\<close> sleeps take the clock past every deadline, the drop script and the replay
  script come back with a result for every fuel above \<open>n\<close>, whatever the outside answers. And when verification is on
  (with VERIFY=0 the drop script does not poll), exit code 0 of the drop script means that its last poll found every
  dropped file in both stores: each object's URL in Cloud Storage was opened, and its last call was a shell, ending with
  0, that runs \<open>mc stat\<close> on every key of the S3 bucket.\<close>

theorem scripts_end_by_the_deadline:
  assumes "\<And>h. n \<le> sleeps h \<Longrightarrow> deadline_passed E h" and "n < fuel"
  shows "fst (drop_main fuel E D h) \<noteq> Hang \<and> fst (replay_main fuel E R h) \<noteq> Hang
    \<and> (verify D \<and> fst (drop_main fuel E D h) = Return 0 \<longrightarrow>
        (\<exists>g g'. all_opened E (drop_gcs_bucket D) (dropped_names E D h) g g'
          \<and> all_stat E D (dropped_names E D h) g' (snd (drop_main fuel E D h))))"
proof -
  obtain r h' where m: "drop_main fuel E D h = (r, h')" by fastforce
  have "\<exists>g. all_landed E D (dropped_names E D h) g = (Return True, h')" if "verify D" "r = Return 0"
    using drop_main_success [OF assms _ that(1)] m that(2) by blast
  moreover have "fst (drop_main fuel E D h) \<noteq> Hang" "fst (replay_main fuel E R h) \<noteq> Hang"
    using calm_mains [OF assms] by (simp_all add: calm_def)
  ultimately show ?thesis using m all_landed_True by fastforce
qed

definition demo_drop :: drop_settings where
  "demo_drop = \<lparr>drop_compose_file = lit ''dc.yml'', drop_s3_bucket = lit ''b'', drop_gcs_bucket = lit ''b'', minio_user = lit ''u'',
     minio_password = lit ''p'', drop_timeout = Finite 4, file_count = 2, verify = True\<rparr>"

theorem scripts_end_by_the_deadline_witness:
  "fst (drop_main 3 demo_env demo_drop []) \<noteq> Hang \<and> fst (replay_main 3 demo_env demo_replay []) \<noteq> Hang"
  using scripts_end_by_the_deadline [of 2 demo_env 3 demo_drop "[]" demo_replay] by (simp add: demo_env_def)

section \<open>Temporary credentials\<close>

text \<open>A form is read back: splitting what \<open>urlencode\<close> wrote at ampersands and each field at its first equals sign, and
  decoding plus signs and percent escapes, gives exactly the fields, for all texts UTF-8 can encode.\<close>

theorem form_is_read_back:
  assumes "urlencode kvs = Inr s" and "kvs \<noteq> []"
  shows "read_form s = kvs"
  by (rule read_urlencode [OF assms])

theorem form_is_read_back_witness:
  "\<exists>s. urlencode (role_form (lit ''a&b=c d'') (lit ''arn:x'')) = Inr s \<and> read_form s = role_form (lit ''a&b=c d'') (lit ''arn:x'')"
proof -
  obtain s where "urlencode (role_form (lit ''a&b=c d'') (lit ''arn:x'')) = Inr s"
    using urlencode_ok [of "role_form (lit ''a&b=c d'') (lit ''arn:x'')"] by (auto simp: role_form_def)
  moreover from form_is_read_back [OF this] have "read_form s = role_form (lit ''a&b=c d'') (lit ''arn:x'')" by (simp add: role_form_def)
  ultimately show ?thesis by blast
qed

text \<open>A signature covers the whole request: for methods, paths and tokens of one line, two requests have the same text
  under the signature exactly if method, path, time, session token and the SHA-256 of the payload agree.\<close>

theorem signature_covers_the_request:
  assumes "one_line m" "one_line p" "one_line t" "one_line m'" "one_line p'" "one_line t'"
  shows "request_text m p payload now t = request_text m' p' payload' now' t' \<longleftrightarrow>
    m = m' \<and> p = p' \<and> sha256 payload = sha256 payload' \<and> amz_text now = amz_text now' \<and> t = t'"
  using request_text_inj [OF assms] by (auto simp: request_text_def)

theorem signature_covers_the_request_witness:
  "request_text (lit ''PUT'') (lit ''/b/k'') [] demo_time (lit ''t'') \<noteq> request_text (lit ''GET'') (lit ''/b/k'') [] demo_time (lit ''t'')"
  using signature_covers_the_request [of "lit ''PUT''" "lit ''/b/k''" "lit ''t''" "lit ''GET''" "lit ''/b/k''" "lit ''t''" "[]" demo_time "[]" demo_time]
  by (simp add: one_line_def lit_def)

text \<open>C23. Success means scoped access: when the STS script ends with exit code 0, it got temporary credentials from MinIO, and its
  last three calls were a PUT, a GET and a DELETE of one path, each with the session token and the Version 4 signature of
  the request under these credentials in its headers; the storage answered the PUT with 200, the GET with 200 and the
  bytes that were put, and refused the DELETE with 403 and AccessDenied. (Its header speaks of ListBuckets instead.)\<close>

theorem sts_success_means_scoped_access:
  assumes "sts_main E S h = (Return 0, h')"
  shows "\<exists>id arn g1 c g2 path b h1 h2 body. assume_role_with_web_identity E id arn (h @ g1) = (Return c, h @ g1 @ g2)
    \<and> starts_with (lit ''/'' @ sts_bucket S @ lit ''/sts-poc/'') path
    \<and> signed_exchange E S c ''PUT'' path sts_body (h @ g1 @ g2 @ [AskUuid]) 200 b h1
    \<and> signed_exchange E S c ''GET'' path [] h1 200 sts_body h2
    \<and> signed_exchange E S c ''DELETE'' path [] h2 403 body h' \<and> occurs_in (ascii_bytes ''AccessDenied'') body"
  using sts_main_0 [OF assms] .

definition demo_sts :: sts_settings where
  "demo_sts = \<lparr>sts_compose_file = lit ''dc.yml'', sts_user = lit ''u'', sts_password = lit ''p'', sts_bucket = lit ''b'', sts_region = lit ''r''\<rparr>"

lemma demo_calls:
  "run_program demo_env argv h = (Return (0, ascii_bytes ''roleARN: arn''), h @ [RunProgram argv])"
  "req_method r \<noteq> ''DELETE'' \<Longrightarrow> fetch demo_env r h = (Return sts_body, h @ [OpenUrl r])"
  by (simp_all add: demo_env_def run_program_def fetch_def open_url_def consult_def bind_io_def get_io_def record_call_def modify_io_def
      ret_io_def lift_sum_def)

lemma demo_role: "discover_role_arn demo_env demo_sts h = (Return (lit ''arn''), h @ [RunProgram (sts_compose demo_sts @
    [lit ''run'', lit ''--rm'', lit ''--entrypoint'', lit ''sh'', lit ''minio-init'', lit ''-c'', role_script demo_sts])])"
proof -
  have enc: "utf8_encode (lit ''roleARN: arn'') = Inr (ascii_bytes ''roleARN: arn'')"
    by (simp add: utf8_encode_def) (simp add: lit_def enc_cp_def ascii_bytes_def)
  have "captured_text (ascii_bytes ''roleARN: arn'') = Inr (lit ''roleARN: arn'')"
    by (simp add: captured_text_def utf8_decode_encode [OF enc]) (simp add: replace_absent lit_def)
  moreover have "find_role_arn (lit ''roleARN: arn'') = Some (lit ''arn'')"
    by (simp add: lit_def starts_with_def is_space_def)
  ultimately show ?thesis
    by (simp add: discover_role_arn_def bind_io_def demo_calls lift_sum_def ret_io_def)
qed

lemma demo_token: "\<exists>h'. fetch_dex_id_token demo_env h = (Return (JStr (lit ''jwt'')), h')"
proof -
  obtain s where s: "urlencode token_form = Inr s" "str_ok s" using urlencode_ok [of token_form] by (auto simp: token_form_def)
  obtain form where f: "utf8_encode s = Inr form" using utf8_encode_ok [OF s(2)] by blast
  have "token_of (JObj [(lit ''id_token'', JStr (lit ''jwt''))]) = Inr (JStr (lit ''jwt''))" by (simp add: token_of_def obj_get_def)
  then show ?thesis
    by (simp add: fetch_dex_id_token_def s f lift_sum_def bind_io_def [of "fetch _ _"] demo_calls ret_io_def) (simp add: demo_env_def ret_io_def)
qed

definition demo_creds :: sts_creds where
  "demo_creds = \<lparr>AccessKeyId = Some (lit ''k''), SecretAccessKey = Some (lit ''s''), SessionToken = Some (lit ''t''), Expiration = None\<rparr>"

lemma demo_assume: "\<exists>h'. assume_role_with_web_identity demo_env (lit ''jwt'') (lit ''arn'') h = (Return demo_creds, h')"
proof -
  obtain s where s: "urlencode (role_form (lit ''jwt'') (lit ''arn'')) = Inr s"
    using urlencode_ok [of "role_form (lit ''jwt'') (lit ''arn'')"] by (auto simp: role_form_def)
  have "creds_of sts_doc = Inr demo_creds"
    by (simp add: creds_of_def sts_doc_def child_text_def sts_tag_def demo_creds_def)
  then show ?thesis
    by (simp add: assume_role_with_web_identity_def s lift_sum_def bind_io_def [of "fetch _ _"] demo_calls ret_io_def)
      (simp add: demo_env_def ret_io_def)
qed

lemma demo_exchange:
  assumes "str_ok path" and "meth \<in> {''PUT'', ''GET''} \<and> status = 200 \<and> body = sts_body \<or> meth = ''DELETE'' \<and> status = 403 \<and> body = ascii_bytes ''AccessDenied''"
  shows "\<exists>h'. exchanged demo_env demo_sts demo_creds meth path payload h status body h'"
proof -
  obtain hs where hs: "sigv4_headers demo_sts (utc_clock demo_env h) (lit meth) path payload demo_creds = Inr hs"
    using sigv4_ok [of "lit meth" path demo_sts demo_creds "lit ''s''"] assms(1) by (auto simp: demo_sts_def demo_creds_def opt_text_def)
  have "req_method (s3_request_of (lit meth) path payload hs) = meth"
    using assms(2) by (auto simp: s3_request_of_def lit_def)
  then have "answers demo_env (h @ [AskClock]) (s3_request_of (lit meth) path payload hs) status body"
    using assms(2) by (auto simp: answers_def demo_env_def)
  then show ?thesis using hs by (auto simp: exchanged_def)
qed

lemma demo_sts_run: "\<exists>h'. sts_main demo_env demo_sts [] = (Return 0, h')"
proof -
  let ?p = "\<lambda>uid. lit ''/'' @ sts_bucket demo_sts @ lit ''/sts-poc/'' @ replace_str (lit ''-'') [] uid @ lit ''.txt''"
  obtain h1 where h1: "discover_role_arn demo_env demo_sts [] = (Return (lit ''arn''), h1)" using demo_role by blast
  obtain h2 where h2: "fetch_dex_id_token demo_env h1 = (Return (JStr (lit ''jwt'')), h2)" using demo_token by blast
  obtain h3 where h3: "assume_role_with_web_identity demo_env (lit ''jwt'') (lit ''arn'') h2 = (Return demo_creds, h3)" using demo_assume by blast
  define uid where "uid = uuid_text (uuid_bytes demo_env h3)"
  have uid: "random_uuid demo_env h3 = (Return uid, h3 @ [AskUuid])"
    by (simp add: random_uuid_def uid_def bind_io_def consult_def get_io_def record_call_def modify_io_def ret_io_def)
  have "str_ok uid" by (simp add: uid_def uuid_text_ok demo_env_def)
  then have "str_ok (replace_str (lit ''-'') [] uid)"
    by (auto simp: str_ok_def list_all_iff lit_def replace_char split: if_splits)
  then have path: "str_ok (?p uid)" by (simp add: demo_sts_def)
  obtain h4 where h4: "exchanged demo_env demo_sts demo_creds ''PUT'' (?p uid) sts_body (h3 @ [AskUuid]) 200 sts_body h4"
    using demo_exchange [OF path, of "''PUT''"] by blast
  obtain h5 where h5: "exchanged demo_env demo_sts demo_creds ''GET'' (?p uid) [] h4 200 sts_body h5"
    using demo_exchange [OF path, of "''GET''"] by blast
  obtain h6 where h6: "exchanged demo_env demo_sts demo_creds ''DELETE'' (?p uid) [] h5 403 (ascii_bytes ''AccessDenied'') h6"
    using demo_exchange [OF path, of "''DELETE''"] by blast
  have "occurs_in (ascii_bytes ''AccessDenied'') (ascii_bytes ''AccessDenied'')" by (simp add: ascii_bytes_def)
  then have "put_get_delete demo_env demo_sts (?p uid) demo_creds (h3 @ [AskUuid]) = (Return 0, h6)"
    unfolding put_get_delete_0 using h4 h5 h6 by blast
  then show ?thesis
    by (simp add: sts_main_def bind_io_def h1 h2 h3 uid token_text_def lift_sum_def ret_io_def) (simp add: demo_creds_def)
qed

theorem sts_success_means_scoped_access_witness:
  "\<exists>h' c path b h1. sts_main demo_env demo_sts [] = (Return 0, h')
    \<and> signed_exchange demo_env demo_sts c ''DELETE'' path [] h1 403 b h' \<and> occurs_in (ascii_bytes ''AccessDenied'') b"
  using demo_sts_run sts_success_means_scoped_access [of demo_env demo_sts "[]"] by blast

end
