(* ===== verification/Pipeline.thy ===== *)
theory Pipeline
  imports Watcher_Lemmas Consumer_Scenarios Consumer_Loop "HOL-Library.Multiset"
begin

text \<open>
  Watcher, broker and consumer together. Of the broker only its documented duties are used: it keeps a message
  that was published to a declared queue until it is acknowledged, delivers any kept message again, and moves a
  retry message back to the main queue when its time is over, as the declared arguments of the retry queue tell
  it. So its state is a ledger: the multiset of message bodies it still has to deliver, and those in the
  dead-letter queue. A step is one delivery handled by the consumer, in any order, a crash within a delivery, or a
  restart of the worker, which keeps the table on disk.
\<close>

section \<open>The ledger\<close>

record ledger =
  pending :: "bytes multiset"
  dead :: "bytes multiset"

text \<open>Published to the main queue, or to the retry queue with a lifetime.\<close>

definition leads_to_main :: "settings \<Rightarrow> publication \<Rightarrow> bool" where
  "leads_to_main S p \<longleftrightarrow> pub_exchange p = [] \<and> (routing_key p = decl_queue (main_queue S)
     \<or> (routing_key p = decl_queue (retry_queue S) \<and> expiration (pub_props p) \<noteq> None
        \<and> map_of (arguments (retry_queue S)) (lit ''x-dead-letter-exchange'') = Some []
        \<and> map_of (arguments (retry_queue S)) (lit ''x-dead-letter-routing-key'') = Some (decl_queue (main_queue S))))"

definition goes_dead :: "settings \<Rightarrow> publication \<Rightarrow> bool" where
  "goes_dead S p \<longleftrightarrow> pub_exchange p = [] \<and> routing_key p = decl_queue (dead_letter_queue S)"

definition book :: "settings \<Rightarrow> publication list \<Rightarrow> ledger \<Rightarrow> ledger" where
  "book S ps b = b\<lparr>pending := pending b + mset (map pub_body (filter (leads_to_main S) ps)),
     dead := dead b + mset (map pub_body (filter (goes_dead S) ps))\<rparr>"

definition strike :: "bytes \<Rightarrow> ledger \<Rightarrow> ledger" where
  "strike body b = b\<lparr>pending := pending b - {#body#}\<rparr>"

text \<open>The ledger after the calls \<open>h\<close> that the consumer made on a delivery of \<open>body\<close>.\<close>

definition settle :: "settings \<Rightarrow> nat \<Rightarrow> nat \<Rightarrow> bytes \<Rightarrow> action list \<Rightarrow> ledger \<Rightarrow> ledger" where
  "settle S ch tag body h b = book S (publications ch h) (if Acked ch tag \<in> set h then strike body b else b)"

inductive delivery :: "environ \<Rightarrow> settings \<Rightarrow> ledger \<times> world \<Rightarrow> ledger \<times> world \<Rightarrow> bool" for E S where
  "body \<in># pending b \<Longrightarrow> handle E (worker_consumer ch S) tag props body w = (r, w') \<Longrightarrow>
    delivery E S (b, w) (settle S ch tag body (new_actions w w') b, w')"

text \<open>
  The process or its connection dies within a delivery: only the calls \<open>h\<close> were made, and an acknowledgement
  among them has not reached the broker, so the message is delivered again. The row is in the file if the insert was
  among the calls; all else of the worker's state is gone.
\<close>

inductive crash :: "environ \<Rightarrow> settings \<Rightarrow> ledger \<times> world \<Rightarrow> ledger \<times> world \<Rightarrow> bool" for E S where
  "body \<in># pending b \<Longrightarrow> handle E (worker_consumer ch S) tag props body w = (r, w') \<Longrightarrow>
    new_actions w w' = h @ rest \<Longrightarrow>
    table v = (if \<exists>k c. Sql (InsertKey k c) \<in> set h then table w' else table w) \<Longrightarrow>
    crash E S (b, w) (book S (publications ch h) b, v)"

text \<open>A run with \<open>n\<close> deliveries and \<open>k\<close> crashes; in between the worker may be stopped and started at any time.\<close>

inductive pipeline_run :: "environ \<Rightarrow> settings \<Rightarrow> nat \<Rightarrow> nat \<Rightarrow> ledger \<times> world \<Rightarrow> ledger \<times> world \<Rightarrow> bool" for E S where
  idle: "pipeline_run E S 0 0 s s"
| delivered: "pipeline_run E S n k s t \<Longrightarrow> delivery E S t u \<Longrightarrow> pipeline_run E S (Suc n) k s u"
| crashed: "pipeline_run E S n k s t \<Longrightarrow> crash E S t u \<Longrightarrow> pipeline_run E S n (Suc k) s u"
| restarted: "pipeline_run E S n k s (b, w) \<Longrightarrow> table w' = table w \<Longrightarrow> pipeline_run E S n k s (b, w')"

inductive_cases deliveryE: "delivery E S (b, w) (b', w')"
inductive_cases crashE: "crash E S (b, w) (b', v)"

section \<open>Nothing gets lost\<close>

definition carries :: "environ \<Rightarrow> pystr \<Rightarrow> bytes multiset \<Rightarrow> bool" where
  "carries E k B \<longleftrightarrow> (\<exists>body \<in># B. \<exists>e. from_json_bytes E body = Inr e \<and> idempotencyKey e = k)"

text \<open>The file with the key \<open>k\<close> is done, dead-lettered, or still to be delivered.\<close>

definition kept :: "environ \<Rightarrow> pystr \<Rightarrow> ledger \<times> world \<Rightarrow> bool" where
  "kept E k = (\<lambda>(b, w). carries E k (pending b) \<or> carries E k (dead b) \<or> select_key (table w) k)"

lemma carries_simps [simp]: "carries E k (A + B) \<longleftrightarrow> carries E k A \<or> carries E k B" "\<not> carries E k {#}"
    "carries E k (add_mset body B) \<longleftrightarrow> (\<exists>e. from_json_bytes E body = Inr e \<and> idempotencyKey e = k) \<or> carries E k B"
  by (auto simp: carries_def)

lemma carries_strike: "carries E k B \<Longrightarrow> \<not> carries E k (B - {#body#}) \<Longrightarrow> \<exists>e. from_json_bytes E body = Inr e \<and> idempotencyKey e = k"
proof (rule ccontr)
  assume c: "carries E k B" "\<not> carries E k (B - {#body#})" and n: "\<nexists>e. from_json_bytes E body = Inr e \<and> idempotencyKey e = k"
  from c(1) obtain x e where x: "x \<in># B" "from_json_bytes E x = Inr e" "idempotencyKey e = k" by (auto simp: carries_def)
  with n have "x \<noteq> body" by auto
  with x(1) have "x \<in># B - {#body#}" by (auto simp: in_diff_count)
  with x c(2) show False by (auto simp: carries_def)
qed

lemma book_simps [simp]: "pending (book S ps b) = pending b + mset (map pub_body (filter (leads_to_main S) ps))"
    "dead (book S ps b) = dead b + mset (map pub_body (filter (goes_dead S) ps))"
    "pending (strike body b) = pending b - {#body#}" "dead (strike body b) = dead b"
  by (simp_all add: book_def strike_def)

lemma declared:
  "decl_queue (main_queue S) = queue_name S" "decl_queue (retry_queue S) = retry_queue_name S"
  "decl_queue (dead_letter_queue S) = dlq_name S"
  "map_of (arguments (retry_queue S)) (lit ''x-dead-letter-exchange'') = Some []"
  "map_of (arguments (retry_queue S)) (lit ''x-dead-letter-routing-key'') = Some (queue_name S)"
  by (simp_all add: main_queue_def retry_queue_def dead_letter_queue_def)

lemma routes [simp]:
  "leads_to_main S (event_publication E (queue_name S) e None hs)"
  "leads_to_main S (event_publication E (retry_queue_name S) e (Some t) hs)"
  "goes_dead S (event_publication E (dlq_name S) e x hs)"
  "goes_dead S (raw_publication S body props reason)"
  "pub_body (event_publication E q e x hs) = to_json_bytes E e"
  by (simp_all add: leads_to_main_def goes_dead_def event_publication_def raw_publication_def declared)

lemma with_retry_key: "with_retry e a m err = Inr e' \<Longrightarrow> idempotencyKey e' = idempotencyKey e"
  by (auto simp: with_retry_def bind_sum_Inr)

lemma select_key_insert: "select_key (insert_or_ignore t k v) k"
  by (simp add: select_key_iff insert_or_ignore_def)

lemma select_grows: "table_grows w w' \<Longrightarrow> select_key (table w) k \<Longrightarrow> select_key (table w') k"
  by (auto simp: table_grows_def select_key_iff)

text \<open>A verdict on an event: its key is handed on, dead-lettered or in the table afterwards.\<close>

lemma verdict_keeps:
  assumes "json_laws E" and "from_json_bytes E body = Inr e"
    and "justified E S w body h v" and "carried_out E S ch props body v w h w'"
  shows "kept E (idempotencyKey e) (book S (publications ch h) b, w')"
proof -
  have ps: "publications ch h = verdict_publications E S props body v" and m: "marks v (table w) (table w')"
    using assms(4) by (simp_all add: carried_out_def)
  have valid: "valid_event E e" using assms(2) by (rule from_json_bytes_valid)
  have readback: "from_json_bytes E (to_json_bytes E e') = Inr e'" if "with_retry e a n err = Inr e'" for a n err e'
    using from_to_json_bytes [OF assms(1)] with_retry_valid [OF that valid] by blast
  show ?thesis
  proof (cases v)
    case Malformed
    then show ?thesis using assms(2,3) by simp
  next
    case (Rejected e' reason)
    then have "e' = e \<or> (\<exists>a n err. with_retry e a n err = Inr e')"
      using assms(2,3) by (auto simp: admitted_def tried_def)
    then have "from_json_bytes E (to_json_bytes E e') = Inr e'" "idempotencyKey e' = idempotencyKey e"
      using readback from_to_json_bytes [OF assms(1) valid] with_retry_key by auto
    then show ?thesis using Rejected ps by (auto simp: kept_def)
  next
    case (Duplicate e')
    then show ?thesis using assms(2,3) m by (simp add: kept_def)
  next
    case (Processed e')
    then have "e' = e" using assms(2,3) by (auto simp: tried_def admitted_def)
    then show ?thesis using Processed m by (auto simp: kept_def select_key_insert)
  next
    case (Retried e' ms)
    then obtain a n err where w: "with_retry e a n err = Inr e'" using assms(2,3) by (auto simp: admitted_def tried_def)
    then show ?thesis using Retried ps readback [OF w] with_retry_key [OF w] by (auto simp: kept_def)
  qed
qed

lemma kept_book: "kept E k (b, w) \<Longrightarrow> kept E k (book S ps b, w)"
  by (auto simp: kept_def)

lemma handle_extends: "handle E (worker_consumer ch S) tag props body w = (r, w') \<Longrightarrow> history w' = history w @ new_actions w w'"
proof -
  assume r: "handle E (worker_consumer ch S) tag props body w = (r, w')"
  have "wf_consumer (worker_consumer ch S)" by (simp add: wf_consumer_def worker_consumer_def)
  from exits_handle [OF this, of E body tag props w] r obtain h where "history w' = history w @ h"
    by (cases r) (auto simp: exits_at_def worker_consumer_def)
  then show ?thesis using new_actions_append by metis
qed

lemma acked_iff_returned:
  assumes "handle E (worker_consumer ch S) tag props body w = (r, w')"
  shows "Acked ch tag \<in> set (new_actions w w') \<longleftrightarrow> (\<exists>y. r = Return y)"
proof -
  have "wf_consumer (worker_consumer ch S)" by (simp add: wf_consumer_def worker_consumer_def)
  from exits_handle [OF this, of E body tag props w] assms handle_extends [OF assms] show ?thesis
    by (cases r) (auto simp: exits_at_def worker_consumer_def no_ack_def)
qed

lemma delivery_keeps:
  assumes "json_laws E" and "delivery E S (b, w) (b', w')" and "kept E k (b, w)"
  shows "kept E k (b', w')"
proof -
  obtain body ch tag props r where 1: "body \<in># pending b" "b' = settle S ch tag body (new_actions w w') b"
    "handle E (worker_consumer ch S) tag props body w = (r, w')"
    using assms(2) by (elim deliveryE) blast
  have grows: "select_key (table w) k \<Longrightarrow> select_key (table w') k"
    using select_grows handle_table_grows [THEN keepsD, OF 1(3)] by blast
  show ?thesis
  proof (cases "Acked ch tag \<in> set (new_actions w w')")
    case False
    then show ?thesis using assms(3) grows 1(1,2) by (auto simp: settle_def kept_def)
  next
    case True
    then obtain y where "handle E (worker_consumer ch S) tag props body w = (Return y, w')"
      using 1(3) acked_iff_returned by blast
    then obtain v h where v: "justified E S w body h v" "carried_out E S ch props body v w h w'"
      using handle_verdict by blast
    then have h: "new_actions w w' = h" by (simp add: carried_out_def new_actions_append)
    show ?thesis
    proof (cases "\<exists>e. from_json_bytes E body = Inr e \<and> idempotencyKey e = k")
      case e: True
      then show ?thesis using verdict_keeps [OF assms(1) _ v, of _ "strike body b"] True h 1(1,2) by (auto simp: settle_def)
    next
      case False
      then have "carries E k (pending b) \<Longrightarrow> carries E k (pending (strike body b))"
        using carries_strike [of E k "pending b" body] by auto
      then have "kept E k (strike body b, w')" using assms(3) grows by (auto simp: kept_def)
      then show ?thesis using kept_book True 1(2) by (simp add: settle_def)
    qed
  qed
qed

lemma crash_keeps:
  assumes "crash E S (b, w) (b', v)" and "kept E key (b, w)"
  shows "kept E key (b', v)"
proof -
  obtain body ch tag props r w' h where 1: "handle E (worker_consumer ch S) tag props body w = (r, w')"
    "b' = book S (publications ch h) b" "table v = table w' \<or> table v = table w"
    using assms(1) by (elim crashE) (auto split: if_splits)
  have "select_key (table w) key \<Longrightarrow> select_key (table v) key"
    using select_grows handle_table_grows [THEN keepsD, OF 1(1)] 1(3) by metis
  then have "kept E key (b, v)" using assms(2) by (auto simp: kept_def)
  then show ?thesis using 1(2) kept_book by simp
qed

lemma pipeline_keeps:
  assumes "pipeline_run E S n c s s'" and "json_laws E" and "kept E k s"
  shows "kept E k s'"
  using assms(1,3)
proof (induction rule: pipeline_run.induct)
  case (delivered n c s t u)
  then show ?case using delivery_keeps [OF assms(2)] by (cases t, cases u) blast
next
  case (crashed n c s t u)
  then show ?case using crash_keeps by (cases t, cases u) blast
qed (auto simp: kept_def)

text \<open>Messages the watcher sent are kept from the start.\<close>

definition no_messages :: ledger where
  "no_messages = \<lparr>pending = {#}, dead = {#}\<rparr>"

text \<open>What a run of the watcher from \<open>w\<close> to \<open>w'\<close> hands to the broker; its channel is the first one it opens.\<close>

definition given_ledger :: "settings \<Rightarrow> world \<Rightarrow> world \<Rightarrow> ledger" where
  "given_ledger S w w' = book S (publications (length (history w)) (new_actions w w')) no_messages"

definition sent :: "environ \<Rightarrow> settings \<Rightarrow> transfer_event list \<Rightarrow> ledger" where
  "sent E S es = book S (map (event_message E S) es) no_messages"

lemma pending_sent: "pending (sent E S es) = mset (map (to_json_bytes E) es)"
proof -
  have "leads_to_main S (event_message E S e)" "pub_body (event_message E S e) = to_json_bytes E e" for e
    by (simp_all add: event_message_def)
  then show ?thesis by (simp add: sent_def no_messages_def filter_True comp_def)
qed

lemma sent_kept:
  assumes "json_laws E" and "e \<in> set es" and "valid_event E e"
  shows "kept E (idempotencyKey e) (sent E S es, w)"
  using assms from_to_json_bytes [OF assms(1,3)] by (auto simp: kept_def carries_def pending_sent)

text \<open>
  The outside of the watcher and that of the consumer may differ in every answer of broker, files, clouds and
  database; what they share is the JSON and date library, which is one installed package.
\<close>

definition same_codec :: "environ \<Rightarrow> environ \<Rightarrow> bool" where
  "same_codec W E \<longleftrightarrow> json_loads E = json_loads W \<and> json_dumps E = json_dumps W \<and> lax_int E = lax_int W
     \<and> fromisoformat_ok E = fromisoformat_ok W"

lemma same_codec_written:
  assumes "same_codec W E"
  shows "to_json_bytes E = to_json_bytes W" "json_laws E = json_laws W" "sent E S es = sent W S es"
proof -
  show *: "to_json_bytes E = to_json_bytes W" using assms by (simp add: fun_eq_iff to_json_bytes_def same_codec_def)
  show "json_laws E = json_laws W" using assms by (simp add: json_laws_def same_codec_def)
  show "sent E S es = sent W S es"
    unfolding sent_def by (simp add: fun_eq_iff event_message_def event_publication_def * cong: map_cong)
qed

lemma same_codec_valid: "same_codec W E \<Longrightarrow> valid_event E e = valid_event W e"
  by (simp add: valid_event_def occurred_at_ok_def same_codec_def)

text \<open>What the watcher wrote stays kept, whatever the outside answers the consumer.\<close>

lemma sent_kept_elsewhere:
  assumes "json_laws W" and "same_codec W E" and "e \<in> set es" and "valid_event W e"
    and "pipeline_run E S n k (sent W S es, v) s"
  shows "kept E (idempotencyKey e) s"
proof (rule pipeline_keeps [OF assms(5)])
  show laws: "json_laws E" using assms(1,2) by (simp add: same_codec_written)
  show "kept E (idempotencyKey e) (sent W S es, v)"
    using sent_kept [OF laws assms(3), of S v] assms(2,4) by (simp add: same_codec_valid same_codec_written)
qed

section \<open>The load\<close>

text \<open>How often a message may still be delivered: once, and once more for every attempt that is left.\<close>

definition load_of :: "environ \<Rightarrow> settings \<Rightarrow> bytes \<Rightarrow> nat" where
  "load_of E S body = (case from_json_bytes E body of Inl _ \<Rightarrow> 1
     | Inr e \<Rightarrow> 1 + nat (retry_max_attempts S + 1 - next_attempt e))"

definition load :: "environ \<Rightarrow> settings \<Rightarrow> bytes multiset \<Rightarrow> nat" where
  "load E S B = (\<Sum>body \<in># B. load_of E S body)"

definition short_versions :: "environ \<Rightarrow> bytes multiset \<Rightarrow> bool" where
  "short_versions E B \<longleftrightarrow> (\<forall>body \<in># B. \<forall>e a b. from_json_bytes E body = Inr e \<longrightarrow>
     version_groups (schemaVersion e) = Some (a, b) \<longrightarrow> length a \<le> 4300)"

lemma load_simps [simp]: "load E S {#} = 0" "load E S (A + B) = load E S A + load E S B"
    "load E S (add_mset body B) = load_of E S body + load E S B"
  by (simp_all add: load_def)

lemma load_of_pos: "1 \<le> load_of E S body"
  by (simp add: load_of_def split: sum.split)

lemma size_le_load: "size B \<le> load E S B"
proof (induction B)
  case (add body B)
  then show ?case using load_of_pos [of E S body] by simp
qed simp

text \<open>What a verdict sends back to the main queue: nothing, or the event with one attempt less.\<close>

lemma returned_messages:
  assumes "json_laws E" and "dlq_name S \<noteq> queue_name S"
    and "justified E S w body h v" and "carried_out E S ch props body v w h w'"
  defines "ps \<equiv> mset (map pub_body (filter (leads_to_main S) (publications ch h)))"
  shows "ps = {#} \<or> (\<exists>e e' n m err. from_json_bytes E body = Inr e \<and> with_retry e n m err = Inr e' \<and> ps = {#to_json_bytes E e'#}
    \<and> from_json_bytes E (to_json_bytes E e') = Inr e' \<and> load_of E S (to_json_bytes E e') < load_of E S body
    \<and> load_of E S (to_json_bytes E e') \<le> nat (retry_max_attempts S))"
proof -
  have pubs: "publications ch h = verdict_publications E S props body v" using assms(4) by (simp add: carried_out_def)
  have dl: "\<not> leads_to_main S (event_publication E (dlq_name S) e None hs)"
      "\<not> leads_to_main S (raw_publication S body props reason)" for e hs reason
    using assms(2) by (simp_all add: leads_to_main_def event_publication_def raw_publication_def declared)
  show ?thesis
  proof (cases v)
    case (Retried e' ms)
    then obtain e err where e: "from_json_bytes E body = Inr e" "next_attempt e \<le> retry_max_attempts S"
      "with_retry e (next_attempt e) (retry_max_attempts S) err = Inr e'"
      using assms(3) by (auto simp: tried_def admitted_def)
    have "valid_event E e'" using with_retry_valid [OF e(3) from_json_bytes_valid [OF e(1)]] .
    then have back': "from_json_bytes E (to_json_bytes E e') = Inr e'" by (rule from_to_json_bytes [OF assms(1)])
    have "next_attempt e' = next_attempt e + 1" and "1 \<le> next_attempt e"
      using e(3) from_json_bytes_valid [OF e(1)]
      by (auto simp: with_retry_def bind_sum_Inr mk_retry_info_def next_attempt_def Let_def valid_event_def valid_retry_def
        split: if_splits option.splits)
    then have "load_of E S (to_json_bytes E e') < load_of E S body" "load_of E S (to_json_bytes E e') \<le> nat (retry_max_attempts S)"
      using e(1,2) back' by (auto simp: load_of_def)
    then show ?thesis using Retried pubs e back' by (auto simp: ps_def)
  qed (simp_all add: ps_def pubs dl)
qed

lemma subset_single: "A \<subseteq># {#x#} \<Longrightarrow> A = {#} \<or> A = {#x#}"
proof (cases A)
  case (add a B)
  assume s: "A \<subseteq># {#x#}"
  then have "B = {#}" using size_mset_mono [OF s] add by simp
  then show ?thesis using s add by simp
qed simp

text \<open>The same for a handler that answers, whether it comes to its end or not.\<close>

lemma handler_returns_messages:
  assumes c: "calm E" and r: "readable E" and u: "usable E S" and j: "json_laws E" and q: "dlq_name S \<noteq> queue_name S"
    and sh: "short_versions E B" and body: "body \<in># B" and m: "handle E (worker_consumer ch S) tag props body w = (x, w')"
    and h: "new_actions w w' = h @ rest"
  defines "ps \<equiv> mset (map pub_body (filter (leads_to_main S) (publications ch h)))"
  shows "x = Return () \<and> short_versions E ps \<and> load E S ps < load_of E S body \<and> load E S ps \<le> nat (retry_max_attempts S)"
proof -
  have "total (handle E (worker_consumer ch S) tag props body)"
    using sh body by (intro handle_returns [OF c r u]) (auto simp: short_versions_def)
  then have y: "x = Return ()" using m by (auto simp: total_def split: outcome.splits dest: spec [of _ w])
  obtain v g where v: "justified E S w body g v" "carried_out E S ch props body v w g w'"
    using handle_verdict m y by blast
  then have g: "g = h @ rest" using h by (simp add: carried_out_def new_actions_append)
  define qs where "qs = mset (map pub_body (filter (leads_to_main S) (publications ch g)))"
  have "ps \<subseteq># qs" by (simp add: ps_def qs_def g)
  moreover from returned_messages [OF j q v] have "qs = {#} \<or> (\<exists>e e' n m err. from_json_bytes E body = Inr e
    \<and> with_retry e n m err = Inr e' \<and> qs = {#to_json_bytes E e'#}
    \<and> from_json_bytes E (to_json_bytes E e') = Inr e' \<and> load_of E S (to_json_bytes E e') < load_of E S body
    \<and> load_of E S (to_json_bytes E e') \<le> nat (retry_max_attempts S))"
    by (simp only: qs_def)
  ultimately consider "ps = {#}" | (one) e e' n m err where "from_json_bytes E body = Inr e" "with_retry e n m err = Inr e'"
    "ps = {#to_json_bytes E e'#}" "from_json_bytes E (to_json_bytes E e') = Inr e'"
    "load_of E S (to_json_bytes E e') < load_of E S body" "load_of E S (to_json_bytes E e') \<le> nat (retry_max_attempts S)"
    using subset_single by fastforce
  then have "short_versions E ps \<and> load E S ps < load_of E S body \<and> load E S ps \<le> nat (retry_max_attempts S)"
  proof cases
    case one
    have "schemaVersion e' = schemaVersion e" using one(2) by (auto simp: with_retry_def bind_sum_Inr)
    then show ?thesis using sh body one by (auto simp: short_versions_def)
  qed (use load_of_pos [of E S body] in \<open>simp_all add: short_versions_def\<close>)
  then show ?thesis using y by simp
qed

lemma delivery_lowers:
  assumes c: "calm E" and r: "readable E" and u: "usable E S" and j: "json_laws E" and q: "dlq_name S \<noteq> queue_name S"
    and d: "delivery E S (b, w) (b', w')" and sh: "short_versions E (pending b)"
  shows "load E S (pending b') < load E S (pending b) \<and> short_versions E (pending b')"
proof -
  obtain body ch tag props x where 1: "body \<in># pending b" "b' = settle S ch tag body (new_actions w w') b"
    "handle E (worker_consumer ch S) tag props body w = (x, w')"
    using d by (elim deliveryE) blast
  note m = handler_returns_messages [OF c r u j q sh 1(1,3), of "new_actions w w'" "[]", simplified]
  have a: "Acked ch tag \<in> set (new_actions w w')" using acked_iff_returned [OF 1(3)] m by blast
  obtain B where B: "pending b = add_mset body B" using 1(1) by (metis insert_DiffM)
  show ?thesis using m sh unfolding 1(2) by (auto simp: settle_def a B short_versions_def)
qed

lemma crash_adds:
  assumes c: "calm E" and r: "readable E" and u: "usable E S" and j: "json_laws E" and q: "dlq_name S \<noteq> queue_name S"
    and d: "crash E S (b, w) (b', v)" and sh: "short_versions E (pending b)"
  shows "load E S (pending b') \<le> load E S (pending b) + nat (retry_max_attempts S) \<and> short_versions E (pending b')"
proof -
  obtain body ch tag props x w' h rest where 1: "body \<in># pending b" "b' = book S (publications ch h) b"
    "handle E (worker_consumer ch S) tag props body w = (x, w')" "new_actions w w' = h @ rest"
    using d by (elim crashE) blast
  show ?thesis using handler_returns_messages [OF c r u j q sh 1(1,3,4)] sh
    unfolding 1(2) by (auto simp: short_versions_def)
qed

lemma run_lowers:
  assumes "pipeline_run E S n k s s'" and c: "calm E" and r: "readable E" and u: "usable E S" and j: "json_laws E"
    and q: "dlq_name S \<noteq> queue_name S" and "short_versions E (pending (fst s))"
  shows "n + load E S (pending (fst s')) \<le> load E S (pending (fst s)) + k * nat (retry_max_attempts S)
    \<and> short_versions E (pending (fst s'))"
  using assms(1,7)
proof (induction rule: pipeline_run.induct)
  case (delivered n k s t t')
  obtain b w b' w' where t: "t = (b, w)" and t': "t' = (b', w')" by (cases t, cases t')
  then show ?case using delivery_lowers [OF c r u j q, of b w b' w'] delivered by fastforce
next
  case (crashed n k s t t')
  obtain b w b' w' where t: "t = (b, w)" and t': "t' = (b', w')" by (cases t, cases t')
  then show ?case using crash_adds [OF c r u j q, of b w b' w'] crashed by fastforce
qed simp_all

text \<open>A handler always gives a next state, so a run goes on until nothing is pending.\<close>

lemma run_completes:
  assumes "pipeline_run E S n k s t" and c: "calm E" and r: "readable E" and u: "usable E S" and j: "json_laws E"
    and q: "dlq_name S \<noteq> queue_name S" and "short_versions E (pending (fst t))"
  shows "\<exists>m t'. pipeline_run E S (n + m) k s t' \<and> pending (fst t') = {#}"
  using assms(1,7)
proof (induction "load E S (pending (fst t))" arbitrary: n t rule: less_induct)
  case less
  obtain b w where t: "t = (b, w)" by (cases t)
  show ?case
  proof (cases "pending b = {#}")
    case True
    then show ?thesis using less.prems(1) t by (intro exI [of _ 0] exI [of _ t]) simp
  next
    case False
    then obtain body where body: "body \<in># pending b" by blast
    obtain x w' where "handle E (worker_consumer 0 S) 0 \<lparr>content_type = None, persistent = True, message_id = None, prop_correlation_id = None,
      expiration = None, headers = None\<rparr> body w = (x, w')" by fastforce
    from delivery.intros [OF body this] obtain b' where d: "delivery E S (b, w) (b', w')" by blast
    have "load E S (pending b') < load E S (pending b)" "short_versions E (pending b')"
      using delivery_lowers [OF c r u j q d] less.prems(2) t by simp_all
    then obtain m t' where "pipeline_run E S (Suc n + m) k s t'" "pending (fst t') = {#}"
      using less.hyps [of "(b', w')" "Suc n"] pipeline_run.delivered [OF less.prems(1) [unfolded t] d] t by auto
    then show ?thesis by (intro exI [of _ "Suc m"] exI [of _ t']) simp
  qed
qed

section \<open>The events of the watcher\<close>

text \<open>Messages of new files: readable, of the supported version, not yet tried.\<close>

lemma file_event:
  assumes "event_of_file E S path e"
  shows "valid_event E e" "assert_supported e = Inr ()" "schemaVersion e = lit ''1.0''" "next_attempt e = 1" "event_path e = path"
  using assms by (auto simp: event_of_file_def describes_def event_for_def next_attempt_def event_path_def)

lemma load_sent:
  assumes "json_laws E" and "\<forall>e \<in> set es. \<exists>path. event_of_file E S path e"
  shows "load E S (pending (sent E S es)) = length es * Suc (nat (retry_max_attempts S))"
    "short_versions E (pending (sent E S es))"
proof -
  have e: "from_json_bytes E (to_json_bytes E e) = Inr e" "next_attempt e = 1" "schemaVersion e = lit ''1.0''" if "e \<in> set es" for e
    using assms(2) that from_to_json_bytes [OF assms(1)] file_event by blast+
  then have "load_of E S (to_json_bytes E e) = Suc (nat (retry_max_attempts S))" if "e \<in> set es" for e
    using that by (simp add: load_of_def)
  then show "load E S (pending (sent E S es)) = length es * Suc (nat (retry_max_attempts S))"
    unfolding pending_sent by (induction es) simp_all
  show "short_versions E (pending (sent E S es))"
    using e version_1_0 by (auto simp: short_versions_def pending_sent)
qed

section \<open>Clean files\<close>

definition clean_file :: "environ \<Rightarrow> settings \<Rightarrow> pystr \<Rightarrow> bool" where
  "clean_file E S path \<longleftrightarrow> (\<exists>n content. (\<forall>h. getsize_reply E h path = Inr n) \<and> int n \<le> max_csv_file_size_bytes S
     \<and> (\<forall>h. read_reply E h path = Inr content) \<and> scan_raw content = Inr [])
   \<and> (\<forall>h. isfile_reply E h path)"

text \<open>The database answers, acknowledgements arrive, uploads succeed.\<close>

definition smooth :: "environ \<Rightarrow> settings \<Rightarrow> bool" where
  "smooth E S \<longleftrightarrow> 0 < upload_max_concurrency S \<and> (\<forall>h st. sql_reply E h st = None) \<and> (\<forall>h ch tag. ack_reply E h ch tag = None)
     \<and> (\<forall>h c. upload_reply E h c = UploadReturned)"

lemma clean_handled:
  assumes sm: "smooth E S" and j: "json_laws E" and e: "event_of_file E S path e" and cl: "clean_file E S path"
    and m: "handle E (worker_consumer ch S) tag props (to_json_bytes E e) w = (r, w')"
  shows "r = Return () \<and> publications ch (new_actions w w') = []"
proof -
  note f = file_event [OF e]
  have body: "from_json_bytes E (to_json_bytes E e) = Inr e" by (rule from_to_json_bytes [OF j f(1)])
  show ?thesis
  proof (cases "select_key (table w) (idempotencyKey e)")
    case True
    then show ?thesis using m sm body f(2)
      by (auto simp: handle_def Let_def is_done_cases bind_io_def smooth_def worker_consumer_def basic_ack_def call_def
        inc_defs modify_io_def ret_io_def new_actions_def)
  next
    case False
    have adm: "admitted E w (to_json_bytes E e) e" using body f(2) False by (simp add: admitted_def)
    have there: "file_present E w e" using cl f(5) by (simp add: file_present_def clean_file_def)
    have "scan_outcome E S w e = Return []"
      using cl by (auto simp: clean_file_def scan_outcome_def scan_csv_file_def bind_io_def ask_def f(5) lift_sum_def ret_io_def)
    from good_delivery [OF adm there this, of ch tag props] sm obtain u h where
      "handle E (worker_consumer ch S) tag props (to_json_bytes E e) w = (Return (), u)" "history u = history w @ h" "publications ch h = []"
      unfolding smooth_def by blast
    then show ?thesis using m by (auto simp: new_actions_append)
  qed
qed

text \<open>Messages only of clean files, and none of them dead.\<close>

definition all_clean :: "environ \<Rightarrow> settings \<Rightarrow> ledger \<Rightarrow> bool" where
  "all_clean E S b \<longleftrightarrow> dead b = {#}
     \<and> (\<forall>body \<in># pending b. \<exists>e path. body = to_json_bytes E e \<and> event_of_file E S path e \<and> clean_file E S path)"

lemma clean_run:
  assumes "pipeline_run E S n k s t" and sm: "smooth E S" and j: "json_laws E" and "all_clean E S (fst s)"
  shows "all_clean E S (fst t) \<and> n + size (pending (fst t)) = size (pending (fst s))"
  using assms(1,4)
proof (induction rule: pipeline_run.induct)
  case (delivered n k s t u)
  obtain b w b' w' where t: "t = (b, w)" and u: "u = (b', w')" by (cases t, cases u)
  obtain body ch tag props r where 1: "body \<in># pending b" "b' = settle S ch tag body (new_actions w w') b"
    "handle E (worker_consumer ch S) tag props body w = (r, w')"
    using delivered(2) unfolding t u by (elim deliveryE) blast
  have b: "all_clean E S b" "n + size (pending b) = size (pending (fst s))" using delivered t by simp_all
  then obtain e path where "body = to_json_bytes E e" "event_of_file E S path e" "clean_file E S path"
    using 1(1) by (auto simp: all_clean_def)
  then have m: "r = Return ()" "publications ch (new_actions w w') = []" using clean_handled [OF sm j] 1(3) by blast+
  then have "b' = strike body b" using 1(2) acked_iff_returned [OF 1(3)] by (simp add: settle_def book_def)
  moreover have "all_clean E S (strike body b)" using b(1) by (auto simp: all_clean_def dest: in_diffD)
  moreover have "0 < size (pending b)" using 1(1) by (auto simp: nonempty_has_size [symmetric])
  ultimately show ?case using u b(2) 1(1) by (simp add: size_Diff_singleton)
next
  case (crashed n k s t u)
  obtain b w b' v where t: "t = (b, w)" and u: "u = (b', v)" by (cases t, cases u)
  obtain body ch tag props r w' h rest where 1: "body \<in># pending b" "b' = book S (publications ch h) b"
    "handle E (worker_consumer ch S) tag props body w = (r, w')" "new_actions w w' = h @ rest"
    using crashed(2) unfolding t u by (elim crashE) blast
  have b: "all_clean E S b" "n + size (pending b) = size (pending (fst s))" using crashed t by simp_all
  then obtain e path where "body = to_json_bytes E e" "event_of_file E S path e" "clean_file E S path"
    using 1(1) by (auto simp: all_clean_def)
  then have "publications ch h = []" using clean_handled [OF sm j] 1(3,4) by fastforce
  then have "b' = b" using 1(2) by (simp add: book_def)
  then show ?case using u b by simp
qed simp_all

end
