(* ===== verification/Pipeline_Properties.thy ===== *)
theory Pipeline_Properties
  imports Watcher_Properties Component_Properties Pipeline
begin

text \<open>
  What watcher, broker and consumer guarantee together, from the drop directory to the idempotency table or the
  dead-letter queue, each theorem applied to the sample environment.
\<close>

lemma sample_laws: "json_laws sample_env"
  unfolding sample_env_def by (rule sample_json_laws)

lemma run_sent:
  assumes "calm_broker E" and "sound_host E" and "settings_ok S"
    and "\<forall>path \<in> set (detected items). watchable E S path"
  obtains es w' where "run_watcher E S items w = (Return (), w')" "list_all2 (event_of_file E S) (detected items) es"
    "given_ledger S w w' = sent E S es"
    "\<forall>e \<in> set es. \<exists>path \<in> set (detected items). event_of_file E S path e" "length es = length (detected items)"
proof -
  obtain es w' where es: "run_watcher E S items w = (Return (), w')" "list_all2 (event_of_file E S) (detected items) es"
    "publications (length (history w)) (new_actions w w') = map (event_message E S) es"
    using run_publishes [OF assms, of w] by blast
  show ?thesis
    by (rule that [OF es(1,2)]) (use es(2,3) in \<open>auto simp: sent_def given_ledger_def list_all2_conv_all_nth in_set_conv_nth set_conv_nth\<close>)
qed

section \<open>No file is lost\<close>

text \<open>C1. No detected file is lost. While broker and file system answer the watcher \<open>W\<close>, it publishes an event per
  detected file; from then on, in any other outside world \<open>E\<close> with the same JSON library - whatever publication,
  acknowledgement, upload, database or file call fails, in whatever order the broker delivers, however often it delivers again, and
  wherever the worker crashes or is restarted - the key of every file is in the table, or an event with it is still kept by
  the broker, to be delivered or in the dead-letter queue.\<close>

theorem no_file_is_lost:
  assumes "json_laws W" and "calm_broker W" and "sound_host W" and "settings_ok S"
    and "\<forall>path \<in> set (detected items). watchable W S path" and "same_codec W E"
  shows "\<exists>es w'. run_watcher W S items w = (Return (), w') \<and> list_all2 (event_of_file W S) (detected items) es
    \<and> (\<forall>n k v s. pipeline_run E S n k (given_ledger S w w', v) s
        \<longrightarrow> list_all (\<lambda>e. kept E (idempotencyKey e) s) es)"
proof -
  obtain es w' where es: "run_watcher W S items w = (Return (), w')" "list_all2 (event_of_file W S) (detected items) es"
    "given_ledger S w w' = sent W S es"
    "\<forall>e \<in> set es. \<exists>path \<in> set (detected items). event_of_file W S path e"
    using run_sent [OF assms(2-5), of w] by metis
  have "list_all (\<lambda>e. kept E (idempotencyKey e) s) es" if "pipeline_run E S n k (sent W S es, v) s" for n k v s
    using sent_kept_elsewhere [OF assms(1,6) _ _ that] es(4) file_event(1) by (fastforce simp: list_all_iff)
  then show ?thesis using es(1-3) by auto
qed

text \<open>The consumer's broker refuses every publication and every acknowledgement, and no upload succeeds.\<close>

definition hostile_env :: environ where
  "hostile_env = sample_env\<lparr>publish_reply := \<lambda>_ _ _. Some nack_error, ack_reply := \<lambda>_ _ _. Some nack_error,
     upload_reply := \<lambda>_ _. UploadRaised nack_error\<rparr>"

lemma hostile_codec: "same_codec sample_env hostile_env"
  by (simp add: same_codec_def hostile_env_def)

theorem no_file_is_lost_witness:
  "\<exists>es w'. run_watcher sample_env default_settings [Detected sample_path, QueueTimeout] sample_world = (Return (), w')
    \<and> list_all2 (event_of_file sample_env default_settings) [sample_path] es
    \<and> (\<forall>n k v s. pipeline_run hostile_env default_settings n k
          (given_ledger default_settings sample_world w', v) s
        \<longrightarrow> list_all (\<lambda>e. kept hostile_env (idempotencyKey e) s) es)"
  using no_file_is_lost [OF sample_laws sample_calm_broker sample_sound_host sample_settings_ok _ hostile_codec,
      of "[Detected sample_path, QueueTimeout]" sample_world]
  by (simp add: sample_watchable)

section \<open>The queues drain\<close>

text \<open>C2. With usable settings and an answering outside world the queues drain: every file is delivered at most once
  and once more per retry, every crash adds at most as many deliveries as there are retries, every run can be continued
  until no message is pending, and then each key is in the table or in the dead-letter queue.\<close>

theorem pipeline_drains:
  assumes "json_laws E" and "calm_broker E" and "sound_host E" and "settings_ok S"
    and "\<forall>path \<in> set (detected items). watchable E S path"
    and "calm E" and "readable E" and "usable E S" and "dlq_name S \<noteq> queue_name S"
  shows "\<exists>es w'. run_watcher E S items w = (Return (), w') \<and> list_all2 (event_of_file E S) (detected items) es
    \<and> (\<forall>n k v s. pipeline_run E S n k (given_ledger S w w', v) s
        \<longrightarrow> int n \<le> int (length (detected items)) * (1 + retry_max_attempts S) + int k * retry_max_attempts S
          \<and> (\<exists>m b u. pipeline_run E S (n + m) k (given_ledger S w w', v) (b, u)
              \<and> pending b = {#} \<and> list_all (\<lambda>e. select_key (table u) (idempotencyKey e) \<or> carries E (idempotencyKey e) (dead b)) es))"
proof -
  obtain es w' where es: "run_watcher E S items w = (Return (), w')" "list_all2 (event_of_file E S) (detected items) es"
    "given_ledger S w w' = sent E S es"
    "\<forall>e \<in> set es. \<exists>path \<in> set (detected items). event_of_file E S path e" "length es = length (detected items)"
    using run_sent [OF assms(2-5), of w] by metis
  have max: "0 \<le> retry_max_attempts S" using assms(8) by (simp add: usable_def)
  note rules = assms(6-8,1,9)
  have "int n \<le> int (length (detected items)) * (1 + retry_max_attempts S) + int k * retry_max_attempts S
      \<and> (\<exists>m b u. pipeline_run E S (n + m) k (sent E S es, v) (b, u)
          \<and> pending b = {#} \<and> list_all (\<lambda>e. select_key (table u) (idempotencyKey e) \<or> carries E (idempotencyKey e) (dead b)) es)"
    if run: "pipeline_run E S n k (sent E S es, v) s" for n k v s
  proof (rule conjI)
    have load: "load E S (pending (sent E S es)) = length es * Suc (nat (retry_max_attempts S))"
      "short_versions E (pending (sent E S es))"
      using load_sent [OF assms(1)] es(4) by blast+
    then have low: "n \<le> length es * Suc (nat (retry_max_attempts S)) + k * nat (retry_max_attempts S)"
        "short_versions E (pending (fst s))"
      using run_lowers [OF run rules] by auto
    have "int (length es * Suc (nat (retry_max_attempts S)) + k * nat (retry_max_attempts S))
        = int (length es) * (1 + retry_max_attempts S) + int k * retry_max_attempts S"
      using max by (simp add: algebra_simps)
    then show "int n \<le> int (length (detected items)) * (1 + retry_max_attempts S) + int k * retry_max_attempts S"
      using low(1) es(5) by (metis of_nat_le_iff)
    obtain m t where t: "pipeline_run E S (n + m) k (sent E S es, v) t" "pending (fst t) = {#}"
      using run_completes [OF run rules low(2)] by blast
    have "list_all (\<lambda>e. kept E (idempotencyKey e) t) es"
      using pipeline_keeps [OF t(1) assms(1)] sent_kept [OF assms(1)] es(4) file_event(1) by (fastforce simp: list_all_iff)
    with t show "\<exists>m b u. pipeline_run E S (n + m) k (sent E S es, v) (b, u) \<and> pending b = {#}
        \<and> list_all (\<lambda>e. select_key (table u) (idempotencyKey e) \<or> carries E (idempotencyKey e) (dead b)) es"
      by (intro exI [of _ m] exI [of _ "fst t"] exI [of _ "snd t"]) (auto simp: kept_def list_all_iff case_prod_unfold)
  qed
  then show ?thesis using es(1-3) by auto
qed

lemma failing_calm_broker: "calm_broker failing_env"
  by (simp add: calm_broker_def failing_env_def sample_env_of_def)

lemma failing_sound_host: "sound_host failing_env"
  using sample_sound_host by (simp add: sound_host_def failing_env_def sample_env_def sample_env_of_def)

lemma failing_watchable: "watchable failing_env default_settings sample_path"
  using sample_watchable by (simp add: watchable_def file_facts_def failing_env_def sample_env_def sample_env_of_def)

text \<open>Every upload fails: the file ends in the dead-letter queue after at most six deliveries.\<close>

theorem pipeline_drains_witness:
  "\<exists>es w'. run_watcher failing_env default_settings [Detected sample_path] sample_world = (Return (), w')
    \<and> list_all2 (event_of_file failing_env default_settings) [sample_path] es
    \<and> (\<forall>n k v s. pipeline_run failing_env default_settings n k
          (given_ledger default_settings sample_world w', v) s
        \<longrightarrow> int n \<le> 6 + int k * 5
          \<and> (\<exists>m b u. pipeline_run failing_env default_settings (n + m) k
                (given_ledger default_settings sample_world w', v) (b, u)
              \<and> pending b = {#}
              \<and> list_all (\<lambda>e. select_key (table u) (idempotencyKey e) \<or> carries failing_env (idempotencyKey e) (dead b)) es))"
proof -
  have max: "retry_max_attempts default_settings = 5" and w: "length (history sample_world) = 0"
    by (simp_all add: default_settings_def sample_world_def)
  have "calm failing_env" "readable failing_env" "usable failing_env default_settings"
      "dlq_name default_settings \<noteq> queue_name default_settings"
    unfolding failing_env_def
    by (rule sample_calm, simp, rule sample_readable, rule sample_usable) (simp add: default_settings_def)
  from pipeline_drains [OF failing_laws(1) failing_calm_broker failing_sound_host sample_settings_ok _ this,
      of "[Detected sample_path]" sample_world]
  show ?thesis by (simp add: failing_watchable max w)
qed

section \<open>Clean files\<close>

text \<open>C10. Clean files are all processed: when the database, the acknowledgements and the uploads work, a run makes no
  more deliveries than there were files, dead-letters nothing whatever crashes it has, and after as many deliveries as
  files nothing is pending and every key is in the table.\<close>

theorem clean_files_are_all_processed:
  assumes "json_laws E" and "calm_broker E" and "sound_host E" and "settings_ok S"
    and "\<forall>path \<in> set (detected items). watchable E S path \<and> clean_file E S path" and "smooth E S" and "dlq_name S \<noteq> queue_name S"
  shows "\<exists>es w'. run_watcher E S items w = (Return (), w') \<and> list_all2 (event_of_file E S) (detected items) es
    \<and> (\<forall>n k v b u. pipeline_run E S n k (given_ledger S w w', v) (b, u)
        \<longrightarrow> n + size (pending b) = length (detected items) \<and> dead b = {#}
          \<and> (n = length (detected items) \<longrightarrow> list_all (\<lambda>e. select_key (table u) (idempotencyKey e)) es))"
proof -
  obtain es w' where es: "run_watcher E S items w = (Return (), w')" "list_all2 (event_of_file E S) (detected items) es"
    "given_ledger S w w' = sent E S es"
    "\<forall>e \<in> set es. \<exists>path \<in> set (detected items). event_of_file E S path e" "length es = length (detected items)"
    using run_sent [OF assms(2-4), of items w] assms(5) by metis
  have q: "all_clean E S (sent E S es)"
  proof -
    have "dead (sent E S es) = {#}" using assms(7) by (simp add: sent_def no_messages_def event_message_def goes_dead_def event_publication_def declared)
    moreover have "\<exists>path. event_of_file E S path e \<and> clean_file E S path" if "e \<in> set es" for e
      using es(4) assms(5) that by blast
    ultimately show ?thesis by (auto simp: all_clean_def pending_sent)
  qed
  have "n + size (pending b) = length (detected items) \<and> dead b = {#}
      \<and> (n = length (detected items) \<longrightarrow> list_all (\<lambda>e. select_key (table u) (idempotencyKey e)) es)"
    if run: "pipeline_run E S n k (sent E S es, v) (b, u)" for n k v b u
  proof -
    have c: "all_clean E S b" "n + size (pending b) = length (detected items)"
      using clean_run [OF run assms(6,1)] q es(5) by (simp_all add: pending_sent)
    have "list_all (\<lambda>e. kept E (idempotencyKey e) (b, u)) es"
      using pipeline_keeps [OF run assms(1)] sent_kept [OF assms(1)] es(4) file_event(1) by (fastforce simp: list_all_iff)
    then show ?thesis using c by (auto simp: kept_def all_clean_def list_all_iff)
  qed
  then show ?thesis using es(1-3) by auto
qed

lemma sample_clean: "clean_file sample_env default_settings sample_path"
  using sample_scan by (simp add: clean_file_def sample_env_def default_settings_def)

theorem clean_files_are_all_processed_witness:
  "\<exists>es w'. run_watcher sample_env default_settings [Detected sample_path, Detected sample_path] sample_world = (Return (), w')
    \<and> list_all2 (event_of_file sample_env default_settings) [sample_path, sample_path] es
    \<and> (\<forall>n k v b u. pipeline_run sample_env default_settings n k (given_ledger default_settings sample_world w', v) (b, u)
        \<longrightarrow> n + size (pending b) = 2 \<and> dead b = {#}
          \<and> (n = 2 \<longrightarrow> list_all (\<lambda>e. select_key (table u) (idempotencyKey e)) es))"
proof -
  have "smooth sample_env default_settings" "dlq_name default_settings \<noteq> queue_name default_settings"
    by (simp_all add: smooth_def sample_env_def default_settings_def)
  from clean_files_are_all_processed [OF sample_laws sample_calm_broker sample_sound_host sample_settings_ok _ this,
      of "[Detected sample_path, Detected sample_path]" sample_world]
  show ?thesis by (simp add: sample_watchable sample_clean numeral_2_eq_2)
qed

section \<open>Against the published schema\<close>

text \<open>C32. No message of this program meets the published schema: for every file of the watcher its event, and every retry
  or dead letter made of it, is valid for the consumer, but \<open>model_dump_json\<close> writes absent members as null, and the
  schema wants a missing region or retry block to be absent.\<close>

theorem published_events_miss_the_schema:
  assumes "json_laws E" and "event_of_file E S path e"
  shows "from_json_bytes E (to_json_bytes E e) = Inr e \<and> \<not> meets_schema E (to_json_bytes E e)
    \<and> (\<forall>a m err e'. with_retry e a m err = Inr e' \<longrightarrow> valid_event E e' \<longrightarrow> \<not> meets_schema E (to_json_bytes E e'))
    \<and> accepts event_schema (without_nulls (json_of_event e))"
proof -
  obtain n content rel key i c now where e: "valid_event E e" "e = event_for S path n (hex_of (sha256 content)) rel key i c now"
    "compute_idempotency_key (correlation_secret S) path (int n) (hex_of (sha256 content)) = Inr key"
    using assms(2) by (auto simp: event_of_file_def describes_def)
  have nulls: "\<not> no_nulls e'" if "destinations e' = destinations e" for e'
    using that by (simp add: e(2) event_for_def no_nulls_def)
  have miss: "\<not> meets_schema E (to_json_bytes E e')" if "valid_event E e'" "destinations e' = destinations e" for e'
    using accepts_written [OF that(1)] nulls [OF that(2)] written_document [OF assms(1) that(1)] by (simp add: meets_schema_def)
  have "plain_text (hex_of (sha256 x))" for x
    using hex_of_lower hex_plain by blast
  moreover have "plain_text key"
  proof -
    obtain h t where h: "key = lit ''sha256:'' @ h @ t" "length h = 64" "list_all is_hex_lower h"
      using idempotency_key_shape(1) [OF e(3)] unfolding idempotency_re_iff sha256_re_iff by blast
    then have "t = []" using idempotency_key_shape(2) [OF e(3)] by simp
    then show ?thesis using h hex_plain by (simp add: lit_def)
  qed
  moreover have "plain_text (lit ''1.0'')" by (simp add: lit_def)
  ultimately have "plain_shapes e" by (simp add: e(2) event_for_def plain_shapes_def)
  then show ?thesis
    using miss [OF e(1)] miss from_to_json_bytes [OF assms(1) e(1)] accepts_pruned [OF e(1)]
    by (auto simp: with_retry_def bind_sum_Inr)
qed

lemma sample_file_event: "\<exists>e. event_of_file sample_env default_settings sample_path e"
proof -
  obtain e where "describes default_settings sample_path 12 sample_csv (join_str [47] [lit ''orders.csv'']) e"
    "valid_event sample_env e" "assert_supported e = Inr ()"
    using build_event_runs [OF sample_sound_host sample_file_facts sample_settings_ok sample_located, of sample_world] by blast
  then show ?thesis using sample_located sample_file_facts unfolding event_of_file_def by blast
qed

theorem published_events_miss_the_schema_witness:
  "\<exists>e. event_of_file sample_env default_settings sample_path e \<and> from_json_bytes sample_env (to_json_bytes sample_env e) = Inr e
    \<and> \<not> meets_schema sample_env (to_json_bytes sample_env e)"
  using sample_file_event published_events_miss_the_schema [OF sample_laws] by blast

end
