(* ===== verification/Contract_Spec.thy ===== *)
theory Contract_Spec
  imports Pipeline
begin

text \<open>
  The contract of \<open>docs/event-contract.md\<close> as a machine of its own, without messages, files and clouds: tickets
  (a key and its next attempt) wait, fail for good or lead to a finished key. \<open>simulation\<close> is the interface between a
  system and its specification; \<open>contract_setup\<close> shows that the pipeline of worker and broker implements the contract,
  so that the laws proved of the contract hold of every run of the code, crashes included.
\<close>

section \<open>The contract\<close>

datatype ticket = Unreadable | Ticket pystr int

record contract =
  todo :: "ticket multiset"
  failed :: "ticket multiset"
  finished :: "pystr set"

text \<open>What one delivery may do: give the ticket up, put it back for the next attempt, finish its key.\<close>

inductive effect :: "int \<Rightarrow> ticket \<Rightarrow> contract \<Rightarrow> contract \<Rightarrow> bool" for R where
  given_up: "effect R t s (s\<lparr>failed := add_mset t (failed s)\<rparr>)"
| put_back: "n \<le> R \<Longrightarrow> effect R (Ticket k n) s (s\<lparr>todo := add_mset (Ticket k (n + 1)) (todo s)\<rparr>)"
| completed: "effect R (Ticket k n) s (s\<lparr>finished := insert k (finished s)\<rparr>)"

definition drop_ticket :: "ticket \<Rightarrow> contract \<Rightarrow> contract" where
  "drop_ticket t s = s\<lparr>todo := todo s - {#t#}\<rparr>"

text \<open>A delivery that was acknowledged, one that was not, and one of a finished key.\<close>

inductive contract_step :: "int \<Rightarrow> contract \<Rightarrow> contract \<Rightarrow> bool" for R where
  taken: "t \<in># todo s \<Longrightarrow> effect R t s s' \<Longrightarrow> contract_step R s (drop_ticket t s')"
| left_over: "t \<in># todo s \<Longrightarrow> effect R t s s' \<Longrightarrow> contract_step R s s'"
| skipped: "Ticket k n \<in># todo s \<Longrightarrow> k \<in> finished s \<Longrightarrow> contract_step R s (drop_ticket (Ticket k n) s)"

declare effect.intros [intro]

section \<open>Laws of the contract\<close>

definition ticket_keys :: "ticket multiset \<Rightarrow> pystr set" where
  "ticket_keys T = {k. \<exists>n. Ticket k n \<in># T}"

definition known_keys :: "contract \<Rightarrow> pystr set" where
  "known_keys s = ticket_keys (todo s) \<union> ticket_keys (failed s) \<union> finished s"

definition attempts_within :: "int \<Rightarrow> contract \<Rightarrow> bool" where
  "attempts_within R s \<longleftrightarrow> (\<forall>k n. Ticket k n \<in># todo s + failed s \<longrightarrow> n \<le> R + 1)"

lemma ticket_keys_simps [simp]: "ticket_keys {#} = {}" "ticket_keys (add_mset Unreadable T) = ticket_keys T"
    "ticket_keys (add_mset (Ticket k n) T) = insert k (ticket_keys T)"
  by (auto simp: ticket_keys_def)

lemma known_keys_put: "known_keys (s\<lparr>todo := add_mset t (todo s)\<rparr>) = ticket_keys {#t#} \<union> known_keys s"
    "known_keys (s\<lparr>failed := add_mset t (failed s)\<rparr>) = ticket_keys {#t#} \<union> known_keys s"
    "known_keys (s\<lparr>finished := insert k (finished s)\<rparr>) = insert k (known_keys s)"
  by (cases t; auto simp: known_keys_def)+

lemma waiting_known: "Ticket k n \<in># todo s \<Longrightarrow> k \<in> known_keys s"
  by (auto simp: known_keys_def ticket_keys_def)

lemma effect_keys: "effect R t s s' \<Longrightarrow> t \<in># todo s \<Longrightarrow> known_keys s' = known_keys s"
proof (induction rule: effect.induct)
  case (given_up t s)
  then show ?case by (cases t) (auto simp: known_keys_put waiting_known)
qed (auto simp: known_keys_put waiting_known)

text \<open>A ticket may be dropped when its key stays known.\<close>

lemma drop_keys:
  assumes "t \<in># todo s" and "ticket_keys {#t#} \<subseteq> known_keys (drop_ticket t s)"
  shows "known_keys (drop_ticket t s) = known_keys s"
proof -
  have "s = (drop_ticket t s)\<lparr>todo := add_mset t (todo (drop_ticket t s))\<rparr>"
    using assms(1) by (cases s) (simp add: drop_ticket_def)
  then have "known_keys s = ticket_keys {#t#} \<union> known_keys (drop_ticket t s)" using known_keys_put(1) by metis
  then show ?thesis using assms(2) by auto
qed

lemma effect_keeps_known: "effect R t s s' \<Longrightarrow> t \<in># todo s \<Longrightarrow> t \<in># todo s' \<and> ticket_keys {#t#} \<subseteq> known_keys (drop_ticket t s')"
  by (induction rule: effect.induct)
    (auto simp: known_keys_def drop_ticket_def ticket_keys_def split: if_splits)

lemma step_keys: "contract_step R s s' \<Longrightarrow> known_keys s' = known_keys s"
proof (induction rule: contract_step.induct)
  case (taken t s s')
  then show ?case using drop_keys effect_keeps_known effect_keys by metis
next
  case (left_over t s s')
  then show ?case using effect_keys by blast
next
  case (skipped k n s)
  then show ?case by (intro drop_keys) (auto simp: known_keys_def drop_ticket_def)
qed

lemma effect_within: "effect R t s s' \<Longrightarrow> t \<in># todo s \<Longrightarrow> attempts_within R s \<Longrightarrow> attempts_within R s'"
  by (induction rule: effect.induct) (auto simp: attempts_within_def)

lemma drop_within: "attempts_within R s \<Longrightarrow> attempts_within R (drop_ticket t s)"
  by (auto simp: attempts_within_def drop_ticket_def dest: in_diffD)

lemma step_within: "contract_step R s s' \<Longrightarrow> attempts_within R s \<Longrightarrow> attempts_within R s'"
  by (induction rule: contract_step.induct) (auto intro: effect_within drop_within)

lemma effect_keeps: "effect R t s s' \<Longrightarrow> finished s \<subseteq> finished s' \<and> failed s \<subseteq># failed s'"
  by (induction rule: effect.induct) (auto simp: subseteq_mset_def)

lemma step_keeps: "contract_step R s s' \<Longrightarrow> finished s \<subseteq> finished s' \<and> failed s \<subseteq># failed s'"
  by (induction rule: contract_step.induct) (auto simp: drop_ticket_def dest: effect_keeps)

section \<open>Systems that implement a specification\<close>

locale simulation =
  fixes step :: "'s \<Rightarrow> 's \<Rightarrow> bool" and spec :: "'a \<Rightarrow> 'a \<Rightarrow> bool" and view :: "'s \<Rightarrow> 'a"
  assumes simulates: "step s t \<Longrightarrow> spec\<^sup>*\<^sup>* (view s) (view t)"
begin

lemma runs: "step\<^sup>*\<^sup>* s t \<Longrightarrow> spec\<^sup>*\<^sup>* (view s) (view t)"
  by (induction rule: rtranclp_induct) (auto dest: simulates)

lemma transfer_law:
  assumes "\<And>a b. spec a b \<Longrightarrow> I a \<Longrightarrow> I b" and "step\<^sup>*\<^sup>* s t" and "I (view s)"
  shows "I (view t)"
  using runs [OF assms(2)] assms(3) by (induction rule: rtranclp_induct) (auto dest: assms(1))

lemma transfer_order:
  assumes "\<And>a b. spec a b \<Longrightarrow> f a \<le> (f b :: 'o :: preorder)" and "step\<^sup>*\<^sup>* s t"
  shows "f (view s) \<le> f (view t)"
  using runs [OF assms(2)] by (induction rule: rtranclp_induct) (auto dest: assms(1) order_trans)

end

end
