(* ===== verification/Contract_Refinement.thy ===== *)
theory Contract_Refinement
  imports Contract_Spec
begin

text \<open>
  The pipeline implements the contract. \<open>one_effect\<close> says that a handler, wherever an exception ends it, has at most one
  effect: one confirmed message or one mark. It is closed under the statements of the code, so its proof for \<open>handle\<close>
  follows the stages of the handler.
\<close>

section \<open>Tickets\<close>

definition ticket_of :: "environ \<Rightarrow> bytes \<Rightarrow> ticket" where
  "ticket_of E body = (case from_json_bytes E body of Inl _ \<Rightarrow> Unreadable
     | Inr e \<Rightarrow> Ticket (idempotencyKey e) (next_attempt e))"

definition contract_of :: "environ \<Rightarrow> ledger \<times> world \<Rightarrow> contract" where
  "contract_of E = (\<lambda>(b, w). \<lparr>todo = image_mset (ticket_of E) (pending b), failed = image_mset (ticket_of E) (dead b),
     finished = row_key ` set (table w)\<rparr>)"

lemma finished_contract: "finished (contract_of E (b, w)) = row_key ` set (table w)"
  by (simp add: contract_of_def)

definition queues_differ :: "settings \<Rightarrow> bool" where
  "queues_differ S \<longleftrightarrow> distinct [queue_name S, retry_queue_name S, dlq_name S]"

lemma ticket_of_event: "from_json_bytes E body = Inr e \<Longrightarrow> ticket_of E body = Ticket (idempotencyKey e) (next_attempt e)"
  by (simp add: ticket_of_def)

lemma ticket_written: "json_laws E \<Longrightarrow> valid_event E e \<Longrightarrow> ticket_of E (to_json_bytes E e) = Ticket (idempotencyKey e) (next_attempt e)"
  by (simp add: ticket_of_def from_to_json_bytes)

lemma ticket_retry:
  assumes "json_laws E" and "valid_event E e" and "with_retry e n m err = Inr e'"
  shows "ticket_of E (to_json_bytes E e') = Ticket (idempotencyKey e) (n + 1)"
proof -
  have "next_attempt e' = n + 1"
    using assms(3) by (auto simp: with_retry_def bind_sum_Inr mk_retry_info_def next_attempt_def Let_def split: if_splits)
  then show ?thesis using ticket_written [OF assms(1) with_retry_valid [OF assms(3,2)]] with_retry_key [OF assms(3)] by simp
qed

section \<open>What a handler may publish\<close>

definition passes_on :: "environ \<Rightarrow> settings \<Rightarrow> bytes \<Rightarrow> publication \<Rightarrow> bool" where
  "passes_on E S body p \<longleftrightarrow>
     (goes_dead S p \<and> \<not> leads_to_main S p \<and> ticket_of E (pub_body p) = ticket_of E body)
   \<or> (leads_to_main S p \<and> \<not> goes_dead S p \<and> (\<exists>k n. ticket_of E body = Ticket k n \<and> n \<le> retry_max_attempts S
        \<and> ticket_of E (pub_body p) = Ticket k (n + 1)))"

lemma dead_not_main:
  assumes "queues_differ S"
  shows "\<not> leads_to_main S (event_publication E (dlq_name S) e x hs)" "\<not> leads_to_main S (raw_publication S body props reason)"
    "\<not> goes_dead S (event_publication E (retry_queue_name S) e x hs)"
  using assms by (auto simp: queues_differ_def leads_to_main_def goes_dead_def event_publication_def raw_publication_def declared)

section \<open>At most one effect\<close>

definition silently :: "nat \<Rightarrow> world \<Rightarrow> world \<Rightarrow> bool" where
  "silently ch w w' \<longleftrightarrow> (\<exists>h. history w' = history w @ h \<and> publications ch h = []) \<and> table w' = table w"

lemma preorder_silently: "preorder_rel (silently ch)"
  by (auto simp: preorder_rel_def silently_def)

lemma silent_add: "publications ch [a] = [] \<Longrightarrow> silently ch w (add_action a w)"
  by (auto simp: silently_def)

lemma silent_call: "publications ch [ok] = [] \<Longrightarrow> (\<And>x. publications ch [bad x] = []) \<Longrightarrow> keeps (silently ch) (call reply ok bad)"
  by (auto simp: keeps_def call_def intro: silent_add split: option.split)

lemma silent_ask: "publications ch [a] = [] \<Longrightarrow> keeps (silently ch) (ask reply a)"
  by (auto simp: keeps_def ask_def intro: silent_add split: sum.split)

lemma silent_incs: "keeps (silently ch) (inc_consumed r)" "keeps (silently ch) inc_dlq"
    "keeps (silently ch) inc_idempotency_hits" "keeps (silently ch) (inc_csv_rejections t)"
  by (simp_all add: keeps_def silently_def inc_defs modify_io_def)

lemmas silent_rules = preorder_silently keeps_ret keeps_raise keeps_lift_sum keeps_get keeps_bind keeps_seq silent_incs

lemma silent_questions: "keeps (silently ch) (is_done E k)" "keeps (silently ch) (ask_file E e)"
    "keeps (silently ch) (scan_csv_file E S p)" "keeps (silently ch) (basic_ack E c tag)"
  unfolding is_done_def sql_def ask_file_def scan_csv_file_def basic_ack_def
  by (auto intro!: silent_rules silent_call silent_ask)

lemma silent_uploads: "keeps (silently ch) (run_uploads E S e p)"
proof (rule keepsI)
  fix w :: world
  consider "0 < upload_max_concurrency S" | "upload_max_concurrency S = 0" "destinations e \<noteq> []"
    | "upload_max_concurrency S = 0" "destinations e = []" | "upload_max_concurrency S < 0"
    by (cases "destinations e = []") linarith+
  then show "silently ch w (snd (run_uploads E S e p w))"
  proof cases
    case 1
    from run_uploads_report [OF this, of E e p w] publications_uploads show ?thesis
      by (fastforce simp: same_books_def silently_def)
  next
    case 3
    then show ?thesis by (simp add: run_uploads_nothing silently_def)
  qed (simp_all add: run_uploads_no_permit run_uploads_negative silently_def)
qed

text \<open>\<open>J\<close> says what may be published, \<open>K\<close> which keys may be marked.\<close>

definition one_mark :: "pystr set \<Rightarrow> db_row list \<Rightarrow> db_row list \<Rightarrow> bool" where
  "one_mark K t t' \<longleftrightarrow> (\<exists>k \<in> K. \<exists>c now. t' = insert_or_ignore t k (c, now))"

definition one_effect :: "nat \<Rightarrow> (publication \<Rightarrow> bool) \<Rightarrow> pystr set \<Rightarrow> world \<Rightarrow> world \<Rightarrow> bool" where
  "one_effect ch J K w w' \<longleftrightarrow> (\<exists>h. history w' = history w @ h
     \<and> ((publications ch h = [] \<and> (table w' = table w \<or> one_mark K (table w) (table w')))
      \<or> (\<exists>p. publications ch h = [p] \<and> J p \<and> table w' = table w)))"

lemma silently_effect: "silently ch w w' \<Longrightarrow> one_effect ch J K w w'"
  by (auto simp: silently_def one_effect_def)

lemma effect_then_silently: "one_effect ch J K w v \<Longrightarrow> silently ch v w' \<Longrightarrow> one_effect ch J K w w'"
  by (auto simp: silently_def one_effect_def)

lemma silently_then_effect: "silently ch w v \<Longrightarrow> one_effect ch J K v w' \<Longrightarrow> one_effect ch J K w w'"
  by (auto simp: silently_def one_effect_def)

lemma effect_silent: "keeps (silently ch) m \<Longrightarrow> keeps (one_effect ch J K) m"
  by (simp add: keeps_def silently_effect)

lemma effect_after: "keeps (silently ch) m \<Longrightarrow> (\<And>x. keeps (one_effect ch J K) (f x)) \<Longrightarrow> keeps (one_effect ch J K) (bind_io m f)"
  by (erule keeps_mixed, assumption) (erule silently_effect, erule (1) silently_then_effect)

lemma effect_before: "keeps (one_effect ch J K) m \<Longrightarrow> (\<And>x. keeps (silently ch) (f x)) \<Longrightarrow> keeps (one_effect ch J K) (bind_io m f)"
  by (erule keeps_mixed, assumption) (assumption, erule (1) effect_then_silently)

lemma effect_lift: "(\<And>x. r = Inr x \<Longrightarrow> keeps (one_effect ch J K) (f x)) \<Longrightarrow> keeps (one_effect ch J K) (bind_io (lift_sum r) f)"
  by (cases r) (simp_all add: lift_sum_def effect_silent silent_rules)

lemma effect_publish: "J p \<Longrightarrow> keeps (one_effect ch J K) (basic_publish E ch p)"
  by (auto simp: keeps_def one_effect_def basic_publish_cases split: option.split)

lemma effect_mark: "k \<in> K \<Longrightarrow> keeps (one_effect ch J K) (mark_done E k c)"
  by (auto simp: keeps_def one_effect_def one_mark_def mark_done_cases split: option.split)

lemmas effect_rules = effect_silent effect_after effect_before effect_lift keeps_if silent_questions silent_rules

section \<open>The handler has at most one\<close>

lemma effect_dlq:
  assumes "queues_differ S" and "ticket_of E (to_json_bytes E e) = ticket_of E body"
  shows "keeps (one_effect ch (passes_on E S body) K) (seq_io (dlq_and_ack E (worker_consumer ch S) tag e reason))"
  using assms dead_not_main [OF assms(1)]
  by (auto simp: dlq_and_ack_def worker_consumer_def publish_dlq_def publish_def passes_on_def
    intro!: effect_before effect_publish silent_rules silent_questions)

lemma effect_results:
  assumes q: "queues_differ S" and j: "json_laws E" and e: "from_json_bytes E body = Inr e" and k: "idempotencyKey e \<in> K"
  shows "keeps (one_effect ch (passes_on E S body) K) (handle_results E (worker_consumer ch S) tag e rs)"
proof -
  note v = from_json_bytes_valid [OF e] and t = ticket_of_event [OF e]
  have dead: "ticket_of E (to_json_bytes E e') = ticket_of E body" if "with_retry e (next_attempt e - 1) m err = Inr e'" for m err e'
    using ticket_retry [OF j v that] t by simp
  have again: "passes_on E S body (event_publication E (retry_queue_name S) e' (Some (show_int ms)) None)"
    if "with_retry e (next_attempt e) m err = Inr e'" "next_attempt e \<le> retry_max_attempts S" for m err e' ms
    using ticket_retry [OF j v that(1)] t that(2) dead_not_main [OF q] by (simp add: passes_on_def)
  have S: "con_settings (worker_consumer ch S) = S" "con_channel (worker_consumer ch S) = ch"
    by (simp_all add: worker_consumer_def)
  show ?thesis
    unfolding handle_results_def Let_def S
  proof (intro keeps_if)
    show "keeps (one_effect ch (passes_on E S body) K) (seq_io [mark_done E (idempotencyKey e) (correlationId e), basic_ack E ch tag,
        inc_consumed ''success''])"
      by (auto intro!: effect_before effect_mark silent_rules silent_questions k)
  next
    show "keeps (one_effect ch (passes_on E S body) K) (bind_io (lift_sum (with_retry e (next_attempt e - 1) (retry_max_attempts S)
        (last_error_of (failures_of rs)))) (\<lambda>e'. seq_io (dlq_and_ack E (worker_consumer ch S) tag e' ''max_retries_exceeded'')))"
      by (intro effect_lift effect_dlq q dead)
  next
    assume n: "\<not> retry_max_attempts S < next_attempt e"
    show "keeps (one_effect ch (passes_on E S body) K) (bind_io (lift_sum (with_retry e (next_attempt e) (retry_max_attempts S)
        (last_error_of (failures_of rs)))) (\<lambda>e'. bind_io (lift_sum (backoff_delay_ms E S (next_attempt e))) (\<lambda>ms.
          seq_io [publish_retry E (con_publisher (worker_consumer ch S)) e' ms, basic_ack E ch tag, inc_consumed ''retry''])))"
      by (intro effect_lift) (use n again in \<open>auto simp: worker_consumer_def publish_retry_def publish_def
        intro!: effect_before effect_publish silent_rules silent_questions\<close>)
  qed
qed

lemma effect_handle:
  assumes q: "queues_differ S" and j: "json_laws E"
  shows "keeps (one_effect ch (passes_on E S body) {k. \<exists>n. ticket_of E body = Ticket k n}) (handle E (worker_consumer ch S) tag props body)"
proof (rule handle_stage_cases)
  fix x assume "from_json_bytes E body = Inl x"
  then show "keeps (one_effect ch (passes_on E S body) {k. \<exists>n. ticket_of E body = Ticket k n})
      (malformed_block E (worker_consumer ch S) tag props body)"
    using dead_not_main [OF q]
    by (auto simp: malformed_block_def dead_letter_raw_def worker_consumer_def passes_on_def
      intro!: effect_before effect_publish silent_rules silent_questions) (simp add: raw_publication_def)
next
  fix e x assume "from_json_bytes E body = Inr e"
  from ticket_of_event [OF this] ticket_written [OF j from_json_bytes_valid [OF this]]
  show "keeps (one_effect ch (passes_on E S body) {k. \<exists>n. ticket_of E body = Ticket k n})
      (unsupported_block E (worker_consumer ch S) tag e x)"
    unfolding unsupported_block_def by (intro keeps_if effect_dlq q effect_silent silent_rules) simp
next
  fix e assume e: "from_json_bytes E body = Inr e"
  note t = ticket_of_event [OF e]
  have same: "ticket_of E (to_json_bytes E e) = ticket_of E body" using t ticket_written [OF j from_json_bytes_valid [OF e]] by simp
  have dup: "keeps (one_effect ch (passes_on E S body) {k. \<exists>n. ticket_of E body = Ticket k n}) (duplicate_block E (worker_consumer ch S) tag)"
    unfolding duplicate_block_def by (rule effect_silent) (auto intro!: silent_rules silent_questions)
  show "keeps (one_effect ch (passes_on E S body) {k. \<exists>n. ticket_of E body = Ticket k n}) (supported_stage E (worker_consumer ch S) tag e)"
    unfolding supported_stage_def fresh_stage_def file_stage_def issue_stage_def upload_stage_def seq_io_append
    by (intro effect_after keeps_if dup silent_questions silent_uploads effect_dlq effect_results q j e same)
      (auto simp: t intro!: silent_rules)
qed

section \<open>The pipeline implements the contract\<close>

definition pipeline_step :: "environ \<Rightarrow> settings \<Rightarrow> ledger \<times> world \<Rightarrow> ledger \<times> world \<Rightarrow> bool" where
  "pipeline_step E S s t \<longleftrightarrow> delivery E S s t \<or> crash E S s t \<or> (fst t = fst s \<and> table (snd t) = table (snd s))"

lemma runs_are_steps: "pipeline_run E S n k s t \<Longrightarrow> (pipeline_step E S)\<^sup>*\<^sup>* s t"
proof (induction rule: pipeline_run.induct)
  case (delivered n k s t u)
  then show ?case by (meson pipeline_step_def rtranclp.rtrancl_into_rtrancl)
next
  case (crashed n k s t u)
  then show ?case by (meson pipeline_step_def rtranclp.rtrancl_into_rtrancl)
next
  case (restarted n k s b w w')
  then have "pipeline_step E S (b, w) (b, w')" by (simp add: pipeline_step_def)
  then show ?case using restarted.IH by (meson rtranclp.rtrancl_into_rtrancl)
qed simp

lemma row_key_insert: "row_key ` set (insert_or_ignore t k v) = insert k (row_key ` set t)"
  by (auto simp: insert_or_ignore_def select_key_iff)

lemma contract_strike:
  assumes "body \<in># pending b"
  shows "contract_of E (book S ps (strike body b), v) = drop_ticket (ticket_of E body) (contract_of E (book S ps b, v))"
proof -
  obtain T where "pending b = add_mset body T" using assms by (metis insert_DiffM)
  then show ?thesis by (simp add: contract_of_def drop_ticket_def)
qed

text \<open>What one effect of the handler is in the contract.\<close>

lemma effect_booked:
  assumes "(ps = [] \<and> (table v = table w \<or> one_mark {k. \<exists>n. ticket_of E body = Ticket k n} (table w) (table v)))
      \<or> (\<exists>p. ps = [p] \<and> passes_on E S body p \<and> table v = table w)"
  shows "(ps = [] \<and> table v = table w \<and> contract_of E (book S ps b, v) = contract_of E (b, w))
    \<or> effect (retry_max_attempts S) (ticket_of E body) (contract_of E (b, w)) (contract_of E (book S ps b, v))"
proof -
  let ?s = "contract_of E (b, w)"
  consider "ps = []" "table v = table w" | (mark) k n c now where "ps = []" "ticket_of E body = Ticket k n"
      "table v = insert_or_ignore (table w) k (c, now)"
    | (out) p where "ps = [p]" "passes_on E S body p" "table v = table w"
    using assms by (auto simp: one_mark_def)
  then show ?thesis
  proof cases
    case (mark k n c now)
    then have "contract_of E (book S ps b, v) = ?s\<lparr>finished := insert k (finished ?s)\<rparr>"
      by (simp add: contract_of_def row_key_insert)
    then show ?thesis using mark(2) by auto
  next
    case (out p)
    from out(2) consider
        "goes_dead S p" "\<not> leads_to_main S p" "ticket_of E (pub_body p) = ticket_of E body"
      | (again) k n where "leads_to_main S p" "\<not> goes_dead S p" "ticket_of E body = Ticket k n" "n \<le> retry_max_attempts S"
          "ticket_of E (pub_body p) = Ticket k (n + 1)"
      by (auto simp: passes_on_def)
    then show ?thesis
    proof cases
      case 1
      then have "contract_of E (book S ps b, v) = ?s\<lparr>failed := add_mset (ticket_of E body) (failed ?s)\<rparr>"
        using out by (simp add: contract_of_def)
      then show ?thesis by auto
    next
      case (again k n)
      then have "contract_of E (book S ps b, v) = ?s\<lparr>todo := add_mset (Ticket k (n + 1)) (todo ?s)\<rparr>"
        using out by (simp add: contract_of_def)
      then show ?thesis using again(3,4) by auto
    qed
  qed (simp add: contract_of_def book_def)
qed

text \<open>A delivery that is acknowledged without any effect is one of a finished key.\<close>

lemma quiet_return:
  assumes "handle E (worker_consumer ch S) tag props body w = (Return y, w')"
    and "publications ch (new_actions w w') = []" and "table w' = table w"
  shows "\<exists>k n. ticket_of E body = Ticket k n \<and> k \<in> row_key ` set (table w)"
proof -
  obtain d h where d: "justified E S w body h d" "carried_out E S ch props body d w h w'"
    using handle_verdict [OF assms(1)] by blast
  then have "verdict_publications E S props body d = []" "marks d (table w) (table w')"
    using assms(2) by (auto simp: carried_out_def new_actions_append)
  with d(1) show ?thesis
    by (cases d) (auto simp: tried_def admitted_def ticket_of_def select_key_iff assms(3) insert_or_ignore_def split: if_splits)
qed

locale contract_setup =
  fixes E :: environ and S :: settings
  assumes laws: "json_laws E" and names: "queues_differ S"
begin

lemma handler_effect:
  assumes "handle E (worker_consumer ch S) tag props body w = (r, w')" and "new_actions w w' = h @ rest"
    and "table v = table w' \<or> table v = table w"
  shows "(publications ch h = [] \<and> table v = table w \<and> contract_of E (book S (publications ch h) b, v) = contract_of E (b, w))
    \<or> effect (retry_max_attempts S) (ticket_of E body) (contract_of E (b, w)) (contract_of E (book S (publications ch h) b, v))"
proof (rule effect_booked)
  have g: "new_actions w w' = g" if "history w' = history w @ g" for g using that by (rule new_actions_append)
  from keepsD [OF effect_handle [OF names laws] assms(1)] assms(2)
  have "(publications ch (h @ rest) = [] \<and> (table w' = table w \<or> one_mark {k. \<exists>n. ticket_of E body = Ticket k n} (table w) (table w')))
      \<or> (\<exists>p. publications ch (h @ rest) = [p] \<and> passes_on E S body p \<and> table w' = table w)"
    by (auto simp: one_effect_def dest: g)
  then show "(publications ch h = [] \<and> (table v = table w \<or> one_mark {k. \<exists>n. ticket_of E body = Ticket k n} (table w) (table v)))
      \<or> (\<exists>p. publications ch h = [p] \<and> passes_on E S body p \<and> table v = table w)"
    using assms(3) by (auto simp: append_eq_Cons_conv)
qed

lemma step_delivery:
  assumes "delivery E S (b, w) (b', w')"
  shows "(contract_step (retry_max_attempts S))\<^sup>=\<^sup>= (contract_of E (b, w)) (contract_of E (b', w'))"
proof -
  obtain body ch tag props r where 1: "body \<in># pending b" "b' = settle S ch tag body (new_actions w w') b"
    "handle E (worker_consumer ch S) tag props body w = (r, w')"
    using assms by (elim deliveryE) blast
  let ?ps = "publications ch (new_actions w w')"
  have t: "ticket_of E body \<in># todo (contract_of E (b, w))" using 1(1) by (auto simp: contract_of_def)
  note eff = handler_effect [OF 1(3), of "new_actions w w'" "[]" w' b, simplified]
  show ?thesis
  proof (cases "Acked ch tag \<in> set (new_actions w w')")
    case False
    then show ?thesis using eff 1(2) left_over [OF t] by (auto simp: settle_def)
  next
    case True
    then have b': "contract_of E (b', w') = drop_ticket (ticket_of E body) (contract_of E (book S ?ps b, w'))"
      using 1(1,2) by (simp add: settle_def contract_strike)
    from eff show ?thesis
    proof
      assume q: "?ps = [] \<and> table w' = table w \<and> contract_of E (book S ?ps b, w') = contract_of E (b, w)"
      obtain y where "r = Return y" using True acked_iff_returned [OF 1(3)] by blast
      with 1(3) have "handle E (worker_consumer ch S) tag props body w = (Return y, w')" by simp
      from quiet_return [OF this] q obtain k n where k: "ticket_of E body = Ticket k n" "k \<in> row_key ` set (table w)" by blast
      have "contract_step (retry_max_attempts S) (contract_of E (b, w)) (drop_ticket (Ticket k n) (contract_of E (b, w)))"
        by (rule skipped) (use t k in \<open>simp_all add: finished_contract\<close>)
      then have "contract_step (retry_max_attempts S) (contract_of E (b, w)) (drop_ticket (ticket_of E body) (contract_of E (b, w)))"
        by (simp add: k(1))
      moreover have "contract_of E (b', w') = drop_ticket (ticket_of E body) (contract_of E (b, w))" using b' q by metis
      ultimately show ?thesis by simp
    qed (use b' taken [OF t] in auto)
  qed
qed

lemma step_crash:
  assumes "crash E S (b, w) (b', v)"
  shows "(contract_step (retry_max_attempts S))\<^sup>=\<^sup>= (contract_of E (b, w)) (contract_of E (b', v))"
proof -
  obtain body ch tag props r w' h rest where 1: "body \<in># pending b" "b' = book S (publications ch h) b"
    "handle E (worker_consumer ch S) tag props body w = (r, w')" "new_actions w w' = h @ rest"
    "table v = (if \<exists>k c. Sql (InsertKey k c) \<in> set h then table w' else table w)"
    using assms by (elim crashE) blast
  have t: "ticket_of E body \<in># todo (contract_of E (b, w))" using 1(1) by (auto simp: contract_of_def)
  have "table v = table w' \<or> table v = table w" using 1(5) by (auto split: if_splits)
  from handler_effect [OF 1(3,4) this, of b] show ?thesis using 1(2) left_over [OF t] by auto
qed

lemma step_simulates: "pipeline_step E S s t \<Longrightarrow> (contract_step (retry_max_attempts S))\<^sup>*\<^sup>* (contract_of E s) (contract_of E t)"
proof (cases s, cases t)
  fix b w b' w' assume "pipeline_step E S s t" and st: "s = (b, w)" "t = (b', w')"
  then consider "delivery E S (b, w) (b', w')" | "crash E S (b, w) (b', w')" | "b' = b" "table w' = table w"
    by (auto simp: pipeline_step_def)
  then show ?thesis
  proof cases
    case 1
    from step_delivery [OF this] show ?thesis using st by auto
  next
    case 2
    from step_crash [OF this] show ?thesis using st by auto
  next
    case 3
    then have "contract_of E t = contract_of E s" using st by (simp add: contract_of_def)
    then show ?thesis by simp
  qed
qed

end

sublocale contract_setup < contract: simulation "pipeline_step E S" "contract_step (retry_max_attempts S)" "contract_of E"
  by unfold_locales (rule step_simulates)

text \<open>The transfer of runs and laws, for every setup.\<close>

context contract_setup
begin

lemmas contract_runs = contract.runs
lemmas contract_law = contract.transfer_law

end

end
