(* ===== verification/Contract_Properties.thy ===== *)
theory Contract_Properties
  imports Pipeline_Properties Contract_Refinement
begin

text \<open>
  The properties of the worker as an implementation of the event contract: every run is one of the contract, and the
  contract's laws hold of it.
\<close>

text \<open>The setup of the worker's defaults.\<close>

lemma default_queues: "queues_differ default_settings"
  by (simp add: queues_differ_def default_settings_def)

interpretation default_setup: contract_setup sample_env default_settings
  by (rule contract_setup.intro [OF sample_laws default_queues])

section \<open>Refinement of the event contract\<close>

text \<open>C3. The pipeline implements the contract: whatever is delivered, answered, raised, crashed and restarted, the
  tickets (key and next attempt) in the queues, the dead letters and the table move only as the contract allows: each
  step gives one waiting ticket up, puts it back with the next attempt if that is at most RETRY_MAX_ATTEMPTS, finishes
  its key, or drops it when its key is finished. So the known keys stay the same, finished keys and dead letters stay,
  and no attempt exceeds the maximum by more than one.\<close>

theorem pipeline_implements_contract:
  assumes "json_laws E" and "queues_differ S" and "pipeline_run E S n k s t"
  shows "(contract_step (retry_max_attempts S))\<^sup>*\<^sup>* (contract_of E s) (contract_of E t)
    \<and> known_keys (contract_of E t) = known_keys (contract_of E s)
    \<and> finished (contract_of E s) \<subseteq> finished (contract_of E t) \<and> failed (contract_of E s) \<subseteq># failed (contract_of E t)
    \<and> (attempts_within (retry_max_attempts S) (contract_of E s) \<longrightarrow> attempts_within (retry_max_attempts S) (contract_of E t))"
proof -
  have cs: "contract_setup E S" using assms(1,2) by (rule contract_setup.intro)
  note run = runs_are_steps [OF assms(3)]
  note law = contract_setup.contract_law [OF cs _ run]
  show ?thesis
  proof (intro conjI impI)
    show "(contract_step (retry_max_attempts S))\<^sup>*\<^sup>* (contract_of E s) (contract_of E t)"
      by (rule contract_setup.contract_runs [OF cs run])
    show "known_keys (contract_of E t) = known_keys (contract_of E s)"
      by (rule law [of "\<lambda>c. known_keys c = known_keys (contract_of E s)"]) (auto dest: step_keys)
    show "finished (contract_of E s) \<subseteq> finished (contract_of E t)"
      by (rule law [of "\<lambda>c. finished (contract_of E s) \<subseteq> finished c"]) (auto dest: step_keeps)
    show "failed (contract_of E s) \<subseteq># failed (contract_of E t)"
      by (rule law [of "\<lambda>c. failed (contract_of E s) \<subseteq># failed c"]) (auto dest: step_keeps intro: subset_mset.order_trans)
    show "attempts_within (retry_max_attempts S) (contract_of E t)" if "attempts_within (retry_max_attempts S) (contract_of E s)"
      by (rule law) (auto intro: step_within that)
  qed
qed

text \<open>One delivery of the sample message with the worker's defaults.\<close>

definition sample_ledger :: ledger where
  "sample_ledger = \<lparr>pending = {#sample_message#}, dead = {#}\<rparr>"

theorem pipeline_implements_contract_witness:
  "\<exists>t. pipeline_run sample_env default_settings 1 0 (sample_ledger, sample_world) t
    \<and> (contract_step 5)\<^sup>*\<^sup>* (contract_of sample_env (sample_ledger, sample_world)) (contract_of sample_env t)
    \<and> known_keys (contract_of sample_env t) = known_keys (contract_of sample_env (sample_ledger, sample_world))
    \<and> attempts_within 5 (contract_of sample_env t)"
proof -
  have "sample_message \<in># pending sample_ledger" by (simp add: sample_ledger_def)
  moreover obtain r w' where "handle sample_env (worker_consumer 0 default_settings) 7 sample_props sample_message sample_world = (r, w')"
    by fastforce
  ultimately obtain t where "delivery sample_env default_settings (sample_ledger, sample_world) t" by (blast intro: delivery.intros)
  then have run: "pipeline_run sample_env default_settings 1 0 (sample_ledger, sample_world) t"
    using pipeline_run.delivered [OF pipeline_run.idle] by fastforce
  have max: "retry_max_attempts default_settings = 5" by (simp add: default_settings_def)
  have "from_json_bytes sample_env sample_message = Inr sample_event"
    unfolding sample_env_def by (rule sample_message_read)
  then have "attempts_within 5 (contract_of sample_env (sample_ledger, sample_world))"
    by (simp add: attempts_within_def contract_of_def sample_ledger_def ticket_of_def next_attempt_def sample_event_def)
  then show ?thesis using run pipeline_implements_contract [OF sample_laws default_queues run] unfolding max by blast
qed

section \<open>The keys of the pipeline\<close>

text \<open>C4. Keys are conserved from the drop directory on. While broker and file system answer the watcher \<open>W\<close>, and with three
  different queue names and a RETRY_MAX_ATTEMPTS that is not negative: in every run of deliveries, crashes and restarts in any
  other outside world \<open>E\<close> with the same JSON library, whatever call of the consumer fails there, the keys in the queues, in
  the dead letters and in the table are exactly those of the detected files and those the table had before, and no message
  is ever past its last attempt by more than one.\<close>

theorem keys_are_conserved:
  assumes "json_laws W" and "calm_broker W" and "sound_host W" and "settings_ok S"
    and "\<forall>path \<in> set (detected items). watchable W S path" and "same_codec W E"
    and "queues_differ S" and "0 \<le> retry_max_attempts S"
  shows "\<exists>es w'. run_watcher W S items w = (Return (), w') \<and> list_all2 (event_of_file W S) (detected items) es
    \<and> (\<forall>n k v s. pipeline_run E S n k (given_ledger S w w', v) s
        \<longrightarrow> known_keys (contract_of E s) = idempotencyKey ` set es \<union> row_key ` set (table v)
          \<and> attempts_within (retry_max_attempts S) (contract_of E s))"
proof -
  obtain es w' where es: "run_watcher W S items w = (Return (), w')" "list_all2 (event_of_file W S) (detected items) es"
    "given_ledger S w w' = sent E S es"
    "\<forall>e \<in> set es. \<exists>path \<in> set (detected items). event_of_file W S path e"
    using run_sent [OF assms(2-5), of w] same_codec_written(3) [OF assms(6)] by metis
  have laws: "json_laws E" using assms(1,6) by (simp add: same_codec_written)
  have cs: "contract_setup E S" using laws assms(7) by (rule contract_setup.intro)
  have t: "ticket_of E (to_json_bytes E e) = Ticket (idempotencyKey e) 1" if "e \<in> set es" for e
    using es(4) that file_event ticket_written [OF laws] same_codec_valid [OF assms(6)] by fastforce
  have d: "dead (sent E S es) = {#}"
    using dead_not_main assms(7) by (auto simp: sent_def no_messages_def event_message_def goes_dead_def event_publication_def
      declared queues_differ_def)
  have start: "known_keys (contract_of E (sent E S es, v)) = idempotencyKey ` set es \<union> row_key ` set (table v)"
      "attempts_within (retry_max_attempts S) (contract_of E (sent E S es, v))" for v
    using t assms(8) by (force simp: known_keys_def ticket_keys_def contract_of_def pending_sent d attempts_within_def)+
  have "known_keys (contract_of E s) = idempotencyKey ` set es \<union> row_key ` set (table v)
      \<and> attempts_within (retry_max_attempts S) (contract_of E s)"
    if run: "pipeline_run E S n k (sent E S es, v) s" for n k v s
  proof (rule contract_setup.contract_law [OF cs _ runs_are_steps [OF run]])
    show "known_keys (contract_of E (sent E S es, v)) = idempotencyKey ` set es \<union> row_key ` set (table v)
        \<and> attempts_within (retry_max_attempts S) (contract_of E (sent E S es, v))" using start by simp
  next
    fix c d assume "contract_step (retry_max_attempts S) c d"
      and "known_keys c = idempotencyKey ` set es \<union> row_key ` set (table v) \<and> attempts_within (retry_max_attempts S) c"
    then show "known_keys d = idempotencyKey ` set es \<union> row_key ` set (table v) \<and> attempts_within (retry_max_attempts S) d"
      using step_keys step_within by metis
  qed
  then show ?thesis using es(1-3) by auto
qed

theorem keys_are_conserved_witness:
  "\<exists>es w'. run_watcher sample_env default_settings [Detected sample_path, QueueTimeout] sample_world = (Return (), w')
    \<and> list_all2 (event_of_file sample_env default_settings) [sample_path] es
    \<and> (\<forall>n k v s. pipeline_run hostile_env default_settings n k (given_ledger default_settings sample_world w', v) s
        \<longrightarrow> known_keys (contract_of hostile_env s) = idempotencyKey ` set es \<union> row_key ` set (table v)
          \<and> attempts_within 5 (contract_of hostile_env s))"
proof -
  have max: "retry_max_attempts default_settings = 5" by (simp add: default_settings_def)
  from keys_are_conserved [OF sample_laws sample_calm_broker sample_sound_host sample_settings_ok _ hostile_codec default_queues,
      of "[Detected sample_path, QueueTimeout]" sample_world]
  show ?thesis by (simp add: sample_watchable max)
qed

end
