(* ===== verification/Shell.thy ===== *)
theory Shell
  imports Script_World
begin

text \<open>
  The part of \<open>bash\<close> the shell scripts below \<open>scripts/\<close> use, on the calls and answers of \<open>Script_World\<close>. A
  computation ends with a value (\<open>Inr\<close>) or has left the script with an exit status (\<open>Inl\<close>): under \<open>set -e\<close> a
  simple command that fails leaves with its own status. Built-ins that ask the file system (\<open>cd\<close>, \<open>[ -d ]\<close>) are
  calls like the programs; what \<open>sed\<close> and \<open>tr\<close> do to a text is computed. Output to the terminal is left out.
  A byte of a command's output is the code point of the same number.
\<close>

type_synonym 'a shell = "(script_call list, int + 'a) io"

definition ret_sh :: "'a \<Rightarrow> 'a shell" where
  "ret_sh x = ret_io (Inr x)"

definition exit_sh :: "int \<Rightarrow> 'a shell" where
  "exit_sh code = ret_io (Inl code)"

definition bind_sh :: "'a shell \<Rightarrow> ('a \<Rightarrow> 'b shell) \<Rightarrow> 'b shell" where
  "bind_sh m f = bind_io m (\<lambda>r. case r of Inl code \<Rightarrow> exit_sh code | Inr x \<Rightarrow> f x)"

section \<open>Commands\<close>

text \<open>The status of a command: 128 more than the signal that ended it, 126 or 127 when it could not be started.\<close>

definition shell_status :: "exn + int \<times> bytes \<Rightarrow> int \<times> pystr" where
  "shell_status reply = (case reply of
      Inl x \<Rightarrow> (if exc_name x = lit ''PermissionError'' then 126 else 127, [])
    | Inr (code, out) \<Rightarrow> (if code < 0 then 128 - code else code, map unat out))"

text \<open>A command in a tested position: its status and output.\<close>

definition run_tested :: "script_env \<Rightarrow> pystr list \<Rightarrow> (int \<times> pystr) script" where
  "run_tested E argv = consult (\<lambda>h. shell_status (run_reply E h argv)) (RunProgram argv)"

text \<open>A simple command under \<open>set -e\<close>.\<close>

definition run_or_exit :: "script_env \<Rightarrow> pystr list \<Rightarrow> pystr shell" where
  "run_or_exit E argv = bind_io (run_tested E argv) (\<lambda>(code, out). if code = 0 then ret_sh out else exit_sh code)"

fun run_each :: "script_env \<Rightarrow> pystr list list \<Rightarrow> unit shell" where
  "run_each E [] = ret_sh ()"
| "run_each E (argv # argvs) = bind_sh (run_or_exit E argv) (\<lambda>_. run_each E argvs)"

text \<open>The text of \<open>$(...)\<close>: null bytes and the final newlines are dropped.\<close>

definition substitution_text :: "pystr \<Rightarrow> pystr" where
  "substitution_text out = rev (dropWhile (\<lambda>c. c = 10) (rev (filter (\<lambda>c. c \<noteq> 0) out)))"

text \<open>\<open>x=$(command)\<close> under \<open>set -e\<close>, and \<open>x=$(command || echo other)\<close>, which goes on in any case.\<close>

definition substitute :: "script_env \<Rightarrow> pystr list \<Rightarrow> pystr shell" where
  "substitute E argv = bind_sh (run_or_exit E argv) (\<lambda>out. ret_sh (substitution_text out))"

definition substitute_or :: "script_env \<Rightarrow> pystr list \<Rightarrow> pystr \<Rightarrow> pystr shell" where
  "substitute_or E argv other = bind_io (run_tested E argv) (\<lambda>(code, out).
     ret_sh (substitution_text (if code = 0 then out else out @ other @ [10])))"

text \<open>\<open>trap 'command' EXIT\<close>: the exit status is the command's own when that fails.\<close>

definition with_exit_trap :: "script_env \<Rightarrow> pystr list \<Rightarrow> unit shell \<Rightarrow> int script" where
  "with_exit_trap E argv m = bind_io m (\<lambda>r. bind_io (run_tested E argv) (\<lambda>(code, out).
     ret_io (if code = 0 then (case r of Inl c \<Rightarrow> c | Inr _ \<Rightarrow> 0) else code)))"

definition exit_status :: "unit shell \<Rightarrow> int script" where
  "exit_status m = bind_io m (\<lambda>r. ret_io (case r of Inl c \<Rightarrow> c | Inr _ \<Rightarrow> 0))"

section \<open>Variables and numbers\<close>

text \<open>\<open>"${NAME:-default}"\<close> takes the default for an empty value as well; a variable of the environment stays exported
  with the value it is assigned.\<close>

definition sh_default :: "environment \<Rightarrow> string \<Rightarrow> pystr \<Rightarrow> pystr" where
  "sh_default env name def = (case env (lit name) of None \<Rightarrow> def | Some v \<Rightarrow> if v = [] then def else v)"

definition sh_assign :: "string \<Rightarrow> pystr \<Rightarrow> environment \<Rightarrow> environment" where
  "sh_assign name v env = (if env (lit name) = None then env else env(lit name \<mapsto> v))"

text \<open>Integers are signed with 64 bits.\<close>

definition fits64 :: "int \<Rightarrow> bool" where
  "fits64 n \<longleftrightarrow> - (2 ^ 63) \<le> n \<and> n < 2 ^ 63"

definition wrap64 :: "int \<Rightarrow> int" where
  "wrap64 n = (n + 2 ^ 63) mod 2 ^ 64 - 2 ^ 63"

lemma wrap64_fits: "fits64 n \<Longrightarrow> wrap64 n = n"
  by (simp add: fits64_def wrap64_def)

text \<open>The numbers \<open>[ a -lt b ]\<close> reads: white space, a sign, decimal digits, blanks; \<open>None\<close> is an error of the test, which
  then has the status 2.\<close>

definition decimal_value :: "pystr \<Rightarrow> int option" where
  "decimal_value ds = (if ds \<noteq> [] \<and> (\<forall>c \<in> set ds. 48 \<le> c \<and> c \<le> 57)
     then Some (foldl (\<lambda>n c. 10 * n + (int c - 48)) 0 ds) else None)"

definition signed_value :: "pystr \<Rightarrow> int option" where
  "signed_value s = (case s of
      c # ds \<Rightarrow> if c = 45 then map_option uminus (decimal_value ds) else if c = 43 then decimal_value ds else decimal_value s
    | [] \<Rightarrow> None)"

definition sh_number :: "pystr \<Rightarrow> int option" where
  "sh_number s = (case signed_value (rev (dropWhile (\<lambda>c. c = 32 \<or> c = 9)
        (rev (dropWhile (\<lambda>c. c = 32 \<or> 9 \<le> c \<and> c \<le> 13) s)))) of
      None \<Rightarrow> None | Some n \<Rightarrow> if fits64 n then Some n else None)"

text \<open>\<open>[ "$n" -lt "$s" ]\<close> and \<open>[ "$n" -ge "$s" ]\<close> as conditions: an error counts as false.\<close>

definition test_lt :: "int \<Rightarrow> pystr \<Rightarrow> bool" where
  "test_lt n s = (case sh_number s of None \<Rightarrow> False | Some m \<Rightarrow> n < m)"

definition test_ge :: "int \<Rightarrow> pystr \<Rightarrow> bool" where
  "test_ge n s = (case sh_number s of None \<Rightarrow> False | Some m \<Rightarrow> m \<le> n)"

end
