(* ===== verification/Shell_Scripts.thy ===== *)
theory Shell_Scripts
  imports Shell Drop_Files
begin

text \<open>
  The shell scripts below \<open>scripts/\<close>: \<open>healthcheck.sh\<close> waits until the stack is healthy and becomes the drop
  script of \<open>Drop_Files\<close>, \<open>drop-test-file.sh\<close> drops one file and waits for it, \<open>run-tests.sh\<close> runs the checks of the
  worker. The loops count the seconds they slept; they run on \<open>fuel\<close> and give \<open>Hang\<close> without. \<open>base\<close> is \<open>ROOT_DIR\<close>.
\<close>

definition compose_at :: "pystr \<Rightarrow> pystr list" where
  "compose_at base = compose (base @ lit ''/infra/docker-compose.yml'')"

section \<open>Waiting for the stack\<close>

definition healthy_services :: "pystr list" where
  "healthy_services = [lit ''sftp'', lit ''rabbitmq'', lit ''minio'', lit ''fake-gcs'', lit ''worker'']"

definition oneshot_services :: "pystr list" where
  "oneshot_services = [lit ''minio-init'', lit ''fake-gcs-init'']"

definition inspect :: "string \<Rightarrow> pystr \<Rightarrow> pystr list" where
  "inspect what cid = [lit ''docker'', lit ''inspect'', lit ''--format={{.State.'' @ lit what @ lit ''}}'', cid]"

text \<open>The bodies of the two \<open>for\<close> loops: \<open>status\<close>.\<close>

definition service_status :: "script_env \<Rightarrow> pystr \<Rightarrow> pystr \<Rightarrow> pystr shell" where
  "service_status E base svc = bind_sh (substitute E (compose_at base @ [lit ''ps'', lit ''-q'', svc])) (\<lambda>cid.
     if cid = [] then ret_sh (lit ''missing'') else substitute_or E (inspect ''Health.Status'' cid) (lit ''unknown''))"

definition oneshot_status :: "script_env \<Rightarrow> pystr \<Rightarrow> pystr \<Rightarrow> pystr shell" where
  "oneshot_status E base svc = bind_sh (substitute E (compose_at base @ [lit ''ps'', lit ''-aq'', svc])) (\<lambda>cid.
     if cid = [] then ret_sh (lit ''missing'')
     else bind_sh (substitute_or E (inspect ''Running'' cid) (lit ''true'')) (\<lambda>running.
       bind_sh (substitute_or E (inspect ''ExitCode'' cid) (lit ''1'')) (\<lambda>code.
       ret_sh (if running = lit ''true'' then lit ''running'' else lit ''exited('' @ code @ lit '')''))))"

text \<open>Every service is asked, also after one that is not in order; \<open>ok\<close> is \<open>all_ok\<close>.\<close>

fun services_ok :: "(pystr \<Rightarrow> pystr shell) \<Rightarrow> pystr \<Rightarrow> pystr list \<Rightarrow> bool \<Rightarrow> bool shell" where
  "services_ok query wanted [] ok = ret_sh ok"
| "services_ok query wanted (svc # svcs) ok = bind_sh (query svc) (\<lambda>status.
     services_ok query wanted svcs (ok \<and> status = wanted))"

definition stack_round :: "script_env \<Rightarrow> pystr \<Rightarrow> bool shell" where
  "stack_round E base = bind_sh (services_ok (service_status E base) (lit ''healthy'') healthy_services True) (\<lambda>ok.
     services_ok (oneshot_status E base) (lit ''exited(0)'') oneshot_services ok)"

definition sleep_2 :: "pystr list" where
  "sleep_2 = [lit ''sleep'', lit ''2'']"

fun wait_for_stack :: "nat \<Rightarrow> script_env \<Rightarrow> pystr \<Rightarrow> pystr \<Rightarrow> int \<Rightarrow> unit shell" where
  "wait_for_stack 0 E base limit elapsed = hang_io"
| "wait_for_stack (Suc fuel) E base limit elapsed = bind_sh (stack_round E base) (\<lambda>all_ok.
     if all_ok then ret_sh ()
     else if test_ge elapsed limit then
       bind_sh (run_each E [compose_at base @ [lit ''ps''], compose_at base @ [lit ''logs'', lit ''--tail=50'']]) (\<lambda>_. exit_sh 1)
     else bind_sh (run_or_exit E sleep_2) (\<lambda>_. wait_for_stack fuel E base limit (wrap64 (elapsed + 2))))"

text \<open>A Python program that ends with an uncaught exception has the exit status 1.\<close>

definition program_status :: "int script \<Rightarrow> int script" where
  "program_status m h = (case m h of (Raise x, h') \<Rightarrow> (Return 1, h') | r \<Rightarrow> r)"

text \<open>The whole script. \<open>exec\<close> replaces it by the drop script, which finds \<open>TIMEOUT\<close> in its environment exactly if the
  shell script did.\<close>

definition health_timeout :: "environment \<Rightarrow> pystr" where
  "health_timeout env = sh_default env ''TIMEOUT'' (lit ''180'')"

definition healthcheck :: "nat \<Rightarrow> script_env \<Rightarrow> pystr \<Rightarrow> environment \<Rightarrow> int script" where
  "healthcheck fuel E base env = bind_io (wait_for_stack fuel E base (health_timeout env) 0) (\<lambda>r. case r of
      Inl code \<Rightarrow> ret_io code
    | Inr _ \<Rightarrow> program_status (drop_script fuel E (base @ lit ''/scripts/drop-test-files.py'')
        (sh_assign ''TIMEOUT'' (health_timeout env) env)))"

section \<open>Dropping one file\<close>

record shell_drop =
  sd_base :: pystr
  sd_s3_bucket :: pystr
  sd_gcs_bucket :: pystr
  sd_user :: pystr
  sd_password :: pystr
  sd_timeout :: pystr

definition shell_drop_of :: "pystr \<Rightarrow> environment \<Rightarrow> shell_drop" where
  "shell_drop_of base env = \<lparr>sd_base = base,
     sd_s3_bucket = sh_default env ''S3_BUCKET'' (lit ''wms-orders-processed''),
     sd_gcs_bucket = sh_default env ''GCS_BUCKET'' (lit ''wms-orders-processed''),
     sd_user = sh_default env ''MINIO_ROOT_USER'' (lit ''minioadmin''),
     sd_password = sh_default env ''MINIO_ROOT_PASSWORD'' (lit ''minioadmin''),
     sd_timeout = sh_default env ''TIMEOUT'' (lit ''60'')\<rparr>"

definition shell_filename :: "pystr \<Rightarrow> pystr" where
  "shell_filename ts = lit ''ORD-'' @ ts @ lit ''.csv''"

text \<open>The here-document.\<close>

definition shell_csv :: "pystr \<Rightarrow> pystr" where
  "shell_csv ts = lit ''order_id,sku,quantity,channel'' @ [10]
     @ lit ''ORD-'' @ ts @ lit ''-1,SKU-1001,2,storefront'' @ [10]
     @ lit ''ORD-'' @ ts @ lit ''-2,SKU-2002,1,ebay'' @ [10]"

definition upload_path :: "pystr \<Rightarrow> pystr" where
  "upload_path filename = lit ''/config/upload/'' @ filename"

definition drop_commands :: "shell_drop \<Rightarrow> pystr \<Rightarrow> pystr \<Rightarrow> pystr list list" where
  "drop_commands D filename tmp = [
     [lit ''chmod'', lit ''644'', tmp],
     compose_at (sd_base D) @ [lit ''cp'', tmp, lit ''sftp:'' @ upload_path filename],
     compose_at (sd_base D) @ [lit ''exec'', lit ''-T'', lit ''sftp'', lit ''chown'', lit ''sftpuser:sftpuser'', upload_path filename],
     compose_at (sd_base D) @ [lit ''exec'', lit ''-T'', lit ''sftp'', lit ''chmod'', lit ''664'', upload_path filename]]"

text \<open>\<open>sed 's#/#%2F#g'\<close>\<close>

definition encode_slashes :: "pystr \<Rightarrow> pystr" where
  "encode_slashes key = concat (map (\<lambda>c. if c = 47 then lit ''%2F'' else [c]) key)"

definition curl_command :: "shell_drop \<Rightarrow> pystr \<Rightarrow> pystr list" where
  "curl_command D key = [lit ''curl'', lit ''-sf'',
     lit ''http://localhost:4443/storage/v1/b/'' @ sd_gcs_bucket D @ lit ''/o/'' @ encode_slashes key]"

definition gcs_probe :: "script_env \<Rightarrow> shell_drop \<Rightarrow> pystr \<Rightarrow> bool shell" where
  "gcs_probe E D key = bind_io (run_tested E (curl_command D key)) (\<lambda>(code, out). ret_sh (code = 0))"

definition mc_script :: "shell_drop \<Rightarrow> pystr \<Rightarrow> pystr" where
  "mc_script D key = lit ''mc alias set local http://minio:9000 '' @ quoted (sd_user D) @ lit '' '' @ quoted (sd_password D)
     @ lit '' >/dev/null 2>&1 && mc stat '' @ quoted (lit ''local/'' @ sd_s3_bucket D @ lit ''/'' @ key)
     @ lit '' >/dev/null 2>&1 && echo yes || echo no''"

definition mc_command :: "shell_drop \<Rightarrow> pystr \<Rightarrow> pystr list" where
  "mc_command D key = compose_at (sd_base D) @ [lit ''run'', lit ''--rm'', lit ''--entrypoint'', lit ''sh'', lit ''minio-init'',
     lit ''-c'', mc_script D key]"

text \<open>Under \<open>pipefail\<close> the status of \<open>docker ... | tr -d '\r\n'\<close> is that of \<open>docker\<close>, and a failure leaves the script.\<close>

definition s3_probe :: "script_env \<Rightarrow> shell_drop \<Rightarrow> pystr \<Rightarrow> bool shell" where
  "s3_probe E D key = bind_sh (run_or_exit E (mc_command D key)) (\<lambda>out.
     ret_sh (substitution_text (filter (\<lambda>c. c \<noteq> 13 \<and> c \<noteq> 10) out) = lit ''yes''))"

definition landed :: "script_env \<Rightarrow> shell_drop \<Rightarrow> pystr \<Rightarrow> bool shell" where
  "landed E D key = bind_sh (gcs_probe E D key) (\<lambda>gcs_ok. if gcs_ok then s3_probe E D key else ret_sh False)"

fun wait_for_landing :: "nat \<Rightarrow> script_env \<Rightarrow> shell_drop \<Rightarrow> pystr \<Rightarrow> int \<Rightarrow> bool shell" where
  "wait_for_landing 0 E D key elapsed = hang_io"
| "wait_for_landing (Suc fuel) E D key elapsed =
     (if \<not> test_lt elapsed (sd_timeout D) then ret_sh False
      else bind_sh (landed E D key) (\<lambda>ok.
        if ok then ret_sh True
        else bind_sh (run_or_exit E sleep_2) (\<lambda>_. wait_for_landing fuel E D key (wrap64 (elapsed + 2)))))"

definition drop_and_wait :: "nat \<Rightarrow> script_env \<Rightarrow> shell_drop \<Rightarrow> pystr \<Rightarrow> pystr \<Rightarrow> unit shell" where
  "drop_and_wait fuel E D ts tmp =
     bind_io (record_call (WriteTemp tmp (shell_csv ts))) (\<lambda>_.
     bind_sh (run_each E (drop_commands D (shell_filename ts) tmp)) (\<lambda>_.
     bind_sh (wait_for_landing fuel E D (shell_filename ts) 0) (\<lambda>ok.
     if ok then ret_sh ()
     else bind_sh (run_or_exit E (compose_at (sd_base D) @ [lit ''logs'', lit ''--tail=50'', lit ''worker''])) (\<lambda>_.
       exit_sh 1))))"

definition remove_temp :: "pystr \<Rightarrow> pystr list" where
  "remove_temp tmp = [lit ''rm'', lit ''-f'', tmp]"

definition drop_one_file :: "nat \<Rightarrow> script_env \<Rightarrow> pystr \<Rightarrow> environment \<Rightarrow> int script" where
  "drop_one_file fuel E base env =
     bind_io (bind_sh (substitute E [lit ''date'', lit ''+%Y%m%d%H%M%S'']) (\<lambda>ts.
        bind_sh (substitute E [lit ''mktemp'']) (\<lambda>tmp. ret_sh (ts, tmp)))) (\<lambda>r. case r of
       Inl code \<Rightarrow> ret_io code
     | Inr (ts, tmp) \<Rightarrow> with_exit_trap E (remove_temp tmp) (drop_and_wait fuel E (shell_drop_of base env) ts tmp))"

section \<open>Running the checks\<close>

definition no_venv :: "pystr list" where
  "no_venv = [lit ''['', lit ''!'', lit ''-d'', lit ''.venv'', lit '']'']"

definition install_commands :: "pystr list list" where
  "install_commands = [
     [lit ''python3'', lit ''-m'', lit ''venv'', lit ''.venv''],
     [lit ''.venv/bin/pip'', lit ''install'', lit ''--upgrade'', lit ''pip''],
     [lit ''.venv/bin/pip'', lit ''install'', lit ''-r'', lit ''requirements-dev.txt'']]"

definition check_commands :: "pystr list list" where
  "check_commands = [
     [lit ''.venv/bin/ruff'', lit ''check'', lit ''src'', lit ''tests''],
     [lit ''.venv/bin/bandit'', lit ''-c'', lit ''pyproject.toml'', lit ''-r'', lit ''src''],
     [lit ''.venv/bin/pip-audit'', lit ''-r'', lit ''requirements.txt''],
     [lit ''.venv/bin/pytest'', lit ''--cov=src'', lit ''--cov-report=term-missing'']]"

definition run_tests :: "script_env \<Rightarrow> pystr \<Rightarrow> int script" where
  "run_tests E base = exit_status (
     bind_sh (run_or_exit E [lit ''cd'', base @ lit ''/worker'']) (\<lambda>_.
     bind_io (run_tested E no_venv) (\<lambda>(code, out).
     bind_sh (run_each E (if code = 0 then install_commands else [])) (\<lambda>_.
     run_each E check_commands))))"

end
