(* ===== verification/Shell_Lemmas.thy ===== *)
theory Shell_Lemmas
  imports Shell_Scripts Script_Lemmas
begin

text \<open>
  Lemmas on the shell scripts: their commands come back (\<open>comes_back\<close>), what a success of each part says of the
  answers it got (\<open>gave\<close>, \<open>ran_ok\<close>, \<open>all_report\<close>), that they leave with a status other than 0 (\<open>fails_nonzero\<close>), and
  which calls they make (\<open>adds\<close>).
\<close>

section \<open>Commands come back\<close>

named_theorems comes_back_rules \<open>shell computations that come back\<close>

definition comes_back :: "'a shell \<Rightarrow> bool" where
  "comes_back m \<longleftrightarrow> (\<forall>h. \<exists>r g. m h = (Return r, h @ g))"

lemma comes_backE:
  assumes "comes_back m"
  obtains r g where "m h = (Return r, h @ g)"
  using assms unfolding comes_back_def by blast

lemma comes_back_ends [comes_back_rules]: "comes_back (ret_sh x)" "comes_back (exit_sh c)"
  by (simp_all add: comes_back_def ret_sh_def exit_sh_def ret_io_def)

lemma run_tested_eq: "run_tested E argv h = (Return (shell_status (run_reply E h argv)), h @ [RunProgram argv])"
  by (simp add: run_tested_def consult_def bind_io_def get_io_def record_call_def modify_io_def ret_io_def)

lemma bind_sh_eq: "bind_sh m f h = (case m h of
    (Return (Inl c), h') \<Rightarrow> (Return (Inl c), h') | (Return (Inr x), h') \<Rightarrow> f x h' | (Raise e, h') \<Rightarrow> (Raise e, h') | (Hang, h') \<Rightarrow> (Hang, h'))"
  by (simp add: bind_sh_def bind_io_def exit_sh_def ret_io_def split: prod.split outcome.split sum.split)

lemma comes_back_bind [comes_back_rules]:
  assumes "comes_back m" and "\<And>x. comes_back (f x)"
  shows "comes_back (bind_sh m f)"
  unfolding comes_back_def
proof
  fix h
  obtain r g where m: "m h = (Return r, h @ g)" using assms(1) by (rule comes_backE)
  show "\<exists>r g. bind_sh m f h = (Return r, h @ g)"
  proof (cases r)
    case (Inr x)
    obtain r' g' where "f x (h @ g) = (Return r', (h @ g) @ g')" using assms(2) by (rule comes_backE)
    then show ?thesis using m Inr by (simp add: bind_sh_eq)
  qed (use m in \<open>simp add: bind_sh_eq\<close>)
qed

lemma comes_back_tested [comes_back_rules]:
  "(\<And>c out. comes_back (f c out)) \<Longrightarrow> comes_back (bind_io (run_tested E argv) (\<lambda>(c, out). f c out))"
proof -
  assume f: "\<And>c out. comes_back (f c out)"
  have "\<exists>r g. f c out (h @ [RunProgram argv]) = (Return r, h @ g)" for c out h
    using f [of c out] by (rule comes_backE [of _ "h @ [RunProgram argv]"]) auto
  then show ?thesis by (simp add: comes_back_def bind_io_def run_tested_eq split: prod.split)
qed

lemma comes_back_if [comes_back_rules]: "comes_back m \<Longrightarrow> comes_back n \<Longrightarrow> comes_back (if b then m else n)"
  by simp

lemma comes_back_commands [comes_back_rules]: "comes_back (run_or_exit E argv)" "comes_back (substitute E argv)" "comes_back (substitute_or E argv s)"
  unfolding run_or_exit_def substitute_def substitute_or_def by (intro comes_back_rules)+

lemma comes_back_run_each [comes_back_rules]: "comes_back (run_each E argvs)"
  by (induction argvs) (auto intro!: comes_back_rules)

lemma comes_back_services_ok [comes_back_rules]: "(\<And>svc. comes_back (query svc)) \<Longrightarrow> comes_back (services_ok query wanted svcs ok)"
  by (induction svcs arbitrary: ok) (auto intro!: comes_back_rules)

lemma comes_back_stack_round [comes_back_rules]: "comes_back (stack_round E base)"
  unfolding stack_round_def service_status_def oneshot_status_def by (intro comes_back_rules)

lemma comes_back_landed [comes_back_rules]: "comes_back (landed E D key)"
  unfolding landed_def gcs_probe_def s3_probe_def by (intro comes_back_rules)

section \<open>What a success says\<close>

lemma bind_sh_Inr: "bind_sh m f h = (Return (Inr y), h') \<longleftrightarrow> (\<exists>x h1. m h = (Return (Inr x), h1) \<and> f x h1 = (Return (Inr y), h'))"
  by (auto simp: bind_sh_eq split: prod.splits outcome.splits sum.splits)

lemma ret_sh_Inr [simp]: "ret_sh x h = (Return (Inr y), h') \<longleftrightarrow> x = y \<and> h' = h" "exit_sh c h \<noteq> (Return (Inr y), h')"
  by (auto simp: ret_sh_def exit_sh_def ret_io_def)

text \<open>The command gave with the status 0 and the output \<open>out\<close>.\<close>

definition gave :: "script_env \<Rightarrow> script_call list \<Rightarrow> pystr list \<Rightarrow> pystr \<Rightarrow> bool" where
  "gave E h argv out \<longleftrightarrow> shell_status (run_reply E h argv) = (0, out)"

lemma run_or_exit_Inr: "run_or_exit E argv h = (Return (Inr out), h') \<longleftrightarrow> gave E h argv out \<and> h' = h @ [RunProgram argv]"
  by (auto simp: run_or_exit_def bind_io_def run_tested_eq gave_def split: prod.splits)

lemma run_or_exit_Inl: "run_or_exit E argv h = (Return (Inl c), h') \<Longrightarrow> c \<noteq> 0"
  by (auto simp: run_or_exit_def bind_io_def run_tested_eq ret_sh_def exit_sh_def ret_io_def split: prod.splits if_splits)

text \<open>The commands ran in this order, each with the status 0.\<close>

fun ran_ok :: "script_env \<Rightarrow> pystr list list \<Rightarrow> script_call list \<Rightarrow> script_call list \<Rightarrow> bool" where
  "ran_ok E [] h h' \<longleftrightarrow> h' = h"
| "ran_ok E (argv # argvs) h h' \<longleftrightarrow> (\<exists>out. gave E h argv out) \<and> ran_ok E argvs (h @ [RunProgram argv]) h'"

lemma run_each_Inr: "run_each E argvs h = (Return (Inr ()), h') \<longleftrightarrow> ran_ok E argvs h h'"
  by (induction argvs arbitrary: h) (auto simp: bind_sh_Inr run_or_exit_Inr)

lemma ran_ok_calls: "ran_ok E argvs h h' \<Longrightarrow> h' = h @ map RunProgram argvs"
  by (induction argvs arbitrary: h) fastforce+

text \<open>Every service in turn reported the status that is wanted.\<close>

fun all_report :: "(pystr \<Rightarrow> pystr shell) \<Rightarrow> pystr \<Rightarrow> pystr list \<Rightarrow> script_call list \<Rightarrow> script_call list \<Rightarrow> bool" where
  "all_report query wanted [] h h' \<longleftrightarrow> h' = h"
| "all_report query wanted (svc # svcs) h h' \<longleftrightarrow> (\<exists>h1. query svc h = (Return (Inr wanted), h1) \<and> all_report query wanted svcs h1 h')"

lemma services_ok_False: "services_ok query wanted svcs False h \<noteq> (Return (Inr True), h')"
  by (induction svcs arbitrary: h) (auto simp: bind_sh_Inr)

lemma services_ok_True: "services_ok query wanted svcs ok h = (Return (Inr True), h') \<longleftrightarrow> ok \<and> all_report query wanted svcs h h'"
  by (induction svcs arbitrary: ok h) (auto simp: bind_sh_Inr services_ok_False)

lemma chained_checks: "bind_sh (services_ok q w svcs True) (services_ok q' w' svcs') h = (Return (Inr True), h') \<longleftrightarrow>
    (\<exists>h1. all_report q w svcs h h1 \<and> all_report q' w' svcs' h1 h')"
proof
  assume "bind_sh (services_ok q w svcs True) (services_ok q' w' svcs') h = (Return (Inr True), h')"
  then obtain ok h1 where "services_ok q w svcs True h = (Return (Inr ok), h1)" "services_ok q' w' svcs' ok h1 = (Return (Inr True), h')"
    by (auto simp: bind_sh_Inr)
  then show "\<exists>h1. all_report q w svcs h h1 \<and> all_report q' w' svcs' h1 h'" by (cases ok) (auto simp: services_ok_True)
next
  assume "\<exists>h1. all_report q w svcs h h1 \<and> all_report q' w' svcs' h1 h'"
  then obtain h1 where "services_ok q w svcs True h = (Return (Inr True), h1)" "services_ok q' w' svcs' True h1 = (Return (Inr True), h')"
    by (auto simp: services_ok_True)
  then show "bind_sh (services_ok q w svcs True) (services_ok q' w' svcs') h = (Return (Inr True), h')" by (simp add: bind_sh_eq)
qed

definition stack_is_up :: "script_env \<Rightarrow> pystr \<Rightarrow> script_call list \<Rightarrow> script_call list \<Rightarrow> bool" where
  "stack_is_up E base h h' \<longleftrightarrow> (\<exists>h1. all_report (service_status E base) (lit ''healthy'') healthy_services h h1
     \<and> all_report (oneshot_status E base) (lit ''exited(0)'') oneshot_services h1 h')"

lemma stack_round_True: "stack_round E base h = (Return (Inr True), h') \<longleftrightarrow> stack_is_up E base h h'"
  by (auto simp: stack_round_def stack_is_up_def chained_checks)

lemma landed_True: "landed E D key h = (Return (Inr True), h') \<longleftrightarrow>
    (\<exists>out yes. gave E h (curl_command D key) out \<and> gave E (h @ [RunProgram (curl_command D key)]) (mc_command D key) yes
      \<and> substitution_text (filter (\<lambda>c. c \<noteq> 13 \<and> c \<noteq> 10) yes) = lit ''yes''
      \<and> h' = h @ [RunProgram (curl_command D key), RunProgram (mc_command D key)])"
  by (cases "shell_status (run_reply E h (curl_command D key))")
    (fastforce simp: landed_def gcs_probe_def s3_probe_def bind_sh_eq bind_io_def run_tested_eq gave_def run_or_exit_def ret_sh_def exit_sh_def
      ret_io_def split: prod.splits if_splits)

text \<open>Leaving with a status other than 0.\<close>

definition fails_nonzero :: "'a shell \<Rightarrow> bool" where
  "fails_nonzero m \<longleftrightarrow> (\<forall>h h' c. m h = (Return (Inl c), h') \<longrightarrow> c \<noteq> 0)"

named_theorems nonzero_rules \<open>computations that leave with a status other than 0\<close>

lemma nonzero_ends [nonzero_rules]: "fails_nonzero (ret_sh x)" "c \<noteq> 0 \<Longrightarrow> fails_nonzero (exit_sh c)" "fails_nonzero (run_or_exit E argv)"
  using run_or_exit_Inl by (auto simp: fails_nonzero_def ret_sh_def exit_sh_def ret_io_def)

lemma nonzero_bind [nonzero_rules]: "fails_nonzero m \<Longrightarrow> (\<And>x. fails_nonzero (f x)) \<Longrightarrow> fails_nonzero (bind_sh m f)"
  by (auto simp: fails_nonzero_def bind_sh_eq split: prod.splits outcome.splits sum.splits)

lemma nonzero_tested [nonzero_rules]:
  "(\<And>c out. fails_nonzero (f c out)) \<Longrightarrow> fails_nonzero (bind_io (run_tested E argv) (\<lambda>(c, out). f c out))"
  by (auto simp: fails_nonzero_def bind_io_def run_tested_eq split: prod.splits)

lemma nonzero_if [nonzero_rules]: "fails_nonzero m \<Longrightarrow> fails_nonzero n \<Longrightarrow> fails_nonzero (if b then m else n)"
  by simp

lemma nonzero_commands [nonzero_rules]: "fails_nonzero (substitute E argv)" "fails_nonzero (substitute_or E argv s)"
  unfolding substitute_def substitute_or_def by (intro nonzero_rules)+

lemma nonzero_run_each [nonzero_rules]: "fails_nonzero (run_each E argvs)"
  by (induction argvs) (auto intro!: nonzero_rules)

lemma nonzero_services_ok [nonzero_rules]: "(\<And>svc. fails_nonzero (query svc)) \<Longrightarrow> fails_nonzero (services_ok query wanted svcs ok)"
  by (induction svcs arbitrary: ok) (auto intro!: nonzero_rules)

lemma nonzero_rounds [nonzero_rules]: "fails_nonzero (stack_round E base)" "fails_nonzero (landed E D key)"
  unfolding stack_round_def service_status_def oneshot_status_def landed_def gcs_probe_def s3_probe_def by (intro nonzero_rules)+

lemma nonzero_wait [nonzero_rules]: "fails_nonzero (wait_for_stack fuel E base limit elapsed)"
    "fails_nonzero (wait_for_landing fuel E D key elapsed)"
  by (induction fuel arbitrary: elapsed)
    (auto intro!: nonzero_rules simp del: run_each.simps simp: fails_nonzero_def [of hang_io] hang_io_def)

section \<open>Calls of one kind only\<close>

definition adds :: "(script_call \<Rightarrow> bool) \<Rightarrow> script_call list \<Rightarrow> script_call list \<Rightarrow> bool" where
  "adds P h h' \<longleftrightarrow> (\<exists>g. h' = h @ g \<and> (\<forall>c \<in> set g. P c))"

lemma adds_preorder: "preorder_rel (adds P)"
proof -
  have "adds P h k" if hk: "adds P h h'" "adds P h' k" for h h' k
  proof -
    obtain g g' where "h' = h @ g" "k = h' @ g'" "\<forall>c \<in> set g. P c" "\<forall>c \<in> set g'. P c" using hk by (auto simp: adds_def)
    then show ?thesis unfolding adds_def by (intro exI [of _ "g @ g'"]) auto
  qed
  then show ?thesis by (auto simp: preorder_rel_def) (simp add: adds_def)
qed

named_theorems adds_rules \<open>computations whose calls are of one kind\<close>

lemma adds_ends [adds_rules]: "keeps (adds P) (ret_sh x)" "keeps (adds P) (exit_sh c)" "keeps (adds P) hang_io"
  by (simp_all add: ret_sh_def exit_sh_def keeps_ret adds_preorder) (simp add: keeps_def hang_io_def adds_def)

lemma adds_run_tested: "P (RunProgram argv) \<Longrightarrow> keeps (adds P) (run_tested E argv)"
  by (simp add: keeps_def run_tested_eq adds_def)

lemma adds_bind [adds_rules]: "keeps (adds P) m \<Longrightarrow> (\<And>x. keeps (adds P) (f x)) \<Longrightarrow> keeps (adds P) (bind_sh m f)"
  unfolding bind_sh_def by (intro keeps_bind adds_preorder) (simp_all add: adds_rules split: sum.split)

lemma adds_tested [adds_rules]:
  "P (RunProgram argv) \<Longrightarrow> (\<And>c out. keeps (adds P) (f c out)) \<Longrightarrow> keeps (adds P) (bind_io (run_tested E argv) (\<lambda>(c, out). f c out))"
  by (intro keeps_bind adds_preorder adds_run_tested) (simp_all split: prod.split)

lemma adds_if [adds_rules]: "keeps R m \<Longrightarrow> keeps R n \<Longrightarrow> keeps R (if b then m else n)"
  by simp

lemma adds_commands [adds_rules]:
  assumes "P (RunProgram argv)"
  shows "keeps (adds P) (run_or_exit E argv)" and "keeps (adds P) (substitute E argv)" and "keeps (adds P) (substitute_or E argv s)"
  unfolding run_or_exit_def substitute_def substitute_or_def by (intro adds_rules assms)+

lemma adds_run_each [adds_rules]: "(\<And>argv. argv \<in> set argvs \<Longrightarrow> P (RunProgram argv)) \<Longrightarrow> keeps (adds P) (run_each E argvs)"
  by (induction argvs) (auto intro!: adds_rules)

lemma adds_services_ok [adds_rules]: "(\<And>svc. keeps (adds P) (query svc)) \<Longrightarrow> keeps (adds P) (services_ok query wanted svcs ok)"
  by (induction svcs arbitrary: ok) (auto intro!: adds_rules)

text \<open>A command that copies a file into a container.\<close>

definition copies :: "script_call \<Rightarrow> bool" where
  "copies c \<longleftrightarrow> (\<exists>compose_file source target. c = RunProgram (compose compose_file @ [lit ''cp'', source, target]))"

lemma no_copies: "\<not> copies (RunProgram (compose_at base @ lit ''ps'' # argv))" "\<not> copies (RunProgram (compose_at base @ lit ''logs'' # argv))"
    "\<not> copies (RunProgram sleep_2)" "\<not> copies (RunProgram (inspect what cid))"
  by (auto simp: copies_def compose_at_def compose_def sleep_2_def inspect_def)

lemma adds_stack_round [adds_rules]: "keeps (adds (\<lambda>c. \<not> copies c)) (stack_round E base)"
  unfolding stack_round_def service_status_def oneshot_status_def by (intro adds_rules no_copies)

lemma adds_wait_for_stack: "keeps (adds (\<lambda>c. \<not> copies c)) (wait_for_stack fuel E base limit elapsed)"
proof (induction fuel arbitrary: elapsed)
  case (Suc fuel)
  show ?case unfolding wait_for_stack.simps by (intro adds_rules no_copies Suc) (auto simp: no_copies)
qed (simp add: adds_rules)

end
