(* ===== verification/Shell_Properties.thy ===== *)
theory Shell_Properties
  imports Shell_Lemmas Script_Properties
begin

text \<open>
  The properties of the shell scripts: the smoke test drops files on a stack that is up and gives up in time, a limit
  that is no integer makes it wait for ever, \<open>drop-test-file.sh\<close> succeeds only with the file in both stores, and
  \<open>run-tests.sh\<close> only with every check passed.
\<close>

section \<open>The waiting loops\<close>

lemma next_elapsed:
  assumes "0 \<le> e" and "e < n" and "n < 2 ^ 63 - 1" and "nat ((n + 1 - e) div 2) < Suc fuel"
  shows "wrap64 (e + 2) = e + 2" and "nat ((n + 1 - (e + 2)) div 2) < fuel"
  using assms by (simp add: wrap64_fits fits64_def, linarith)

lemma wait_for_stack_ends:
  assumes n: "sh_number limit = Some n" "n < 2 ^ 63 - 1" and "0 \<le> e" and "nat ((n + 1 - e) div 2) < fuel"
  shows "\<exists>r h'. wait_for_stack fuel E base limit e h = (Return r, h') \<and> (r = Inr () \<longrightarrow> (\<exists>g. stack_is_up E base g h'))"
  using assms(3,4)
proof (induction fuel arbitrary: e h)
  case (Suc fuel)
  obtain r g where round: "stack_round E base h = (Return r, h @ g)" by (rule comes_backE [OF comes_back_stack_round])
  show ?case
  proof (cases "r = Inr False \<and> \<not> test_ge e limit")
    case True
    obtain s g2 where pause: "run_or_exit E sleep_2 (h @ g) = (Return s, (h @ g) @ g2)" by (rule comes_backE [OF comes_back_commands(1)])
    have "e < n" using True n by (simp add: test_ge_def)
    from next_elapsed [OF Suc.prems(1) this n(2) Suc.prems(2)] Suc.prems(1)
    show ?thesis using Suc.IH [of "e + 2" "(h @ g) @ g2"] round pause True by (cases s) (auto simp: bind_sh_eq)
  next
    case False
    obtain s g2 where logs: "run_each E [compose_at base @ [lit ''ps''], compose_at base @ [lit ''logs'', lit ''--tail=50'']] (h @ g)
        = (Return s, (h @ g) @ g2)" by (rule comes_backE [OF comes_back_run_each])
    have "stack_is_up E base h (h @ g)" if "r = Inr True" using round that by (simp add: stack_round_True [symmetric])
    then show ?thesis using round logs False
      by (cases r; cases s) (auto simp: bind_sh_eq exit_sh_def ret_sh_def ret_io_def simp del: run_each.simps)
  qed
qed simp

lemma wait_for_landing_ends:
  assumes n: "sh_number (sd_timeout D) = Some n" "n < 2 ^ 63 - 1" and "0 \<le> e" and "nat ((n + 1 - e) div 2) < fuel"
  shows "\<exists>r g. wait_for_landing fuel E D key e h = (Return r, h @ g)
    \<and> (r = Inr True \<longrightarrow> (\<exists>g1 g2. g = g1 @ g2 \<and> landed E D key (h @ g1) = (Return (Inr True), h @ g)))"
  using assms(3,4)
proof (induction fuel arbitrary: e h)
  case (Suc fuel)
  obtain r g where round: "landed E D key h = (Return r, h @ g)" by (rule comes_backE [OF comes_back_landed])
  show ?case
  proof (cases "r = Inr False \<and> test_lt e (sd_timeout D)")
    case True
    obtain s g2 where pause: "run_or_exit E sleep_2 (h @ g) = (Return s, (h @ g) @ g2)" by (rule comes_backE [OF comes_back_commands(1)])
    have "e < n" using True n by (simp add: test_lt_def)
    from next_elapsed [OF Suc.prems(1) this n(2) Suc.prems(2)] Suc.prems(1)
    obtain q k where IH: "wait_for_landing fuel E D key (wrap64 (e + 2)) ((h @ g) @ g2) = (Return q, ((h @ g) @ g2) @ k)"
      "q = Inr True \<Longrightarrow> \<exists>k1 k2. k = k1 @ k2 \<and> landed E D key (((h @ g) @ g2) @ k1) = (Return (Inr True), ((h @ g) @ g2) @ k)"
      using Suc.IH [of "e + 2" "(h @ g) @ g2"] by auto
    have "\<exists>k1 k2. (g @ g2) @ k = k1 @ k2 \<and> landed E D key (h @ k1) = (Return (Inr True), h @ (g @ g2) @ k)" if "q = Inr True"
      using IH(2) [OF that] by (metis append.assoc)
    then show ?thesis using round pause True IH(1) by (cases s) (auto simp: bind_sh_eq)
  next
    case False
    have "\<exists>g1 g2. g = g1 @ g2 \<and> landed E D key (h @ g1) = (Return (Inr True), h @ g)" if "r = Inr True"
      using round that by (intro exI [of _ "[]"] exI [of _ g]) simp
    then show ?thesis using round False by (cases r) (auto simp: bind_sh_eq ret_sh_def ret_io_def)
  qed
qed simp

section \<open>The smoke test\<close>

text \<open>C24. \<open>healthcheck.sh\<close> decides: for an integer limit it copies nothing until its wait is over, and then it leaves with a
  status other than 0, or a round found every service healthy and both set-up containers exited with 0, and from then
  on the script is \<open>drop-test-files.py\<close>. Half the limit bounds the rounds.\<close>

theorem healthcheck_drops_on_a_running_stack:
  assumes "sh_number (health_timeout env) = Some n" and "n < 2 ^ 63 - 1" and "nat ((n + 1) div 2) < fuel"
  shows "\<exists>r h'. wait_for_stack fuel E base (health_timeout env) 0 h = (Return r, h') \<and> adds (\<lambda>c. \<not> copies c) h h' \<and> (case r of
      Inl code \<Rightarrow> code \<noteq> 0 \<and> healthcheck fuel E base env h = (Return code, h')
    | Inr _ \<Rightarrow> (\<exists>g. stack_is_up E base g h') \<and> healthcheck fuel E base env h =
        program_status (drop_script fuel E (base @ lit ''/scripts/drop-test-files.py'') (sh_assign ''TIMEOUT'' (health_timeout env) env)) h')"
proof -
  obtain r h' where w: "wait_for_stack fuel E base (health_timeout env) 0 h = (Return r, h')" "r = Inr () \<Longrightarrow> \<exists>g. stack_is_up E base g h'"
    using wait_for_stack_ends [OF assms(1,2), of 0 fuel E base h] assms(3) by auto
  have c: "c \<noteq> 0" if "r = Inl c" for c using w(1) that nonzero_wait(1) unfolding fails_nonzero_def by blast
  have "adds (\<lambda>c. \<not> copies c) h h'" using adds_wait_for_stack w(1) by (rule keepsD)
  then show ?thesis using w c by (cases r) (auto simp: healthcheck_def bind_io_def ret_io_def)
qed

text \<open>A container runtime that reports the whole stack up: the states are read off the format of the question.\<close>

definition stack_reply :: "pystr list \<Rightarrow> string" where
  "stack_reply argv = (if argv ! 1 = lit ''compose'' then ''c1''
     else if argv ! 2 = lit ''--format={{.State.Health.Status}}'' then ''healthy''
     else if argv ! 2 = lit ''--format={{.State.Running}}'' then ''false'' else ''0'')"

definition stack_env :: script_env where
  "stack_env = demo_env \<lparr>run_reply := \<lambda>h argv. Inr (0, ascii_bytes (stack_reply argv))\<rparr>"

lemma shell_number_180: "sh_number (health_timeout (\<lambda>_. None)) = Some 180"
  by (simp add: health_timeout_def sh_default_def sh_number_def signed_value_def decimal_value_def fits64_def lit_def)

lemma services_ok_uniform:
  assumes "\<And>svc h. \<exists>h'. query svc h = (Return (Inr s), h')"
  shows "\<exists>h'. services_ok query wanted svcs ok h = (Return (Inr (ok \<and> (svcs = [] \<or> s = wanted))), h')"
proof (induction svcs arbitrary: ok h)
  case (Cons svc svcs)
  obtain h1 where "query svc h = (Return (Inr s), h1)" using assms by blast
  then show ?case using Cons [of "ok \<and> s = wanted" h1] by (auto simp: bind_sh_eq)
qed (simp add: ret_sh_def ret_io_def)

lemma stack_round_uniform:
  assumes "\<And>svc h. \<exists>h'. service_status E base svc h = (Return (Inr s), h')" and "\<And>svc h. \<exists>h'. oneshot_status E base svc h = (Return (Inr t), h')"
  shows "\<exists>h'. stack_round E base h = (Return (Inr (s = lit ''healthy'' \<and> t = lit ''exited(0)'')), h')"
proof -
  obtain h1 where "services_ok (service_status E base) (lit ''healthy'') healthy_services True h = (Return (Inr (s = lit ''healthy'')), h1)"
    using services_ok_uniform [where query = "service_status E base" and s = s, OF assms(1), of "lit ''healthy''" healthy_services True h]
    by (auto simp: healthy_services_def)
  then show ?thesis
    using services_ok_uniform [where query = "oneshot_status E base" and s = t, OF assms(2), of "lit ''exited(0)''" oneshot_services "s = lit ''healthy''" h1]
    by (auto simp: stack_round_def bind_sh_eq oneshot_services_def)
qed

lemma stack_env_up: "\<exists>h'. stack_round stack_env [] h = (Return (Inr True), h')"
proof -
  have "\<exists>h'. service_status stack_env [] svc h = (Return (Inr (lit ''healthy'')), h')" for svc h
    by (simp add: service_status_def oneshot_status_def substitute_def substitute_or_def run_or_exit_def bind_sh_eq bind_io_def run_tested_eq
        stack_env_def stack_reply_def shell_status_def compose_at_def compose_def inspect_def ret_sh_def ret_io_def substitution_text_def)
      (simp add: ascii_bytes_def lit_def)
  moreover have "\<exists>h'. oneshot_status stack_env [] svc h = (Return (Inr (lit ''exited(0)'')), h')" for svc h
    by (simp add: service_status_def oneshot_status_def substitute_def substitute_or_def run_or_exit_def bind_sh_eq bind_io_def run_tested_eq
        stack_env_def stack_reply_def shell_status_def compose_at_def compose_def inspect_def ret_sh_def ret_io_def substitution_text_def)
      (simp add: ascii_bytes_def lit_def)
  ultimately show ?thesis using stack_round_uniform [of stack_env "[]" "lit ''healthy''" "lit ''exited(0)''" h] by simp
qed

theorem healthcheck_drops_on_a_running_stack_witness:
  "\<exists>g h'. stack_is_up stack_env [] g h' \<and> healthcheck 91 stack_env [] (\<lambda>_. None) [] =
     program_status (drop_script 91 stack_env (lit ''/scripts/drop-test-files.py'') (\<lambda>_. None)) h'"
proof -
  obtain h1 where "stack_round stack_env [] [] = (Return (Inr True), h1)" using stack_env_up by blast
  then have "wait_for_stack (Suc 90) stack_env [] (health_timeout (\<lambda>_. None)) 0 [] = (Return (Inr ()), h1)"
    by (simp only: wait_for_stack.simps) (simp add: bind_sh_eq ret_sh_def ret_io_def)
  then show ?thesis
    using healthcheck_drops_on_a_running_stack [of "\<lambda>_. None" 180 91 stack_env "[]" "[]", OF shell_number_180] by (auto simp: sh_assign_def)
qed

text \<open>C39. A limit that is no integer is never reached: \<open>healthcheck.sh\<close> waits for ever on a stack that does not come up, as every
  comparison with such a limit fails. \<open>drop-test-files.py\<close> reads the same variable as a floating-point number: when it is one,
  and FILE_COUNT is an integer, this script takes it as its limit. So 90.5 is good for the one script and disables
  the other (and a value that is no number at all, like 2m, is refused by the one and disables the other).\<close>

theorem malformed_limit_waits_for_ever:
  assumes "sh_number (health_timeout env) = None"
    and down: "\<And>h. \<exists>h'. stack_round E base h = (Return (Inr False), h')"
    and sleeps: "\<And>h. \<exists>out. gave E h sleep_2 out"
  shows "fst (healthcheck fuel E base env h) = Hang
    \<and> (\<forall>v t n. env (lit ''TIMEOUT'') = Some v \<longrightarrow> py_float v = Inr t \<longrightarrow> cfg_int env ''FILE_COUNT'' 5 = Inr n \<longrightarrow>
        (\<exists>D. drop_settings_of compose_file env = Inr D \<and> drop_timeout D = t \<and> file_count D = n))"
proof -
  have "fst (wait_for_stack fuel E base (health_timeout env) e h) = Hang" for e h
  proof (induction fuel arbitrary: e h)
    case (Suc fuel)
    obtain h1 where round: "stack_round E base h = (Return (Inr False), h1)" using down by blast
    obtain out where "gave E h1 sleep_2 out" using sleeps by blast
    then have "run_or_exit E sleep_2 h1 = (Return (Inr out), h1 @ [RunProgram sleep_2])" by (simp add: run_or_exit_Inr)
    then show ?case using round Suc assms(1) by (simp add: bind_sh_eq test_ge_def)
  qed (simp add: hang_io_def)
  then have "fst (healthcheck fuel E base env h) = Hang"
    by (auto simp: healthcheck_def bind_io_def split: prod.splits outcome.splits) (metis fst_conv outcome.distinct)+
  then show ?thesis by (simp add: drop_settings_of_def cfg_float_def)
qed

definition half_limit :: environment where
  "half_limit = [lit ''TIMEOUT'' \<mapsto> lit ''90.5'']"

lemma read_90_5: "py_float (lit ''90.5'') = Inr (Finite (181 / 2))"
proof -
  have "fl (181 / 2) = Finite (181 / 2)" by (rule fl_exact [of _ 181 "-1"]) (simp_all add: power_int_minus)
  moreover have "scan_digits 10 False [57, 48] = Some [9, 0]" "scan_digits 10 False [53] = Some [5]"
    using scan_digits_append [of "[9, 0]" False "[]"] scan_digits_append [of "[5]" False "[]"] by simp_all
  ultimately show ?thesis
    by (simp add: py_float_def Let_def lit_def strip_where_def is_space_def split_sign_def lower_ascii_def float_decimal_def opt_digits_def
        float_exponent_def digits_value_def power_int_minus del: scan_digits.simps)
qed

theorem malformed_limit_waits_for_ever_witness:
  "fst (healthcheck 1000 demo_env [] half_limit []) = Hang \<and> (\<exists>D. drop_settings_of [] half_limit = Inr D \<and> drop_timeout D = Finite (181 / 2))"
proof -
  have "sh_number (health_timeout half_limit) = None"
    by (simp add: health_timeout_def half_limit_def sh_default_def sh_number_def signed_value_def decimal_value_def fits64_def lit_def)
  moreover have "\<exists>h'. stack_round demo_env [] h = (Return (Inr False), h')" for h
  proof -
    let ?s = "lit ''roleARN: arn''"
    have "\<exists>h'. service_status demo_env [] svc h = (Return (Inr ?s), h')" "\<exists>h'. oneshot_status demo_env [] svc h = (Return (Inr (lit ''exited('' @ ?s @ lit '')'')), h')" for svc h
      by (simp_all add: service_status_def oneshot_status_def substitute_def substitute_or_def run_or_exit_def bind_sh_eq bind_io_def run_tested_eq
          demo_env_def shell_status_def ret_sh_def ret_io_def substitution_text_def)
        (simp_all add: ascii_bytes_def lit_def, rule exI [of _ 97], simp)
    from stack_round_uniform [of demo_env "[]", OF this, of h] show ?thesis by simp
  qed
  moreover have "\<exists>out. gave demo_env h sleep_2 out" for h by (simp add: gave_def demo_env_def shell_status_def)
  ultimately have "fst (healthcheck 1000 demo_env [] half_limit []) = Hang
    \<and> (\<forall>v t n. half_limit (lit ''TIMEOUT'') = Some v \<longrightarrow> py_float v = Inr t \<longrightarrow> cfg_int half_limit ''FILE_COUNT'' 5 = Inr n \<longrightarrow>
        (\<exists>D. drop_settings_of [] half_limit = Inr D \<and> drop_timeout D = t \<and> file_count D = n))"
    by (rule malformed_limit_waits_for_ever)
  moreover have "half_limit (lit ''TIMEOUT'') = Some (lit ''90.5'')" by (simp add: half_limit_def)
  moreover have "cfg_int half_limit ''FILE_COUNT'' 5 = Inr 5"
    using py_int_show_int [of 5] by (simp add: cfg_int_def half_limit_def show_nat.simps)
  ultimately show ?thesis using read_90_5 by blast
qed

section \<open>Dropping one file\<close>

text \<open>The file was found in both stores by the two last calls before \<open>h'\<close>.\<close>

definition found_in_both :: "script_env \<Rightarrow> shell_drop \<Rightarrow> pystr \<Rightarrow> script_call list \<Rightarrow> script_call list \<Rightarrow> bool" where
  "found_in_both E D key h h' \<longleftrightarrow> h' = h @ [RunProgram (curl_command D key), RunProgram (mc_command D key)]
     \<and> (\<exists>out. gave E h (curl_command D key) out)
     \<and> (\<exists>yes. gave E (h @ [RunProgram (curl_command D key)]) (mc_command D key) yes
          \<and> substitution_text (filter (\<lambda>c. c \<noteq> 13 \<and> c \<noteq> 10) yes) = lit ''yes'')"

lemma landed_found: "landed E D key h = (Return (Inr True), h') \<longleftrightarrow> found_in_both E D key h h'"
  by (auto simp: landed_True found_in_both_def)

definition dropping :: "shell_drop \<Rightarrow> pystr \<Rightarrow> pystr \<Rightarrow> script_call list" where
  "dropping D ts tmp = WriteTemp tmp (shell_csv ts) # map RunProgram (drop_commands D (shell_filename ts) tmp)"

lemma drop_and_wait_ends:
  assumes n: "sh_number (sd_timeout D) = Some n" "n < 2 ^ 63 - 1" "nat ((n + 1) div 2) < fuel"
  shows "\<exists>r g. drop_and_wait fuel E D ts tmp h = (Return r, h @ WriteTemp tmp (shell_csv ts) # g)
    \<and> (r = Inr () \<longrightarrow> (\<exists>k. found_in_both E D (shell_filename ts) (h @ dropping D ts tmp @ k) (h @ WriteTemp tmp (shell_csv ts) # g)))"
proof -
  let ?w = "[WriteTemp tmp (shell_csv ts)]" and ?f = "shell_filename ts"
  obtain r g where d: "run_each E (drop_commands D ?f tmp) (h @ ?w) = (Return r, (h @ ?w) @ g)" by (rule comes_backE [OF comes_back_run_each])
  obtain q k where w: "wait_for_landing fuel E D ?f 0 ((h @ ?w) @ g) = (Return q, ((h @ ?w) @ g) @ k)"
    "q = Inr True \<Longrightarrow> \<exists>k1. landed E D ?f (((h @ ?w) @ g) @ k1) = (Return (Inr True), ((h @ ?w) @ g) @ k)"
    using wait_for_landing_ends [OF n(1,2), of 0 fuel E ?f "(h @ ?w) @ g"] n(3) by auto
  obtain s k2 where l: "run_or_exit E (compose_at (sd_base D) @ [lit ''logs'', lit ''--tail=50'', lit ''worker'']) (((h @ ?w) @ g) @ k)
      = (Return s, (((h @ ?w) @ g) @ k) @ k2)" by (rule comes_backE [OF comes_back_commands(1)])
  have "g = map RunProgram (drop_commands D ?f tmp)" if "r = Inr ()" using d that ran_ok_calls by (fastforce simp: run_each_Inr)
  then have "\<exists>k1. found_in_both E D ?f (h @ dropping D ts tmp @ k1) (h @ ?w @ g @ k)" if "r = Inr ()" "q = Inr True"
    using w(2) that by (simp add: landed_found dropping_def)
  then show ?thesis using d w(1) l
    by (cases r; cases q; cases s) (auto simp: drop_and_wait_def bind_io_def record_call_def modify_io_def bind_sh_eq exit_sh_def ret_sh_def
        ret_io_def simp del: run_each.simps wait_for_landing.simps)
qed

lemma substitute_runs: "\<exists>r. substitute E argv h = (Return r, h @ [RunProgram argv]) \<and> (\<forall>c. r = Inl c \<longrightarrow> c \<noteq> 0)"
  by (auto simp: substitute_def run_or_exit_def bind_sh_eq bind_io_def run_tested_eq exit_sh_def ret_sh_def ret_io_def split: prod.splits)

lemma nonzero_drop: "fails_nonzero (drop_and_wait fuel E D ts tmp)"
proof -
  have "fails_nonzero (bind_io (record_call c) (\<lambda>_. m))" if "fails_nonzero m" for c and m :: "unit shell"
    using that by (simp add: fails_nonzero_def bind_io_def record_call_def modify_io_def)
  then show ?thesis unfolding drop_and_wait_def
    by (rule meta_mp) (auto intro!: nonzero_rules simp del: run_each.simps wait_for_landing.simps)
qed

text \<open>With the trap: the last call removes the temporary file.\<close>

lemma trapped_drop_ends:
  assumes n: "sh_number (sd_timeout D) = Some n" "n < 2 ^ 63 - 1" "nat ((n + 1) div 2) < fuel"
  shows "\<exists>code g. with_exit_trap E (remove_temp tmp) (drop_and_wait fuel E D ts tmp) h
      = (Return code, h @ WriteTemp tmp (shell_csv ts) # g @ [RunProgram (remove_temp tmp)])
    \<and> (code = 0 \<longrightarrow> (\<exists>k. found_in_both E D (shell_filename ts) (h @ dropping D ts tmp @ k) (h @ WriteTemp tmp (shell_csv ts) # g)))"
proof -
  obtain v g where d: "drop_and_wait fuel E D ts tmp h = (Return v, h @ WriteTemp tmp (shell_csv ts) # g)"
    "v = Inr () \<Longrightarrow> \<exists>k. found_in_both E D (shell_filename ts) (h @ dropping D ts tmp @ k) (h @ WriteTemp tmp (shell_csv ts) # g)"
    using drop_and_wait_ends [OF n, of E ts tmp h] by blast
  obtain st out where rm: "shell_status (run_reply E (h @ WriteTemp tmp (shell_csv ts) # g) (remove_temp tmp)) = (st, out)" by fastforce
  have "v \<noteq> Inl 0" using d(1) nonzero_drop unfolding fails_nonzero_def by blast
  then have "v = Inr ()" if "(if st = 0 then (case v of Inl c \<Rightarrow> c | Inr _ \<Rightarrow> 0) else st) = 0"
    using that by (cases v) (auto split: if_splits)
  then show ?thesis using d rm by (auto simp: with_exit_trap_def bind_io_def run_tested_eq ret_io_def)
qed

text \<open>C25. \<open>drop-test-file.sh\<close> comes back for every integer limit, after at most half the limit in rounds. Either it failed
  before it had a temporary file, or the last call removes the file; the status is 0 only if the file was written, copied and
  given to the SFTP user, and the last two calls before found it in both stores.\<close>

theorem drop_one_file_verifies:
  assumes "sh_number (sh_default env ''TIMEOUT'' (lit ''60'')) = Some n" and "n < 2 ^ 63 - 1" and "nat ((n + 1) div 2) < fuel"
  shows "\<exists>code h'. drop_one_file fuel E base env h = (Return code, h') \<and>
    (code \<noteq> 0 \<and> length h' \<le> length h + 2
     \<or> (\<exists>ts tmp h1 g. h' = h1 @ WriteTemp tmp (shell_csv ts) # g @ [RunProgram (remove_temp tmp)]
        \<and> h1 = h @ [RunProgram [lit ''date'', lit ''+%Y%m%d%H%M%S''], RunProgram [lit ''mktemp'']]
        \<and> (code = 0 \<longrightarrow> (\<exists>k. found_in_both E (shell_drop_of base env) (shell_filename ts)
            (h1 @ dropping (shell_drop_of base env) ts tmp @ k) (h1 @ WriteTemp tmp (shell_csv ts) # g)))))"
proof -
  let ?D = "shell_drop_of base env" and ?date = "RunProgram [lit ''date'', lit ''+%Y%m%d%H%M%S'']"
    and ?mktemp = "RunProgram [lit ''mktemp'']"
  have n: "sh_number (sd_timeout ?D) = Some n" using assms(1) by (simp add: shell_drop_of_def)
  obtain r where t: "substitute E [lit ''date'', lit ''+%Y%m%d%H%M%S''] h = (Return r, h @ [?date])" "\<And>c. r = Inl c \<Longrightarrow> c \<noteq> 0"
    using substitute_runs by blast
  show ?thesis
  proof (cases r)
    case (Inl c)
    then show ?thesis using t by (auto simp: drop_one_file_def bind_io_def bind_sh_eq ret_io_def)
  next
    case (Inr ts)
    obtain q where m: "substitute E [lit ''mktemp''] (h @ [?date]) = (Return q, h @ [?date, ?mktemp])" "\<And>c. q = Inl c \<Longrightarrow> c \<noteq> 0"
      using substitute_runs [of E _ "h @ [?date]"] by fastforce
    show ?thesis
    proof (cases q)
      case (Inl c)
      then show ?thesis using t(1) m Inr by (auto simp: drop_one_file_def bind_io_def bind_sh_eq ret_io_def)
    next
      case (Inr tmp)
      let ?h1 = "h @ [?date, ?mktemp]"
      obtain code g where d: "with_exit_trap E (remove_temp tmp) (drop_and_wait fuel E ?D ts tmp) ?h1
          = (Return code, ?h1 @ WriteTemp tmp (shell_csv ts) # g @ [RunProgram (remove_temp tmp)])"
        "code = 0 \<longrightarrow> (\<exists>k. found_in_both E ?D (shell_filename ts) (?h1 @ dropping ?D ts tmp @ k) (?h1 @ WriteTemp tmp (shell_csv ts) # g))"
        using trapped_drop_ends [OF n assms(2,3), of E tmp ts ?h1] by blast
      have "drop_one_file fuel E base env h = (Return code, ?h1 @ WriteTemp tmp (shell_csv ts) # g @ [RunProgram (remove_temp tmp)])"
        using t(1) m(1) d(1) \<open>r = Inr ts\<close> Inr by (simp add: drop_one_file_def bind_io_def [of "bind_sh _ _"] bind_sh_eq ret_io_def ret_sh_def)
      then show ?thesis using d(2) by (intro exI conjI disjI2) (assumption | rule refl)+
    qed
  qed
qed

text \<open>A runtime that knows the time, makes a temporary file and finds every file.\<close>

definition drop_reply :: "pystr list \<Rightarrow> string" where
  "drop_reply argv = (if hd argv = lit ''date'' then ''20260301120000'' else if hd argv = lit ''mktemp'' then ''/tmp/f'' else ''yes'')"

definition drop_env :: script_env where
  "drop_env = demo_env \<lparr>run_reply := \<lambda>h argv. Inr (0, ascii_bytes (drop_reply argv))\<rparr>"

lemma shell_number_60: "sh_number (sh_default (\<lambda>_. None) ''TIMEOUT'' (lit ''60'')) = Some 60"
  by (simp add: sh_default_def sh_number_def signed_value_def decimal_value_def fits64_def lit_def)

lemma drop_env_gives: "gave drop_env h argv (map unat (ascii_bytes (drop_reply argv)))"
  by (simp add: gave_def drop_env_def shell_status_def)

lemma drop_env_substitute: "substitute drop_env argv h = (Return (Inr (substitution_text (map unat (ascii_bytes (drop_reply argv))))), h @ [RunProgram argv])"
proof -
  have "run_or_exit drop_env argv h = (Return (Inr (map unat (ascii_bytes (drop_reply argv)))), h @ [RunProgram argv])"
    using drop_env_gives by (simp add: run_or_exit_Inr)
  then show ?thesis by (simp add: substitute_def bind_sh_eq ret_sh_def ret_io_def)
qed

lemma drop_env_ran_ok: "ran_ok drop_env argvs h (h @ map RunProgram argvs)"
proof (induction argvs arbitrary: h)
  case (Cons argv argvs)
  show ?case using drop_env_gives Cons [of "h @ [RunProgram argv]"] by auto
qed simp

lemma drop_env_exit_0: "\<exists>h'. drop_one_file 31 drop_env [] (\<lambda>_. None) [] = (Return 0, h')"
proof -
  let ?D = "shell_drop_of [] (\<lambda>_. None)"
  have num: "sh_number (sd_timeout ?D) = Some 60" using shell_number_60 by (simp add: shell_drop_of_def)
  have yes: "substitution_text (filter (\<lambda>c. c \<noteq> 13 \<and> c \<noteq> 10) (map unat (ascii_bytes (drop_reply (mc_command ?D key))))) = lit ''yes''" for key
    by (simp add: substitution_text_def mc_command_def drop_reply_def compose_at_def compose_def ascii_bytes_def lit_def)
  have land: "landed drop_env ?D key h = (Return (Inr True), h @ [RunProgram (curl_command ?D key), RunProgram (mc_command ?D key)])" for key h
    unfolding landed_True using yes drop_env_gives by blast
  have w: "wait_for_landing (Suc 30) drop_env ?D key 0 h = (Return (Inr True), h @ [RunProgram (curl_command ?D key), RunProgram (mc_command ?D key)])" for key h
    using num by (simp only: wait_for_landing.simps) (simp add: test_lt_def bind_sh_eq land ret_sh_def ret_io_def)
  have each: "run_each drop_env argvs h = (Return (Inr ()), h @ map RunProgram argvs)" for argvs h
    unfolding run_each_Inr by (rule drop_env_ran_ok)
  have d: "\<exists>h'. drop_and_wait 31 drop_env ?D ts tmp h = (Return (Inr ()), h')" for ts tmp h
    using w by (simp add: drop_and_wait_def bind_io_def record_call_def modify_io_def bind_sh_eq each ret_sh_def ret_io_def
        del: run_each.simps wait_for_landing.simps)
  have rm: "\<exists>out. shell_status (run_reply drop_env h argv) = (0, out)" for h argv using drop_env_gives by (simp add: gave_def)
  have trap: "\<exists>h'. with_exit_trap drop_env argv m h = (Return 0, h')" if m: "\<exists>h'. m h = (Return (Inr ()), h')" for argv m h
  proof -
    obtain h1 where m: "m h = (Return (Inr ()), h1)" using m by blast
    obtain out where "shell_status (run_reply drop_env h1 argv) = (0, out)" using rm by blast
    then show ?thesis using m by (simp add: with_exit_trap_def bind_io_def run_tested_eq ret_io_def)
  qed
  have body: "\<exists>h'. with_exit_trap drop_env argv (drop_and_wait 31 drop_env ?D ts tmp) h = (Return 0, h')" for argv ts tmp h
    by (rule trap) (rule d)
  show ?thesis by (simp add: drop_one_file_def bind_sh_eq bind_io_def [of "bind_sh _ _"] drop_env_substitute ret_sh_def ret_io_def body)
qed

theorem drop_one_file_verifies_witness:
  "\<exists>ts h0 h1 h'. drop_one_file 31 drop_env [] (\<lambda>_. None) [] = (Return 0, h')
    \<and> found_in_both drop_env (shell_drop_of [] (\<lambda>_. None)) (shell_filename ts) h0 h1"
proof -
  obtain h' where "drop_one_file 31 drop_env [] (\<lambda>_. None) [] = (Return 0, h')" using drop_env_exit_0 by blast
  then show ?thesis
    using drop_one_file_verifies [of "\<lambda>_. None" 60 31 drop_env "[]" "[]", OF shell_number_60] by fastforce
qed

text \<open>Both drop scripts ask the Cloud Storage emulator for the same address of a file.\<close>

lemma unreserved_quoted:
  assumes "list_all (\<lambda>c. is_unreserved c \<and> c < 128 \<and> c \<noteq> 0) s"
  shows "url_quote s = Inr s"
proof -
  have "utf8_encode s = Inr (map of_nat s)" using ascii_encode [of s] assms by (simp add: list_all_iff)
  moreover have "quote_byte (of_nat c) = [c]" if "c \<in> set s" for c
  proof -
    have "c < 128" "is_unreserved c" using assms that by (auto simp: list_all_iff)
    then show ?thesis by (simp add: quote_byte_def unat_of_nat)
  qed
  then have "concat (map quote_byte (map of_nat s)) = s" by (induction s) auto
  ultimately show ?thesis by (simp add: url_quote_def)
qed

theorem scripts_ask_for_one_address:
  assumes "digits ts"
  shows "gcs_object_url (sd_gcs_bucket D) (shell_filename ts) = Inr (last (curl_command D (shell_filename ts)))"
proof -
  have c: "is_unreserved c \<and> c < 128 \<and> c \<noteq> 0 \<and> c \<noteq> 47" if "c \<in> set (shell_filename ts)" for c
    using assms that by (auto simp: shell_filename_def digits_def list_all_iff is_unreserved_def lit_def)
  then have "url_quote (shell_filename ts) = Inr (shell_filename ts)" by (intro unreserved_quoted) (simp add: list_all_iff)
  moreover have "encode_slashes s = s" if "\<forall>c \<in> set s. c \<noteq> 47" for s using that by (induction s) (auto simp: encode_slashes_def)
  then have "encode_slashes (shell_filename ts) = shell_filename ts" using c by blast
  ultimately show ?thesis by (simp add: gcs_object_url_def curl_command_def)
qed

section \<open>Running the checks\<close>

text \<open>\<open>run-tests.sh\<close> succeeds exactly if the directory could be entered and every command after it, those of the set-up only
  where no environment was there, answered with the status 0, each started after the one before.\<close>

lemma exit_status_0: "fails_nonzero m \<Longrightarrow> exit_status m h = (Return 0, h') \<longleftrightarrow> m h = (Return (Inr ()), h')"
  by (auto simp: exit_status_def bind_io_def ret_io_def fails_nonzero_def split: prod.splits outcome.splits sum.splits)

lemma ran_ok_append: "ran_ok E (xs @ ys) h h' \<longleftrightarrow> (\<exists>h1. ran_ok E xs h h1 \<and> ran_ok E ys h1 h')"
  by (induction xs arbitrary: h) auto

theorem tests_pass_with_every_check:
  "run_tests E base h = (Return 0, h') \<longleftrightarrow> (\<exists>out st out1. gave E h [lit ''cd'', base @ lit ''/worker''] out
    \<and> shell_status (run_reply E (h @ [RunProgram [lit ''cd'', base @ lit ''/worker'']]) no_venv) = (st, out1)
    \<and> ran_ok E ((if st = 0 then install_commands else []) @ check_commands)
        (h @ [RunProgram [lit ''cd'', base @ lit ''/worker''], RunProgram no_venv]) h')"
proof -
  let ?rest = "\<lambda>(st, out). bind_sh (run_each E (if st = 0 then install_commands else [])) (\<lambda>_. run_each E check_commands)"
  have tested: "bind_io (run_tested E no_venv) ?rest h1 = (Return (Inr ()), h') \<longleftrightarrow> (\<exists>st out. shell_status (run_reply E h1 no_venv) = (st, out)
      \<and> ran_ok E ((if st = 0 then install_commands else []) @ check_commands) (h1 @ [RunProgram no_venv]) h')" for h1
    by (cases "shell_status (run_reply E h1 no_venv)")
      (simp add: bind_io_def run_tested_eq bind_sh_Inr run_each_Inr ran_ok_append del: run_each.simps)
  have nz: "fails_nonzero (bind_sh (run_or_exit E argv) (\<lambda>_. bind_io (run_tested E no_venv) ?rest))" for argv
    by (intro nonzero_rules)
  show ?thesis unfolding run_tests_def exit_status_0 [OF nz] bind_sh_Inr tested by (auto simp: run_or_exit_Inr)
qed

text \<open>An environment whose set-up failed half-way is never repaired: once \<open>.venv\<close> exists, the set-up is skipped, and without
  \<open>ruff\<close> in it every later run ends with the status 127.\<close>

theorem half_built_environment_stays:
  assumes "gave E h [lit ''cd'', base @ lit ''/worker''] out"
    and "shell_status (run_reply E (h @ [RunProgram [lit ''cd'', base @ lit ''/worker'']]) no_venv) = (1, out1)"
    and "shell_status (run_reply E (h @ [RunProgram [lit ''cd'', base @ lit ''/worker''], RunProgram no_venv]) (hd check_commands)) = (127, out2)"
  shows "run_tests E base h = (Return 127, h @ [RunProgram [lit ''cd'', base @ lit ''/worker''], RunProgram no_venv, RunProgram (hd check_commands)])"
  using assms
  by (simp add: run_tests_def exit_status_def bind_sh_eq bind_io_def run_or_exit_def run_tested_eq gave_def check_commands_def ret_sh_def exit_sh_def ret_io_def)

end
