(* ===== verification/Spec2Isabelle.thy ===== *)
theory Spec2Isabelle
  imports Consumer_Properties Component_Properties Watcher_Properties Service_Properties Script_Properties Pipeline_Properties
    Contract_Properties Shell_Properties Unit_Tests
begin

text \<open>
  A verification library for the SFTP event worker: a Python service that watches a drop directory,
  announces every finished file on RabbitMQ (\<open>file.transfer.requested\<close>), and consumes these
  events again to copy the file to S3 and GCS, with retries, a dead-letter queue and an idempotency
  table; and for the two cloud functions that load the copied order CSVs into a database; and for the operator
  scripts that drop, replay and check files on a running stack.

  \<^bold>\<open>How the parts interact.\<close> The watcher thread (\<open>worker/src/watcher.py\<close>) turns a
  file-system event into a \<open>TransferEvent\<close> (\<open>schema.py\<close>, \<open>utils.py\<close>) and publishes it
  (\<open>publisher.py\<close>). The consumer thread (\<open>consumer.py\<close>) gets it back, validates it, asks
  the idempotency store (\<open>idempotency.py\<close>), scans the file (\<open>csv_security.py\<close>), uploads it
  (\<open>uploader.py\<close>) and acknowledges it, or sends it to the retry or the dead-letter queue. The
  main thread (\<open>main.py\<close>) starts both, logs JSON lines (\<open>logging_setup.py\<close>) and serves
  readiness and metrics (\<open>health.py\<close>, \<open>metrics.py\<close>). All settings come from the
  environment (\<open>config.py\<close>). From outside, the scripts below \<open>scripts/\<close> drop order files onto
  the SFTP server, replay the event of a processed file, and try temporary storage credentials.

  \<^bold>\<open>The model.\<close> A Python call is a function from the state to an outcome (a value, an
  exception, or \<open>Hang\<close>) and the next state (theory \<open>Prelude\<close>); \<open>try\<close>/\<open>except\<close>,
  \<open>finally\<close>, sequencing and raising are combinators, so a handler reads like the code. The state
  (\<open>World\<close>) is the chronological list of all calls that leave the process, the rows of the
  SQLite table, the counters and the readiness flags. Broker, file system, clouds, clock, random
  source and JSON library are the record \<open>environ\<close>: each answer is a function of the whole history, so
  a theorem about every \<open>environ\<close> covers every order of failures and recoveries. What a theorem
  needs of them is a named hypothesis (\<open>json_laws\<close>, \<open>calm\<close>, \<open>calm_broker\<close>,
  \<open>sound_host\<close>, \<open>file_facts\<close>, ...), and \<open>Sample\<close> has a concrete
  world that meets them, on which the witnesses evaluate the definitions. Where the watcher runs in one world and the
  consumer in any other, however hostile, all the two share is the JSON library (\<open>same_codec\<close>).

  \<^bold>\<open>Theories.\<close>
  \<^item> \<open>Prelude\<close>, \<open>Text\<close>, \<open>Floats\<close>, \<open>Hashing\<close>, \<open>Paths\<close>, \<open>Url_Text\<close>,
    \<open>Json_Text\<close>: the parts of the Python runtime the code uses. UTF-8 with CPython's error reasons,
    \<open>int()\<close> and \<open>str()\<close>, IEEE doubles as exact rationals with rounding, SHA-256 and HMAC on
    \<open>32 word\<close>, \<open>os.path\<close>, \<open>unquote_plus\<close>, \<open>json.dumps\<close>.
  \<^item> \<open>Config\<close>: \<open>Settings\<close>, its defaults, \<open>from_env\<close>, the broker URL.
  \<^item> \<open>Schema\<close>: the pydantic models as records, validators as Boolean functions, reading and
    writing JSON documents, the version gate, \<open>with_retry\<close>.
  \<^item> \<open>Event_Schema\<close>: \<open>schemas/transfer-event.schema.json\<close> as a value with the meaning of its keywords,
    and both directions of its relation to the models.
  \<^item> \<open>Csv\<close>, \<open>Csv_Security\<close>: CPython's \<open>csv.reader\<close> as its state machine, and the scan.
  \<^item> \<open>World\<close>: state, outside world, metrics.
  \<^item> \<open>Idempotency\<close>: the interface \<open>dedupe_store\<close>, interpreted on the SQL statements.
  \<^item> \<open>Publisher\<close>: connection, topology, confirmed publications.
  \<^item> \<open>Uploader\<close>: the asyncio event loop with its semaphore (\<open>drive\<close>), results by outcome. A deadline ends the
    wait for an SDK call and frees its permit, the call runs on; \<open>run_uploads\<close> is \<open>asyncio.run\<close> of the whole, which joins
    such threads at the end.
  \<^item> \<open>Consumer\<close> with \<open>Consumer_Stages\<close> (the handler cut at its questions to the outside, one lemma per
    stage in each of the following), \<open>Consumer_Safety\<close> (nothing is acknowledged before it is settled),
    \<open>Consumer_Contract\<close> (every returning delivery has one verdict), \<open>Consumer_Progress\<close>
    (when the handler returns), \<open>Consumer_Accounting\<close> and \<open>Consumer_Loop\<close> (counters, table
    and isolation over whole runs), \<open>Consumer_Scenarios\<close> (forward runs, chains of retries).
  \<^item> \<open>Utils\<close>, \<open>Watcher\<close>, \<open>Watcher_Lemmas\<close>: hashing helpers, event construction,
    publishing with one reconnect, the loop; \<open>watcher_invariant\<close> is the interface of everything
    the loop keeps.
  \<^item> \<open>Health\<close>, \<open>Logging\<close>, \<open>Worker_Main\<close>, \<open>Worker_Lemmas\<close>, \<open>Main_Thread\<close>: readiness
    flags and HTTP answers, the log formatter, the bodies of the threads, the step relation of the process
    (\<open>observed\<close>: the watcher's observer was started, so that its \<open>finally\<close> block resets the flag),
    and the calls of the main thread on each of its runs;
    \<open>handler_frame\<close> and \<open>outside_frame\<close> are the interfaces of everything the handler and the consumer thread keep.
  \<^item> \<open>Prefetch\<close>: the window of unacknowledged deliveries the consumer asks the broker for, what AMQP promises of
    the items the loop gets in return (\<open>respects_prefetch\<close>), and messages that use the window up.
  \<^item> \<open>Pipeline\<close>: watcher, broker and consumer together. The broker is a ledger of the messages it still has
    to deliver and of the dead letters; the steps are a delivery of any kept message, a crash of the worker or its
    connection within a delivery, after any of its calls and with the acknowledgement lost, and a restart.
    \<open>kept\<close> is the invariant that no key gets lost, \<open>load\<close> the measure every delivery lowers.
  \<^item> \<open>Contract_Spec\<close>, \<open>Contract_Refinement\<close>: the event contract as an abstract machine over tickets (key and
    next attempt) with its laws, the interface \<open>simulation\<close> between a system and a specification, and the proof that the
    pipeline implements the contract: \<open>one_effect\<close> says that a handler, wherever it ends, confirms at most one message
    or makes one mark, \<open>contract_of\<close> is the view of queues and table as tickets.
  \<^item> \<open>Ingestion\<close>: \<open>csv.DictReader\<close> and the two cloud functions over the interface
    \<open>item_store\<close>. DynamoDB's batch writer and the Firestore client are parameters; \<open>batch_laws\<close> and
    \<open>firestore_laws\<close> say what their documentation promises, and only of items within the documented limits
    (\<open>dynamo_accepts\<close>, \<open>valid_doc_id\<close>, \<open>line_fits\<close>).
  \<^item> \<open>Script_World\<close>, \<open>Drop_Files\<close>, \<open>Replay\<close>, \<open>Sts\<close>: the operator scripts over
    their own world, the list of programs run, URLs opened, draws and waits, with answers \<open>script_env\<close>;
    \<open>Script_Lemmas\<close>, \<open>Replay_Lemmas\<close>, \<open>Sts_Lemmas\<close> show that their calls come back
    (\<open>calm\<close>), what the generated files and the replayed event are for the worker, and what is signed.
  \<^item> \<open>Shell\<close>, \<open>Shell_Scripts\<close>, \<open>Shell_Lemmas\<close>: what the shell scripts use of \<open>bash\<close> (\<open>set -e\<close>, command
    substitution, the exit trap, 64-bit integers) over the same world, \<open>healthcheck.sh\<close>, \<open>drop-test-file.sh\<close> and
    \<open>run-tests.sh\<close>, and what a status 0 says of the answers they got (\<open>gave\<close>, \<open>ran_ok\<close>, \<open>stack_is_up\<close>).
  \<^item> \<open>Unit_Tests\<close>: the repository's unit tests of the worker's own logic, as evaluations of the model on the tests' data.
  \<^item> \<open>Consumer_Properties\<close>, \<open>Component_Properties\<close>, \<open>Watcher_Properties\<close>,
    \<open>Service_Properties\<close>, \<open>Script_Properties\<close>, \<open>Pipeline_Properties\<close>,
    \<open>Contract_Properties\<close>, \<open>Shell_Properties\<close>: the numbered properties, each with its instance on concrete data.

  \<^bold>\<open>What the theorems show.\<close> Safety of the consumer (acknowledgement last and only after
  settlement, marks only after all uploads), its refinement of the event contract (one delivery against its verdict, and
  whole runs against the abstract machine: keys are conserved, attempts bounded), deliveries within the prefetch window, bounded retries that
  keep the event, progress under stated conditions, exact books between metrics, acknowledgements and
  messages, one upload per destination with the waits within the concurrency limit, round trips (events, CSV
  tables, numbers, UTF-8, object keys), the watcher's side (one valid event per file, from the drop
  directory to both buckets, clean-up on every exit), the pipeline as a whole (no detected file is lost whatever
  fails or crashes, the queues drain within a number of deliveries, clean files are all processed), the models against the
  published schema in both directions, readiness over all interleavings of the threads, threads that leave each other's
  state alone,
  ingestion that is idempotent within those limits, and for the scripts: accepted files, a replay that is a duplicate, waiting that
  ends, signatures that cover the request, success only with scoped access, a smoke test that drops files only on a
  running stack. Several theorems prove defects: files, settings or events that make the
  code hang, raise or lose a file, and a few poison files that stop the worker for good while it reports itself ready.

  \<^bold>\<open>Bounds and termination.\<close> Recursion follows the data or has a measure; fuel is
  used by the sample JSON codec (the length of the input) and by the scripts' waiting loops, which only the clock
  ends: if \<open>n\<close> sleeps take it past every deadline, every fuel above \<open>n\<close> is enough. A run of a loop is given by the
  finite list of items it gets before the stop event is seen. A run of the pipeline counts its deliveries and crashes;
  a message makes at most one delivery and one more per attempt that is left. \<open>Hang\<close> stands for a wait that does
  not end: a semaphore without permits, a stop event that is never set, a waiting loop out of fuel. CPython's limits (4300 digits, 131072
  characters in a CSV field) are in the model. The loops of the shell scripts count the seconds they slept in steps of
  two, so half the limit bounds their rounds, as long as the limit is an integer below the largest of 64 bits.

  \<^bold>\<open>Not modelled.\<close> Log calls inside the worker (they do not change state), the sockets of
  the standard library's HTTP server, histogram buckets and the text format of
  \<open>prometheus_client\<close>, RabbitMQ beyond its duties in \<open>Pipeline\<close> (it keeps a published message of a
  declared queue until it is acknowledged and moves an expired retry to the main queue) and \<open>Prefetch\<close> (it keeps to the
  prefetch count), pika's and the storage SDKs' internals, what the scripts
  print, an \<open>exec\<close> of \<open>healthcheck.sh\<close> that fails, a here-document of \<open>drop-test-file.sh\<close> that cannot be written,
  the Makefile, Terraform and Docker files. Threads interleave in \<open>process_step\<close> at the
  changes of the readiness flags; the worlds of the two threads are otherwise separate: they share
  only the counters, the flags and the table, and \<open>Worker_Lemmas\<close> shows that each leaves the other's part alone.
\<close>

end
